(* ===== verification/Prelude.thy ===== *)
theory Prelude
  imports Main "HOL-Library.Word" "HOL-Library.Char_ord" "HOL-Library.List_Lexorder"
begin

text \<open>
  Shared vocabulary of the development: the outcome of a C++ call (a value or an exception),
  sequencing of calls that keep the state they reached, the conversion to a 32-bit signed
  \<open>int\<close>, and \<open>std::map\<close> as a key-sorted association list with its interface and laws.
\<close>

named_theorems call_simps "sequencing of calls"
named_theorems map_simps "lookups in ordered maps"

type_synonym byte = "8 word"
type_synonym u64 = "64 word"

section \<open>Outcomes of calls\<close>

text \<open>
  What a call can throw.  \<open>AssertionViolation\<close> is what a failing \<open>poco_assert\<close> throws,
  \<open>NullPointer\<close> what dereferencing a null \<open>Poco::SharedPtr\<close> or \<open>AutoPtr\<close> throws;
  \<open>Undefined\<close> stands for an access the language gives no meaning to (an out-of-range
  index, a division by zero).
\<close>

datatype exn =
    AssertionViolation
  | NullPointer
  | NetException
  | FileException
  | TimeoutException
  | NoThreadAvailable
  | DataException
  | BadAlloc
  | TaskError string
  | Undefined

datatype 'a outcome = Ret 'a | Throw exn

text \<open>
  A call on a state gives an outcome and the state it left, also when it throws.
\<close>

type_synonym ('a, 's) result = "'a outcome \<times> 's"

definition and_then :: "('a, 's) result \<Rightarrow> ('a \<Rightarrow> 's \<Rightarrow> ('b, 's) result) \<Rightarrow> ('b, 's) result" where
  "and_then r f = (case r of (Ret x, s) \<Rightarrow> f x s | (Throw e, s) \<Rightarrow> (Throw e, s))"

definition check :: "bool \<Rightarrow> 's \<Rightarrow> ('b, 's) result \<Rightarrow> ('b, 's) result" where
  "check b s k = (if b then k else (Throw AssertionViolation, s))"

lemma and_then_Ret [simp, call_simps]: "and_then (Ret x, s) f = f x s"
  by (simp add: and_then_def)

lemma and_then_Throw [simp, call_simps]: "and_then (Throw e, s) f = (Throw e, s)"
  by (simp add: and_then_def)

lemma and_then_eq_Ret:
  "and_then r f = (Ret y, t) \<longleftrightarrow> (\<exists>x s. r = (Ret x, s) \<and> f x s = (Ret y, t))"
  by (cases r; cases "fst r") (auto simp: and_then_def split: outcome.splits)

lemma and_then_split:
  "P (and_then r f) \<longleftrightarrow>
     (\<forall>x s. r = (Ret x, s) \<longrightarrow> P (f x s)) \<and> (\<forall>e s. r = (Throw e, s) \<longrightarrow> P (Throw e, s))"
  by (cases r; cases "fst r") auto

lemma and_then_inv:
  "P (snd r) \<Longrightarrow> (\<And>x s. P s \<Longrightarrow> P (snd (f x s))) \<Longrightarrow> P (snd (and_then r f))"
  by (cases r; cases "fst r") auto

lemma check_True [simp, call_simps]: "check True s k = k"
  by (simp add: check_def)

lemma check_False [simp, call_simps]: "check False s k = (Throw AssertionViolation, s)"
  by (simp add: check_def)

lemma check_eq_Ret: "check b s k = (Ret y, t) \<longleftrightarrow> b \<and> k = (Ret y, t)"
  by (simp add: check_def)

definition map_outcome :: "('a \<Rightarrow> 'b) \<Rightarrow> 'a outcome \<Rightarrow> 'b outcome" where
  "map_outcome f r = (case r of Ret x \<Rightarrow> Ret (f x) | Throw e \<Rightarrow> Throw e)"

lemma map_outcome_simps [simp, call_simps]:
  "map_outcome f (Ret x) = Ret (f x)" "map_outcome f (Throw e) = Throw e"
  by (simp_all add: map_outcome_def)

lemma map_outcome_eq_Ret: "map_outcome f r = Ret y \<longleftrightarrow> (\<exists>x. r = Ret x \<and> y = f x)"
  by (cases r) (auto simp: map_outcome_def)

fun returns :: "('a, 's) result \<Rightarrow> bool" where
  "returns (Ret _, _) = True"
| "returns (Throw _, _) = False"

section \<open>Machine integers\<close>

text \<open>Exit codes of \<open>Poco::Util::Application\<close> (those of \<open>sysexits.h\<close>).\<close>

definition EXIT_OK :: int where "EXIT_OK = 0"
definition EXIT_TEMPFAIL :: int where "EXIT_TEMPFAIL = 75"

text \<open>What \<open>catch(Exception& e)\<close> catches: the exceptions of Poco.\<close>

fun poco_exception :: "exn \<Rightarrow> bool" where
  "poco_exception BadAlloc = False"
| "poco_exception Undefined = False"
| "poco_exception _ = True"

text \<open>
  The \<open>main\<close> functions of both programs catch these around \<open>run\<close>, print the message and come to their
  end without a \<open>return\<close>, which for \<open>main\<close> is a return of 0.
\<close>

definition main_function :: "int outcome \<Rightarrow> int outcome" where
  "main_function run =
     (case run of
        Ret code \<Rightarrow> Ret code
      | Throw e \<Rightarrow> if poco_exception e then Ret 0 else Throw e)"

text \<open>
  A C++ \<open>int\<close> is an \<open>int\<close>; a conversion from a wider type keeps the low 32 bits in two's
  complement.
\<close>

definition to_i32 :: "int \<Rightarrow> int" where
  "to_i32 x = signed_take_bit 31 x"

lemma to_i32_id [simp]: "- (2 ^ 31) \<le> x \<Longrightarrow> x < 2 ^ 31 \<Longrightarrow> to_i32 x = x"
  by (simp add: to_i32_def signed_take_bit_int_eq_self_iff)

lemma to_i32_lower: "- (2 ^ 31) \<le> to_i32 x"
  unfolding to_i32_def by (rule signed_take_bit_int_greater_eq_minus_exp)

lemma to_i32_upper: "to_i32 x < 2 ^ 31"
  unfolding to_i32_def by (rule signed_take_bit_int_less_exp)

text \<open>\<open>%d\<close>: the decimal digits of an integer.\<close>

fun dec_nat :: "nat \<Rightarrow> string" where
  "dec_nat n = (if n < 10 then [char_of (48 + n)] else dec_nat (n div 10) @ [char_of (48 + n mod 10)])"

declare dec_nat.simps [simp del]

definition dec :: "int \<Rightarrow> string" where
  "dec i = (if i < 0 then ''-'' @ dec_nat (nat (- i)) else dec_nat (nat i))"

section \<open>Ordered maps\<close>

text \<open>
  \<open>std::map\<close>: iterated in key order, one value per key.  The association list is kept
  sorted by \<open>sm_set\<close>; \<open>operator[]\<close> on an absent key inserts a default first
  (\<open>sm_get\<close>).
\<close>

type_synonym ('k, 'v) smap = "('k \<times> 'v) list"

definition sm_find :: "('k, 'v) smap \<Rightarrow> 'k \<Rightarrow> 'v option" where
  "sm_find m k = map_of m k"

fun sm_set :: "'k::linorder \<Rightarrow> 'v \<Rightarrow> ('k, 'v) smap \<Rightarrow> ('k, 'v) smap" where
  "sm_set k v [] = [(k, v)]"
| "sm_set k v ((k', v') # m) =
     (if k < k' then (k, v) # (k', v') # m
      else if k = k' then (k, v) # m
      else (k', v') # sm_set k v m)"

definition sm_erase :: "'k \<Rightarrow> ('k, 'v) smap \<Rightarrow> ('k, 'v) smap" where
  "sm_erase k m = filter (\<lambda>p. fst p \<noteq> k) m"

definition sm_get :: "'v \<Rightarrow> 'k::linorder \<Rightarrow> ('k, 'v) smap \<Rightarrow> 'v \<times> ('k, 'v) smap" where
  "sm_get d k m = (case sm_find m k of Some v \<Rightarrow> (v, m) | None \<Rightarrow> (d, sm_set k d m))"

definition sm_ok :: "('k::linorder, 'v) smap \<Rightarrow> bool" where
  "sm_ok m = sorted_wrt (<) (map fst m)"

locale std_map =
  fixes empty :: "'m"
    and find :: "'m \<Rightarrow> 'k \<Rightarrow> 'v option"
    and set :: "'k \<Rightarrow> 'v \<Rightarrow> 'm \<Rightarrow> 'm"
    and erase :: "'k \<Rightarrow> 'm \<Rightarrow> 'm"
    and ok :: "'m \<Rightarrow> bool"
  assumes find_empty: "find empty = Map.empty"
    and find_set: "find (set k v m) = (find m)(k \<mapsto> v)"
    and find_erase: "find (erase k m) = (find m)(k := None)"
    and ok_empty: "ok empty"
    and ok_set: "ok m \<Longrightarrow> ok (set k v m)"
    and ok_erase: "ok m \<Longrightarrow> ok (erase k m)"
begin

lemma find_set_same: "find (set k v m) k = Some v"
  by (simp add: find_set)

lemma find_set_other: "k' \<noteq> k \<Longrightarrow> find (set k v m) k' = find m k'"
  by (simp add: find_set)

lemma dom_set: "dom (find (set k v m)) = insert k (dom (find m))"
  by (simp add: find_set)

lemma dom_erase: "dom (find (erase k m)) = dom (find m) - {k}"
  by (simp add: find_erase)

lemma find_erase_same: "find (erase k m) k = None"
  by (simp add: find_erase)

lemma find_erase_other: "k' \<noteq> k \<Longrightarrow> find (erase k m) k' = find m k'"
  by (simp add: find_erase)

end

lemma sm_find_set: "sm_find (sm_set k v m) = (sm_find m)(k \<mapsto> v)"
  by (induction m) (auto simp: sm_find_def fun_eq_iff)

lemma sm_find_erase: "sm_find (sm_erase k m) = (sm_find m)(k := None)"
  by (induction m) (auto simp: sm_find_def sm_erase_def fun_eq_iff)

lemma keys_sm_set: "fst ` List.set (sm_set k v m) = insert k (fst ` List.set m)"
proof (induction m)
  case (Cons p m)
  then show ?case by (cases p) (simp add: insert_commute)
qed simp

lemma sm_ok_set: "sm_ok m \<Longrightarrow> sm_ok (sm_set k v m)"
proof (induction m)
  case Nil
  then show ?case by (simp add: sm_ok_def)
next
  case (Cons p m)
  obtain k' v' where p: "p = (k', v')" by (cases p)
  from Cons.prems p have tail: "sm_ok m" and gt: "\<forall>x \<in> fst ` List.set m. k' < x"
    by (auto simp: sm_ok_def)
  show ?case
  proof (cases "k' < k")
    case True
    with gt have "\<forall>x \<in> fst ` List.set (sm_set k v m). k' < x"
      by (auto simp: keys_sm_set)
    with True Cons.IH [OF tail] p show ?thesis by (auto simp: sm_ok_def)
  next
    case False
    with Cons.prems p show ?thesis by (force simp: sm_ok_def)
  qed
qed

lemma sm_ok_erase: "sm_ok m \<Longrightarrow> sm_ok (sm_erase k m)"
  unfolding sm_ok_def sm_erase_def by (induction m) auto

interpretation sm: std_map "[]" sm_find sm_set sm_erase sm_ok
  by unfold_locales
    (auto simp: sm_find_set sm_find_erase sm_ok_set sm_ok_erase, auto simp: sm_find_def sm_ok_def)

lemmas sm_find_simps [simp, map_simps] =
  sm.find_set_same sm.find_set_other sm.find_erase_same sm.find_erase_other

lemma sm_find_Nil [simp, map_simps]: "sm_find [] k = None"
  by (simp add: sm_find_def)

lemma sm_find_Cons [simp, map_simps]:
  "sm_find ((k', v) # m) k = (if k = k' then Some v else sm_find m k)"
  by (simp add: sm_find_def)

lemma sm_find_SomeD: "sm_find m k = Some v \<Longrightarrow> (k, v) \<in> List.set m"
  by (simp add: sm_find_def map_of_SomeD)

lemma sm_ok_distinct: "sm_ok m \<Longrightarrow> distinct (map fst m)"
  by (simp add: sm_ok_def strict_sorted_iff)

lemma sm_find_iff_mem: "sm_ok m \<Longrightarrow> sm_find m k = Some v \<longleftrightarrow> (k, v) \<in> List.set m"
  by (simp add: sm_find_def sm_ok_distinct)

lemma dom_sm_find: "dom (sm_find m) = fst ` List.set m"
  by (simp add: sm_find_def [abs_def] dom_map_of_conv_image_fst)

lemma sm_set_set [simp, map_simps]: "sm_set k v (sm_set k d m) = sm_set k v m"
  by (induction m) auto

lemma sm_get_find: "fst (sm_get d k m) = (case sm_find m k of Some v \<Rightarrow> v | None \<Rightarrow> d)"
  by (simp add: sm_get_def split: option.splits)

lemma sm_set_get [simp, map_simps]: "sm_set k v (snd (sm_get d k m)) = sm_set k v m"
  by (simp add: sm_get_def split: option.splits)

text \<open>
  \<open>std::set<string>\<close> built from a list and read back in order.
\<close>

definition set_to_list :: "'a::linorder list \<Rightarrow> 'a list" where
  "set_to_list xs = remdups (sort xs)"

lemma set_set_to_list [simp]: "List.set (set_to_list xs) = List.set xs"
  by (simp add: set_to_list_def)

lemma distinct_set_to_list: "distinct (set_to_list xs)"
  by (simp add: set_to_list_def)

lemma sorted_set_to_list: "sorted (set_to_list xs)"
  by (simp add: set_to_list_def sorted_remdups)

end
