(* ===== verification/ErrorCode.thy ===== *)
theory ErrorCode
  imports Prelude
begin

text \<open>
  \<open>public/error_code\<close>: the return codes, their numbers, and \<open>errmsg\<close>; and
  \<open>public/include/payload_type.h\<close>, the message numbers of the protocol.
  \<open>ERROR_NET_CLIENT_BUSY\<close> has the number of \<open>ERROR_NET_CONNECTION_LIMIT\<close>, so the two
  names are one value of the enum.
\<close>

datatype retcode =
    ERROR_OK
  | ERROR_UNKNOWN
  | ERROR_CLIENT_ALREADY_EXISTS
  | ERROR_CLIENT_NOT_FOUND
  | ERROR_PACK_SEND_HEADER_LENGTH
  | ERROR_PACK_PROTO_SERIALIZE
  | ERROR_PACK_SEND_PAYLOAD
  | ERROR_PACK_RECV_HEADER_LENGTH
  | ERROR_PACK_PROTO_PARSE
  | ERROR_PACK_RECV_PAYLOAD
  | ERROR_DB_INIT
  | ERROR_DB_SELECT
  | ERROR_DB_INSERT
  | ERROR_DB_UPDATE
  | ERROR_DB_INIT_TABLE_ERROR
  | ERROR_NET_SEND_MESSAGE
  | ERROR_NET_SEND_DATA
  | ERROR_NET_RECV_MESSAGE
  | ERROR_NET_BIND_PORT
  | ERROR_NET_CONNECT
  | ERROR_NET_NOT_CONNECTED
  | ERROR_NET_GRACEFUL_SHUTDOWN
  | ERROR_NET_CONNECTION_LIMIT
  | ERROR_PROTO_PARSE_ERROR
  | ERROR_PROTO_TYPE_ERROR
  | ERROR_PROTO_SERIALIZE_ERROR
  | ERROR_VERIFY_INVALID_RANGE
  | ERROR_FILE_NOT_EXISTS
  | ERROR_FILE_EXISTS
  | ERROR_FILE_CANNOT_CREATE
  | ERROR_FILE_PARSE_ERROR
  | ERROR_FILE_NOT_FOUND
  | ERROR_FILE_NO_OWNER_ONLINE
  | ERROR_JOB_EXISTS
  | ERROR_JOB_NOT_EXISTS
  | ERROR_JOB_ALREADY_STARTED
  | ERROR_PEER_FILE_NOT_FOUND

abbreviation ERROR_NET_CLIENT_BUSY :: retcode where
  "ERROR_NET_CLIENT_BUSY \<equiv> ERROR_NET_CONNECTION_LIMIT"

fun retcode_value :: "retcode \<Rightarrow> int" where
  "retcode_value ERROR_OK = 0"
| "retcode_value ERROR_UNKNOWN = 1"
| "retcode_value ERROR_CLIENT_ALREADY_EXISTS = 2"
| "retcode_value ERROR_CLIENT_NOT_FOUND = 3"
| "retcode_value ERROR_PACK_SEND_HEADER_LENGTH = 10000"
| "retcode_value ERROR_PACK_PROTO_SERIALIZE = 10001"
| "retcode_value ERROR_PACK_SEND_PAYLOAD = 10002"
| "retcode_value ERROR_PACK_RECV_HEADER_LENGTH = 10010"
| "retcode_value ERROR_PACK_PROTO_PARSE = 10011"
| "retcode_value ERROR_PACK_RECV_PAYLOAD = 10012"
| "retcode_value ERROR_DB_INIT = 20000"
| "retcode_value ERROR_DB_SELECT = 20001"
| "retcode_value ERROR_DB_INSERT = 20002"
| "retcode_value ERROR_DB_UPDATE = 20003"
| "retcode_value ERROR_DB_INIT_TABLE_ERROR = 20010"
| "retcode_value ERROR_NET_SEND_MESSAGE = 30000"
| "retcode_value ERROR_NET_SEND_DATA = 30001"
| "retcode_value ERROR_NET_RECV_MESSAGE = 30002"
| "retcode_value ERROR_NET_BIND_PORT = 30003"
| "retcode_value ERROR_NET_CONNECT = 30004"
| "retcode_value ERROR_NET_NOT_CONNECTED = 30005"
| "retcode_value ERROR_NET_GRACEFUL_SHUTDOWN = 30006"
| "retcode_value ERROR_NET_CONNECTION_LIMIT = 30007"
| "retcode_value ERROR_PROTO_PARSE_ERROR = 40001"
| "retcode_value ERROR_PROTO_TYPE_ERROR = 40002"
| "retcode_value ERROR_PROTO_SERIALIZE_ERROR = 40003"
| "retcode_value ERROR_VERIFY_INVALID_RANGE = 50001"
| "retcode_value ERROR_FILE_NOT_EXISTS = 60001"
| "retcode_value ERROR_FILE_EXISTS = 60002"
| "retcode_value ERROR_FILE_CANNOT_CREATE = 60003"
| "retcode_value ERROR_FILE_PARSE_ERROR = 60004"
| "retcode_value ERROR_FILE_NOT_FOUND = 60005"
| "retcode_value ERROR_FILE_NO_OWNER_ONLINE = 60006"
| "retcode_value ERROR_JOB_EXISTS = 70001"
| "retcode_value ERROR_JOB_NOT_EXISTS = 70002"
| "retcode_value ERROR_JOB_ALREADY_STARTED = 70003"
| "retcode_value ERROR_PEER_FILE_NOT_FOUND = 80001"

fun errmsg :: "retcode \<Rightarrow> string" where
  "errmsg ERROR_OK = ''Everything is OK.''"
| "errmsg ERROR_UNKNOWN = ''Unknown Error!''"
| "errmsg ERROR_PACK_SEND_HEADER_LENGTH = ''Error while send netpack header.''"
| "errmsg _ = ''Unknown retcode_t value.''"

text \<open>The enum is ordered by its numbers, as C++ compares enumerators.\<close>

lemma retcode_value_inject: "retcode_value a = retcode_value b \<Longrightarrow> a = b"
  by (cases a; cases b; simp only: retcode_value.simps retcode.simps; simp)

instantiation retcode :: linorder
begin

definition less_eq_retcode :: "retcode \<Rightarrow> retcode \<Rightarrow> bool" where
  "less_eq_retcode a b = (retcode_value a \<le> retcode_value b)"

definition less_retcode :: "retcode \<Rightarrow> retcode \<Rightarrow> bool" where
  "less_retcode a b = (retcode_value a < retcode_value b)"

instance
  by standard (auto simp: less_eq_retcode_def less_retcode_def retcode_value_inject)

end

lemma retcode_value_zero [simp]: "retcode_value r = 0 \<longleftrightarrow> r = ERROR_OK"
  using retcode_value_inject [of r ERROR_OK] by auto

section \<open>Payload numbers\<close>

definition PAYLOAD_LOGIN :: int where "PAYLOAD_LOGIN = 10000"
definition PAYLOAD_LOGOUT :: int where "PAYLOAD_LOGOUT = 10001"
definition PAYLOAD_REQUEST_PEER :: int where "PAYLOAD_REQUEST_PEER = 10002"
definition PAYLOAD_REPORT_PROGRESS :: int where "PAYLOAD_REPORT_PROGRESS = 10003"
definition PAYLOAD_PUBLISH_RESOURCE :: int where "PAYLOAD_PUBLISH_RESOURCE = 10004"
definition PAYLOAD_MESSAGE_REPLY :: int where "PAYLOAD_MESSAGE_REPLY = 20001"
definition PAYLOAD_REQUEST_PEER_REPLAY :: int where "PAYLOAD_REQUEST_PEER_REPLAY = 20002"
definition PAYLOAD_SHAKE_HAND :: int where "PAYLOAD_SHAKE_HAND = 30001"
definition PAYLOAD_UPLOAD_REQUEST :: int where "PAYLOAD_UPLOAD_REQUEST = 30002"
definition PAYLOAD_UPLOAD_REPLY :: int where "PAYLOAD_UPLOAD_REPLY = 40001"

lemmas payload_defs =
  PAYLOAD_LOGIN_def PAYLOAD_LOGOUT_def PAYLOAD_REQUEST_PEER_def PAYLOAD_REPORT_PROGRESS_def
  PAYLOAD_PUBLISH_RESOURCE_def PAYLOAD_MESSAGE_REPLY_def PAYLOAD_REQUEST_PEER_REPLAY_def
  PAYLOAD_SHAKE_HAND_def PAYLOAD_UPLOAD_REQUEST_def PAYLOAD_UPLOAD_REPLY_def

end
