(* ===== verification/Bitset.thy ===== *)
theory Bitset
  imports Prelude
begin

unbundle bit_operations_syntax

text \<open>
  The file bitmap \<open>boost::dynamic_bitset<uint64_t>\<close> (\<open>file_bitmap_t\<close> of
  \<open>client/include/job_info.h\<close>) as the list of its bits, lowest position first, with the
  operations the client uses: \<open>test\<close> and assignment (undefined out of range), \<open>count\<close>,
  \<open>size\<close>, \<open>set()\<close>, \<open>resize\<close>, \<open>to_block_range\<close> and the constructor from blocks.
\<close>

type_synonym bitset = "bool list"

definition bs_new :: "nat \<Rightarrow> bitset" where
  "bs_new n = replicate n False"

definition bs_test :: "bitset \<Rightarrow> int \<Rightarrow> bool outcome" where
  "bs_test b i = (if 0 \<le> i \<and> i < int (length b) then Ret (b ! nat i) else Throw Undefined)"

definition bs_assign :: "bitset \<Rightarrow> int \<Rightarrow> bool \<Rightarrow> bitset outcome" where
  "bs_assign b i v =
     (if 0 \<le> i \<and> i < int (length b) then Ret (b[nat i := v]) else Throw Undefined)"

definition bs_count :: "bitset \<Rightarrow> nat" where
  "bs_count b = length (filter id b)"

definition bs_set_all :: "bitset \<Rightarrow> bitset" where
  "bs_set_all b = map (\<lambda>_. True) b"

definition bs_resize :: "nat \<Rightarrow> bitset \<Rightarrow> bitset" where
  "bs_resize n b = take n b @ replicate (n - length b) False"

fun bs_to_blocks :: "bitset \<Rightarrow> u64 list" where
  "bs_to_blocks [] = []"
| "bs_to_blocks (x # b) =
     horner_sum of_bool 2 (take 64 (x # b)) # bs_to_blocks (drop 64 (x # b))"

definition word_bits :: "u64 \<Rightarrow> bitset" where
  "word_bits w = map (bit w) [0..<64]"

definition bs_of_blocks :: "u64 list \<Rightarrow> bitset" where
  "bs_of_blocks ws = concat (map word_bits ws)"

lemma bs_count_le: "bs_count b \<le> length b"
  by (simp add: bs_count_def)

lemma bs_count_full: "bs_count b = length b \<longleftrightarrow> (\<forall>x \<in> set b. x)"
  unfolding bs_count_def by (metis filter_id_conv id_apply length_filter_less nat_neq_iff)

lemma bs_set_all_count [simp]: "bs_count (bs_set_all b) = length b"
  by (simp add: bs_count_def bs_set_all_def)

lemma length_bs_set_all [simp]: "length (bs_set_all b) = length b"
  by (simp add: bs_set_all_def)

lemma length_bs_new [simp]: "length (bs_new n) = n"
  by (simp add: bs_new_def)

lemma length_bs_resize [simp]: "length (bs_resize n b) = n"
  by (simp add: bs_resize_def)

lemma bs_test_Ret: "bs_test b i = Ret v \<longleftrightarrow> 0 \<le> i \<and> i < int (length b) \<and> v = b ! nat i"
  by (auto simp: bs_test_def)

lemma bs_test_new: "bs_test (bs_new n) i = (if 0 \<le> i \<and> i < int n then Ret False else Throw Undefined)"
  by (auto simp: bs_test_def bs_new_def)

lemma bs_assign_test:
  "bs_assign b i v = Ret b' \<Longrightarrow> bs_test b' j = (if j = i then Ret v else bs_test b j)"
  by (auto simp: bs_assign_def bs_test_def nth_list_update split: if_splits)

lemma length_word_bits [simp]: "length (word_bits w) = 64"
  by (simp add: word_bits_def)

lemma nth_word_bits [simp]: "i < 64 \<Longrightarrow> word_bits w ! i = bit w i"
  by (simp add: word_bits_def)

lemma length_bs_of_blocks [simp]: "length (bs_of_blocks ws) = 64 * length ws"
  by (induction ws) (auto simp: bs_of_blocks_def)

lemma length_bs_to_blocks: "length (bs_to_blocks b) = (length b + 63) div 64"
proof (induction b rule: bs_to_blocks.induct)
  case (2 x b)
  have "(Suc (length b) + 63) div 64 = Suc ((length b - 63 + 63) div 64)"
    by (cases "length b \<le> 63") (auto simp: div_add_self2 [symmetric])
  with 2 show ?case by simp
qed simp

text \<open>One block keeps the bits it was built from; its unused high bits are clear.\<close>

lemma word_bits_horner:
  assumes "length b \<le> 64"
  shows "word_bits (horner_sum of_bool 2 b) = b @ replicate (64 - length b) False"
  by (rule nth_equalityI)
    (use assms in \<open>auto simp: bit_horner_sum_bit_word_iff nth_append\<close>)

lemma bs_blocks_padded:
  "bs_of_blocks (bs_to_blocks b) = b @ replicate (64 * length (bs_to_blocks b) - length b) False"
proof (induction b rule: bs_to_blocks.induct)
  case 1
  then show ?case by (simp add: bs_of_blocks_def)
next
  case (2 x b)
  let ?l = "x # b"
  have step: "bs_of_blocks (bs_to_blocks ?l) =
      word_bits (horner_sum of_bool 2 (take 64 ?l)) @ bs_of_blocks (bs_to_blocks (drop 64 ?l))"
    by (simp add: bs_of_blocks_def)
  show ?case
  proof (cases "length ?l \<le> 64")
    case True
    then have rest: "drop 64 ?l = []" and all: "take 64 ?l = ?l" by simp_all
    show ?thesis
      unfolding step rest all word_bits_horner [OF True]
      by (simp add: bs_of_blocks_def length_bs_to_blocks) (use True in simp)
  next
    case False
    define t where "t = take 64 ?l"
    define d where "d = drop 64 ?l"
    have len: "length t = 64" and l: "?l = t @ d"
      using False by (simp_all add: t_def d_def del: take_Suc_Cons drop_Suc_Cons)
    have blocks: "bs_to_blocks ?l = horner_sum of_bool 2 t # bs_to_blocks d"
      by (simp add: t_def d_def)
    have "word_bits (horner_sum of_bool 2 t) = t"
      using len by (simp add: word_bits_horner)
    moreover have "bs_of_blocks (bs_to_blocks d) =
        d @ replicate (64 * length (bs_to_blocks d) - length d) False"
      using 2 by (simp only: d_def)
    ultimately show ?thesis
      unfolding blocks unfolding l by (simp add: bs_of_blocks_def len)
  qed
qed

lemma bs_blocks_roundtrip: "bs_resize (length b) (bs_of_blocks (bs_to_blocks b)) = b"
proof -
  have "length b \<le> 64 * length (bs_to_blocks b)"
    by (simp add: length_bs_to_blocks)
  then show ?thesis
    by (simp add: bs_resize_def bs_blocks_padded)
qed

end
