(* ===== verification/Messages.thy ===== *)
theory Messages
  imports ErrorCode Bitset
begin

text \<open>
  The protocol messages of \<open>proto/*.proto\<close> as records, one constructor of \<open>message\<close> per
  message type sent in a packet.  A field the code may leave unset is an option; an unset
  field reads as its default.  Coding and decoding is protobuf's: the record \<open>protobuf\<close>
  holds its functions as a parameter of everything that sends or receives.
\<close>

section \<open>ClientProto\<close>

record client_file_info =
  fi_fileid :: "string option"
  fi_hasfile :: "int option"
  fi_percentage :: "int option"
  fi_filebit :: "u64 list"
  fi_filebitcount :: "int option"

definition empty_file_info :: client_file_info where
  "empty_file_info = \<lparr>fi_fileid = None, fi_hasfile = None, fi_percentage = None, fi_filebit = [],
     fi_filebitcount = None\<rparr>"

record shake_hand_msg =
  sh_clientid :: "string option"
  sh_info :: "client_file_info option"

definition empty_shake_hand :: shake_hand_msg where
  "empty_shake_hand = \<lparr>sh_clientid = None, sh_info = None\<rparr>"

record upload_request =
  ur_clientid :: string
  ur_fileid :: string
  ur_chunknumber :: int

record upload_reply =
  up_returncode :: "int option"

section \<open>TrackerProto\<close>

record peer =
  pe_clientid :: string
  pe_ip :: string
  pe_messageport :: int

record peer_file_info =
  pf_client :: peer
  pf_percentage :: int

record query_peer =
  qp_fileid :: string
  qp_percentage :: int
  qp_needcount :: "int option"
  qp_ownedclients :: "string list"

record query_peer_reply =
  qr_returncode :: "int option"
  qr_fileid :: "string option"
  qr_count :: "int option"
  qr_info :: "peer_file_info list"

definition empty_query_peer_reply :: query_peer_reply where
  "empty_query_peer_reply = \<lparr>qr_returncode = None, qr_fileid = None, qr_count = None, qr_info = []\<rparr>"

record login_msg =
  lg_clientid :: string
  lg_loginip :: "string option"
  lg_messageport :: "int option"

record logout_msg =
  lo_clientid :: string

record report_progress_msg =
  rp_clientid :: string
  rp_fileid :: string
  rp_percentage :: int

record publish_resource_msg =
  pr_clientid :: string
  pr_fileid :: string

record message_reply =
  mr_returncode :: "int option"

text \<open>Declared defaults: \<open>QueryPeer.NeedCount\<close> 20 and \<open>Login.MessagePort\<close> 9025.\<close>

definition needcount :: "query_peer \<Rightarrow> int" where
  "needcount q = (case qp_needcount q of Some n \<Rightarrow> n | None \<Rightarrow> 20)"

definition messageport :: "login_msg \<Rightarrow> int" where
  "messageport l = (case lg_messageport l of Some p \<Rightarrow> p | None \<Rightarrow> 9025)"

definition int_field :: "int option \<Rightarrow> int" where
  "int_field x = (case x of Some v \<Rightarrow> v | None \<Rightarrow> 0)"

definition string_field :: "string option \<Rightarrow> string" where
  "string_field x = (case x of Some v \<Rightarrow> v | None \<Rightarrow> [])"

definition info_field :: "shake_hand_msg \<Rightarrow> client_file_info" where
  "info_field m = (case sh_info m of Some i \<Rightarrow> i | None \<Rightarrow> empty_file_info)"

lemma field_simps [simp]:
  "int_field None = 0" "int_field (Some i) = i"
  "string_field None = []" "string_field (Some s) = s"
  by (simp_all add: int_field_def string_field_def)

section \<open>Messages of a packet\<close>

datatype message =
    ShakeHandMsg shake_hand_msg
  | UploadRequestMsg upload_request
  | UploadReplyMsg upload_reply
  | QueryPeerMsg query_peer
  | QueryPeerReplyMsg query_peer_reply
  | LoginMsg login_msg
  | LogoutMsg logout_msg
  | ReportProgressMsg report_progress_msg
  | PublishResourceMsg publish_resource_msg
  | MessageReplyMsg message_reply

fun full_name :: "message \<Rightarrow> string" where
  "full_name (ShakeHandMsg _) = ''ClientProto.ShakeHand''"
| "full_name (UploadRequestMsg _) = ''ClientProto.UploadRequest''"
| "full_name (UploadReplyMsg _) = ''ClientProto.UploadReply''"
| "full_name (QueryPeerMsg _) = ''TrackerProto.QueryPeer''"
| "full_name (QueryPeerReplyMsg _) = ''TrackerProto.QueryPeerReply''"
| "full_name (LoginMsg _) = ''TrackerProto.Login''"
| "full_name (LogoutMsg _) = ''TrackerProto.Logout''"
| "full_name (ReportProgressMsg _) = ''TrackerProto.ReportProgress''"
| "full_name (PublishResourceMsg _) = ''TrackerProto.PublishResource''"
| "full_name (MessageReplyMsg _) = ''TrackerProto.MessageReply''"

text \<open>\<open>SharedPtr<Message>::cast<T>()\<close>: the message when it has the wanted type, else null.\<close>

fun cast_shake_hand :: "message option \<Rightarrow> shake_hand_msg option" where
  "cast_shake_hand (Some (ShakeHandMsg m)) = Some m" | "cast_shake_hand _ = None"

fun cast_upload_request :: "message option \<Rightarrow> upload_request option" where
  "cast_upload_request (Some (UploadRequestMsg m)) = Some m" | "cast_upload_request _ = None"

fun cast_upload_reply :: "message option \<Rightarrow> upload_reply option" where
  "cast_upload_reply (Some (UploadReplyMsg m)) = Some m" | "cast_upload_reply _ = None"

fun cast_query_peer :: "message option \<Rightarrow> query_peer option" where
  "cast_query_peer (Some (QueryPeerMsg m)) = Some m" | "cast_query_peer _ = None"

fun cast_query_peer_reply :: "message option \<Rightarrow> query_peer_reply option" where
  "cast_query_peer_reply (Some (QueryPeerReplyMsg m)) = Some m" | "cast_query_peer_reply _ = None"

fun cast_login :: "message option \<Rightarrow> login_msg option" where
  "cast_login (Some (LoginMsg m)) = Some m" | "cast_login _ = None"

fun cast_logout :: "message option \<Rightarrow> logout_msg option" where
  "cast_logout (Some (LogoutMsg m)) = Some m" | "cast_logout _ = None"

fun cast_report_progress :: "message option \<Rightarrow> report_progress_msg option" where
  "cast_report_progress (Some (ReportProgressMsg m)) = Some m" | "cast_report_progress _ = None"

fun cast_publish_resource :: "message option \<Rightarrow> publish_resource_msg option" where
  "cast_publish_resource (Some (PublishResourceMsg m)) = Some m" | "cast_publish_resource _ = None"

fun cast_message_reply :: "message option \<Rightarrow> message_reply option" where
  "cast_message_reply (Some (MessageReplyMsg m)) = Some m" | "cast_message_reply _ = None"

section \<open>The packet header and the coding functions\<close>

text \<open>\<open>NetPackHeader\<close>: all fields optional; \<open>Clear\<close> unsets them.\<close>

record netpack_header =
  h_payloadtype :: "int option"
  h_payloadlength :: "int option"
  h_messagename :: "string option"

definition empty_header :: netpack_header where
  "empty_header = \<lparr>h_payloadtype = None, h_payloadlength = None, h_messagename = None\<rparr>"

text \<open>
  Protobuf, as far as the sources call it: \<open>SerializeToString\<close> of a message or a header
  (success and the bytes appended), \<open>ByteSize\<close>, \<open>ParseFromString\<close> into a header (success and
  the header left), and lookup by name with \<open>ParseFromString\<close> for a message.
\<close>

record protobuf =
  pb_ser :: "message \<Rightarrow> bool \<times> byte list"
  pb_ser_header :: "netpack_header \<Rightarrow> bool \<times> byte list"
  pb_header_size :: "netpack_header \<Rightarrow> int"
  pb_parse_header :: "byte list \<Rightarrow> bool \<times> netpack_header"
  pb_parse :: "string \<Rightarrow> byte list \<Rightarrow> message option"

text \<open>
  A concrete coding, for the theorems that show a hypothesis on protobuf can hold: messages
  are numbered by their place in a list, header fields are written one after another with a
  presence byte, integers in four bytes.
\<close>

definition int_bytes :: "int \<Rightarrow> byte list" where
  "int_bytes v = map (\<lambda>i. word_of_int (v div 256 ^ i)) [0, 1, 2, 3]"

definition bytes_int :: "byte list \<Rightarrow> int" where
  "bytes_int bs = foldr (\<lambda>b acc. uint b + 256 * acc) bs 0"

definition sample_header_bytes :: "netpack_header \<Rightarrow> byte list" where
  "sample_header_bytes h =
     (case h_payloadtype h of None \<Rightarrow> [0] | Some v \<Rightarrow> 1 # int_bytes v)
       @ (case h_payloadlength h of None \<Rightarrow> [0] | Some v \<Rightarrow> 1 # int_bytes v)
       @ (case h_messagename h of None \<Rightarrow> [0] | Some s \<Rightarrow> 1 # map of_char s)"

definition sample_int_field :: "byte list \<Rightarrow> int option \<times> byte list" where
  "sample_int_field bs =
     (case bs of [] \<Rightarrow> (None, [])
      | x # r \<Rightarrow> if x = 0 then (None, r) else (Some (bytes_int (take 4 r)), drop 4 r))"

definition sample_parse_header :: "byte list \<Rightarrow> bool \<times> netpack_header" where
  "sample_parse_header bs =
     (let (t, r1) = sample_int_field bs; (l, r2) = sample_int_field r1
      in (r2 \<noteq> [], \<lparr>h_payloadtype = t, h_payloadlength = l,
            h_messagename = (case r2 of [] \<Rightarrow> None
              | x # r \<Rightarrow> if x = 0 then None else Some (map (\<lambda>b. char_of (unat b)) r))\<rparr>))"

definition sample_pb :: "message list \<Rightarrow> protobuf" where
  "sample_pb ms =
     \<lparr>pb_ser = (\<lambda>m. (True, [word_of_nat (length (takeWhile (\<lambda>x. x \<noteq> m) ms))])),
      pb_ser_header = (\<lambda>h. (True, if h = empty_header then [] else sample_header_bytes h)),
      pb_header_size = (\<lambda>h. int (length (if h = empty_header then [] else sample_header_bytes h))),
      pb_parse_header = sample_parse_header,
      pb_parse = (\<lambda>name bs. case bs of
          [b] \<Rightarrow> if unat b < length ms \<and> full_name (ms ! unat b) = name
                 then Some (ms ! unat b) else None
        | _ \<Rightarrow> None)\<rparr>"

lemmas sample_defs =
  sample_pb_def sample_header_bytes_def sample_parse_header_def sample_int_field_def
  int_bytes_def bytes_int_def empty_header_def char_of_def bit_0

end
