(* ===== verification/SocketIO.thy ===== *)
theory SocketIO
  imports Messages
begin

text \<open>
  A connected TCP socket (\<open>Poco::Net::StreamSocket\<close>) as the sources use it: the bytes the
  peer has sent and that are not yet read, the bytes written so far, and what the network does
  with the next calls.  A receive event \<open>Io k\<close> says that \<open>k\<close> bytes have arrived (a call
  blocks until at least one has), \<open>IoFail\<close> that the call throws.  With no event left every
  call is served in full.  Reading past the last byte returns nothing: the peer has closed.
\<close>

datatype io = Io nat | IoFail

record sock =
  rx :: "byte list"
  rx_ev :: "io list"
  tx :: "byte list"
  tx_ev :: "io list"

definition receiveBytes :: "int \<Rightarrow> sock \<Rightarrow> (byte list, sock) result" where
  "receiveBytes n s =
     (case rx_ev s of
        [] \<Rightarrow> (Ret (take (nat n) (rx s)), s\<lparr>rx := drop (nat n) (rx s)\<rparr>)
      | Io k # ev \<Rightarrow>
          let m = min (nat n) (max 1 k)
          in (Ret (take m (rx s)), s\<lparr>rx := drop m (rx s), rx_ev := ev\<rparr>)
      | IoFail # ev \<Rightarrow> (Throw NetException, s\<lparr>rx_ev := ev\<rparr>))"

definition sendBytes :: "byte list \<Rightarrow> sock \<Rightarrow> (int, sock) result" where
  "sendBytes bs s =
     (case tx_ev s of
        [] \<Rightarrow> (Ret (int (length bs)), s\<lparr>tx := tx s @ bs\<rparr>)
      | Io k # ev \<Rightarrow>
          (Ret (int (length (take k bs))), s\<lparr>tx := tx s @ take k bs, tx_ev := ev\<rparr>)
      | IoFail # ev \<Rightarrow> (Throw NetException, s\<lparr>tx_ev := ev\<rparr>))"

lemma receiveBytes_Ret:
  "receiveBytes n s = (Ret bs, t) \<Longrightarrow> bs @ rx t = rx s \<and> length bs \<le> nat n \<and> tx t = tx s"
  by (auto simp: receiveBytes_def Let_def split: list.splits io.splits)

lemma receiveBytes_empty:
  "receiveBytes n s = (Ret [], t) \<Longrightarrow> 0 < n \<Longrightarrow> rx s = []"
  by (auto simp: receiveBytes_def Let_def min_def split: list.splits io.splits if_splits)

lemma receiveBytes_exact:
  "rx_ev s = [] \<Longrightarrow> nat n = length bs \<Longrightarrow> rx s = bs @ r \<Longrightarrow>
     receiveBytes n s = (Ret bs, s\<lparr>rx := r\<rparr>)"
  by (simp add: receiveBytes_def)

lemma sendBytes_all:
  "tx_ev s = [] \<Longrightarrow> sendBytes bs s = (Ret (int (length bs)), s\<lparr>tx := tx s @ bs\<rparr>)"
  by (simp add: sendBytes_def)

lemma sendBytes_prefix:
  "sendBytes bs s = (Ret n, t) \<Longrightarrow>
     0 \<le> n \<and> n \<le> int (length bs) \<and> tx t = tx s @ take (nat n) bs \<and> rx t = rx s \<and> rx_ev t = rx_ev s"
  by (auto simp: sendBytes_def min_def split: list.splits io.splits)

text \<open>Network byte order of a 32-bit integer (\<open>Poco::ByteOrder\<close>).\<close>

definition to_network :: "32 word \<Rightarrow> byte list" where
  "to_network w = map (\<lambda>i. ucast (drop_bit i w)) [24, 16, 8, 0]"

definition from_network :: "byte list \<Rightarrow> 32 word" where
  "from_network bs = fold (\<lambda>b w. push_bit 8 w OR ucast b) bs 0"

lemma length_to_network [simp]: "length (to_network w) = 4"
  by (simp add: to_network_def)

lemma from_to_network [simp]: "from_network (to_network w) = w"
proof (rule bit_word_eqI)
  fix n
  assume n: "n < LENGTH(32)"
  then consider "n < 8" | "8 \<le> n" "n < 16" | "16 \<le> n" "n < 24" | "24 \<le> n" "n < 32"
    by fastforce
  then show "bit (from_network (to_network w)) n \<longleftrightarrow> bit w n"
    by cases (use n in \<open>auto simp: from_network_def to_network_def bit_simps\<close>)
qed

end
