(* ===== verification/Doubles.thy ===== *)
theory Doubles
  imports Complex_Main "HOL-Library.Log_Nat"
begin

text \<open>
  C++ \<open>double\<close> for the non-negative quotients and products the sources compute: a value is a
  rational, and the result of an operation is the exact result rounded to 53 significant bits,
  ties to even, with the smallest positive value \<open>2 ^ -min_exp\<close> (IEEE 754 binary64 without
  overflow).  Conversion to an integer type truncates.
\<close>

definition round_half_even :: "rat \<Rightarrow> int" where
  "round_half_even x =
     (let f = \<lfloor>x\<rfloor>; d = x - of_int f
      in if d < 1 / 2 then f else if 1 / 2 < d then f + 1 else if even f then f else f + 1)"

definition min_exp :: nat where
  "min_exp = 1074"

definition fl :: "rat \<Rightarrow> rat" where
  "fl x =
     (let X = x * 2 ^ min_exp; s = floorlog 2 (nat \<lfloor>X\<rfloor>) - 53
      in of_int (round_half_even (X / 2 ^ s)) * 2 ^ s / 2 ^ min_exp)"

definition double_to_int :: "rat \<Rightarrow> int" where
  "double_to_int x = \<lfloor>x\<rfloor>"

definition representable :: "rat \<Rightarrow> bool" where
  "representable y \<longleftrightarrow> (\<exists>m k. 0 \<le> m \<and> m \<le> 2 ^ 53 \<and> y = of_int m * 2 ^ k / 2 ^ min_exp)"

lemma round_half_even_le: "x \<le> of_int n \<Longrightarrow> round_half_even x \<le> n"
proof -
  assume le: "x \<le> of_int n"
  show ?thesis
  proof (cases "x = of_int n")
    case True
    then show ?thesis by (simp add: round_half_even_def)
  next
    case False
    with le have "\<lfloor>x\<rfloor> < n" by (simp add: floor_less_iff)
    then show ?thesis by (auto simp: round_half_even_def Let_def)
  qed
qed

lemma round_half_even_ge: "of_int n \<le> x \<Longrightarrow> n \<le> round_half_even x"
  by (auto simp: round_half_even_def Let_def le_floor_iff) (simp_all add: le_floor_iff [symmetric])

lemma scale_bounds:
  fixes X :: rat
  assumes "0 \<le> X" and "s = floorlog 2 (nat \<lfloor>X\<rfloor>) - 53" and "0 < s"
  shows "2 ^ (52 + s) \<le> X"
proof -
  let ?n = "nat \<lfloor>X\<rfloor>"
  have pos: "0 < ?n" using assms(2,3) by (cases "?n = 0") (simp_all add: floorlog_def)
  have "2 ^ (floorlog 2 ?n - 1) \<le> ?n"
    using floorlog_bounds [of ?n 2] pos by simp
  moreover have "floorlog 2 ?n - 1 = 52 + s" using assms(2,3) by simp
  ultimately have "2 ^ (52 + s) \<le> ?n" by simp
  then have "(2 ^ (52 + s) :: int) \<le> \<lfloor>X\<rfloor>"
    by (metis nat_le_iff of_nat_numeral of_nat_power le_nat_iff pos zero_less_nat_eq less_imp_le)
  then show ?thesis by (simp add: le_floor_iff)
qed

lemma fl_le:
  assumes "0 \<le> x" and "x \<le> y" and "representable y"
  shows "fl x \<le> y"
proof -
  obtain m k where y: "m \<le> 2 ^ 53" "y = of_int m * 2 ^ k / 2 ^ min_exp"
    using assms(3) by (auto simp: representable_def)
  define X where "X = x * 2 ^ min_exp"
  define s where "s = floorlog 2 (nat \<lfloor>X\<rfloor>) - 53"
  have X0: "0 \<le> X" using assms(1) by (simp add: X_def)
  have Xy: "X \<le> of_int m * 2 ^ k" using assms(2) y(2) by (simp add: X_def field_simps)
  have "of_int (round_half_even (X / 2 ^ s)) * 2 ^ s \<le> (of_int m * 2 ^ k :: rat)"
  proof (cases "s \<le> k")
    case True
    then have k: "(2 :: rat) ^ k = 2 ^ (k - s) * 2 ^ s" by (simp flip: power_add)
    have "X / 2 ^ s \<le> of_int (m * 2 ^ (k - s))"
      using Xy unfolding k by (simp add: field_simps)
    then have "round_half_even (X / 2 ^ s) \<le> m * 2 ^ (k - s)" by (rule round_half_even_le)
    then have "(of_int (round_half_even (X / 2 ^ s)) :: rat) \<le> of_int (m * 2 ^ (k - s))"
      by (simp only: of_int_le_iff)
    then show ?thesis unfolding k by (simp add: field_simps)
  next
    case False
    have "(of_int m :: rat) \<le> of_int (2 ^ 53)" using y(1) by (simp only: of_int_le_iff)
    then have "of_int m * 2 ^ k \<le> (2 ^ 53 * 2 ^ k :: rat)" by simp
    also have "\<dots> = 2 ^ (53 + k)" by (simp only: power_add)
    also have "\<dots> \<le> 2 ^ (52 + s)" using False by (intro power_increasing) simp_all
    finally have up: "of_int m * 2 ^ k \<le> (2 ^ (52 + s) :: rat)" .
    have "2 ^ (52 + s) \<le> X" using scale_bounds [OF X0 s_def] False by simp
    with up Xy have eq: "X = 2 ^ (52 + s)" "of_int m * 2 ^ k = (2 ^ (52 + s) :: rat)" by auto
    have "X / 2 ^ s = of_int (2 ^ 52)" by (simp add: eq(1) power_add)
    then have "round_half_even (X / 2 ^ s) \<le> 2 ^ 52" by (intro round_half_even_le) simp
    then have "(of_int (round_half_even (X / 2 ^ s)) :: rat) \<le> of_int (2 ^ 52)"
      by (simp only: of_int_le_iff)
    then show ?thesis unfolding eq(2) by (simp add: power_add)
  qed
  then show ?thesis
    unfolding fl_def Let_def X_def [symmetric] s_def [symmetric] y(2) by (simp add: divide_right_mono)
qed

lemma fl_ge:
  assumes "0 \<le> y" and "y \<le> x" and "representable y"
  shows "y \<le> fl x"
proof -
  obtain m k where y: "m \<le> 2 ^ 53" "y = of_int m * 2 ^ k / 2 ^ min_exp"
    using assms(3) by (auto simp: representable_def)
  define X where "X = x * 2 ^ min_exp"
  define s where "s = floorlog 2 (nat \<lfloor>X\<rfloor>) - 53"
  have X0: "0 \<le> X" using assms(1,2) by (simp add: X_def)
  have yX: "of_int m * 2 ^ k \<le> X" using assms(2) y(2) by (simp add: X_def field_simps)
  have "(of_int m * 2 ^ k :: rat) \<le> of_int (round_half_even (X / 2 ^ s)) * 2 ^ s"
  proof (cases "s \<le> k")
    case True
    then have k: "(2 :: rat) ^ k = 2 ^ (k - s) * 2 ^ s" by (simp flip: power_add)
    have "of_int (m * 2 ^ (k - s)) \<le> X / 2 ^ s"
      using yX unfolding k by (simp add: field_simps)
    then have "m * 2 ^ (k - s) \<le> round_half_even (X / 2 ^ s)" by (rule round_half_even_ge)
    then have "(of_int (m * 2 ^ (k - s)) :: rat) \<le> of_int (round_half_even (X / 2 ^ s))"
      by (simp only: of_int_le_iff)
    then show ?thesis unfolding k by (simp add: field_simps)
  next
    case False
    have "(of_int m :: rat) \<le> of_int (2 ^ 53)" using y(1) by (simp only: of_int_le_iff)
    then have "of_int m * 2 ^ k \<le> (2 ^ 53 * 2 ^ k :: rat)" by simp
    also have "\<dots> = 2 ^ (53 + k)" by (simp only: power_add)
    also have "\<dots> \<le> 2 ^ (52 + s)" using False by (intro power_increasing) simp_all
    finally have up: "of_int m * 2 ^ k \<le> (2 ^ (52 + s) :: rat)" .
    have "2 ^ (52 + s) \<le> X" using scale_bounds [OF X0 s_def] False by simp
    then have "of_int (2 ^ 52) \<le> X / 2 ^ s" by (simp add: field_simps power_add)
    then have "2 ^ 52 \<le> round_half_even (X / 2 ^ s)" by (intro round_half_even_ge) simp
    then have "(of_int (2 ^ 52) :: rat) \<le> of_int (round_half_even (X / 2 ^ s))"
      by (simp only: of_int_le_iff)
    then have "(2 ^ (52 + s) :: rat) \<le> of_int (round_half_even (X / 2 ^ s)) * 2 ^ s"
      by (simp add: power_add)
    with up show ?thesis by simp
  qed
  then show ?thesis
    unfolding fl_def Let_def X_def [symmetric] s_def [symmetric] y(2) by (simp add: divide_right_mono)
qed

lemma fl_representable: "0 \<le> y \<Longrightarrow> representable y \<Longrightarrow> fl y = y"
  using fl_le [of y y] fl_ge [of y y] by simp

text \<open>Integers up to \<open>2 ^ 53\<close> over a power of two are represented exactly.\<close>

lemma representable_dyadic:
  assumes "0 \<le> m" and "m \<le> 2 ^ 53" and "j \<le> min_exp"
  shows "representable (of_int m / 2 ^ j)"
proof -
  have "(2 :: rat) ^ min_exp = 2 ^ (min_exp - j) * 2 ^ j"
    using assms(3) by (simp flip: power_add)
  then have "of_int m / 2 ^ j = (of_int m * 2 ^ (min_exp - j) / 2 ^ min_exp :: rat)" by simp
  with assms(1,2) show ?thesis unfolding representable_def by blast
qed

lemma representable_of_int: "0 \<le> m \<Longrightarrow> m \<le> 2 ^ 53 \<Longrightarrow> representable (of_int m)"
  using representable_dyadic [of m 0] by simp

lemma fl_nonneg: "0 \<le> x \<Longrightarrow> 0 \<le> fl x"
  using fl_ge [of 0 x] representable_of_int [of 0] by simp

text \<open>Rounding keeps the order.\<close>

lemma scale_upper:
  fixes X :: rat
  assumes "s = floorlog 2 (nat \<lfloor>X\<rfloor>) - 53"
  shows "nat \<lfloor>X\<rfloor> < 2 ^ (53 + s)"
proof (cases "nat \<lfloor>X\<rfloor> = 0")
  case False
  then have "nat \<lfloor>X\<rfloor> < 2 ^ floorlog 2 (nat \<lfloor>X\<rfloor>)" using floorlog_bounds [of "nat \<lfloor>X\<rfloor>" 2] by simp
  also have "\<dots> \<le> 2 ^ (53 + s)" by (intro power_increasing) (simp_all add: assms)
  finally show ?thesis .
qed simp

lemma round_half_even_mono: "x \<le> y \<Longrightarrow> round_half_even x \<le> round_half_even y"
proof -
  assume le: "x \<le> y"
  show ?thesis
  proof (cases "\<lfloor>x\<rfloor> = \<lfloor>y\<rfloor>")
    case True
    with le show ?thesis by (auto simp: round_half_even_def Let_def)
  next
    case False
    with le have "\<lfloor>x\<rfloor> + 1 \<le> \<lfloor>y\<rfloor>" using floor_mono [OF le] by simp
    moreover have "round_half_even x \<le> \<lfloor>x\<rfloor> + 1" by (simp add: round_half_even_def Let_def)
    moreover have "\<lfloor>y\<rfloor> \<le> round_half_even y" by (intro round_half_even_ge) simp
    ultimately show ?thesis by simp
  qed
qed

lemma fl_mono:
  assumes "0 \<le> x" and "x \<le> y"
  shows "fl x \<le> fl y"
proof -
  define X where "X = x * 2 ^ min_exp"
  define Y where "Y = y * 2 ^ min_exp"
  define s where "s = floorlog 2 (nat \<lfloor>X\<rfloor>) - 53"
  define t where "t = floorlog 2 (nat \<lfloor>Y\<rfloor>) - 53"
  have XY: "0 \<le> X" "X \<le> Y" using assms by (simp_all add: X_def Y_def)
  have "floorlog 2 (nat \<lfloor>X\<rfloor>) \<le> floorlog 2 (nat \<lfloor>Y\<rfloor>)"
    by (intro floorlog_mono nat_mono floor_mono XY)
  then have "s \<le> t" by (simp add: s_def t_def)
  then consider "s = t" | "s < t" by linarith
  then show ?thesis
  proof cases
    case 1
    have "round_half_even (X / 2 ^ s) \<le> round_half_even (Y / 2 ^ s)"
      using XY(2) by (intro round_half_even_mono) (simp add: divide_right_mono)
    then show ?thesis
      unfolding fl_def Let_def X_def [symmetric] Y_def [symmetric] s_def [symmetric] t_def [symmetric]
      by (simp add: 1 divide_right_mono)
  next
    case 2
    let ?b = "2 ^ (52 + t) / 2 ^ min_exp :: rat"
    have "representable ?b"
      unfolding representable_def
      by (rule exI [of _ "2 ^ 52"], rule exI [of _ t]) (simp only: power_add of_int_power of_int_numeral, simp)
    moreover have "?b \<le> y"
      using scale_bounds [OF _ t_def] XY 2 by (simp add: Y_def field_simps)
    moreover have "x \<le> ?b"
    proof -
      have "nat \<lfloor>X\<rfloor> < 2 ^ (53 + s)" by (rule scale_upper [OF s_def])
      also have "\<dots> \<le> (2 :: nat) ^ (52 + t)" using 2 by (intro power_increasing) simp_all
      finally have "\<lfloor>X\<rfloor> < 2 ^ (52 + t)" by (simp add: nat_less_iff XY(1))
      then have "X < 2 ^ (52 + t)" by (simp add: floor_less_iff)
      then show ?thesis by (simp add: X_def field_simps)
    qed
    ultimately have "fl x \<le> ?b" "?b \<le> fl y" using assms by (auto intro: fl_le fl_ge)
    then show ?thesis by simp
  qed
qed

section \<open>Percentages\<close>

text \<open>\<open>(double)c / n * 100\<close> converted to \<open>int\<close>, for \<open>n > 0\<close>.\<close>

definition double_percentage :: "nat \<Rightarrow> nat \<Rightarrow> int" where
  "double_percentage c n = double_to_int (fl (fl (of_nat c / of_nat n) * 100))"

lemma double_percentage_complete: "0 < n \<Longrightarrow> double_percentage n n = 100"
  using representable_of_int [of 1] representable_of_int [of 100]
  by (simp add: double_percentage_def double_to_int_def fl_representable)

lemma double_percentage_range:
  assumes "c \<le> n" and "0 < n"
  shows "0 \<le> double_percentage c n \<and> double_percentage c n \<le> 100"
proof -
  have le1: "(of_nat c / of_nat n :: rat) \<le> 1" and ge0: "0 \<le> (of_nat c / of_nat n :: rat)"
    using assms by simp_all
  have "fl (of_nat c / of_nat n) \<le> 1"
    using fl_le [OF ge0 le1] representable_of_int [of 1] by simp
  moreover have nn: "0 \<le> fl (of_nat c / of_nat n)" by (rule fl_nonneg [OF ge0])
  ultimately have "fl (fl (of_nat c / of_nat n) * 100) \<le> 100"
    using fl_le [of "fl (of_nat c / of_nat n) * 100" 100] representable_of_int [of 100] by simp
  moreover have "0 \<le> fl (fl (of_nat c / of_nat n) * 100)" using nn by (intro fl_nonneg) simp
  ultimately show ?thesis by (simp add: double_percentage_def double_to_int_def floor_le_iff)
qed

lemma double_percentage_incomplete:
  assumes "c < n" and "n \<le> 2 ^ 46"
  shows "double_percentage c n < 100"
proof -
  let ?r = "of_nat c / of_nat n :: rat"
  let ?b = "of_int (2 ^ 46 - 1) / 2 ^ 46 :: rat"
  have "?r \<le> (of_nat n - 1) / of_nat n"
  proof (rule divide_right_mono)
    have "rat_of_nat (Suc c) \<le> of_nat n" using assms(1) by (simp only: of_nat_le_iff Suc_le_eq)
    then show "rat_of_nat c \<le> of_nat n - 1" by simp
  qed simp
  also have "\<dots> = 1 - 1 / of_nat n" using assms(1) by (simp add: diff_divide_distrib)
  also have "\<dots> \<le> 1 - 1 / 2 ^ 46"
  proof -
    have "(of_nat n :: rat) \<le> of_nat (2 ^ 46)" using assms(2) by (simp only: of_nat_le_iff)
    then show ?thesis using assms(1) by (simp add: frac_le)
  qed
  finally have "?r \<le> ?b" by simp
  then have "fl ?r \<le> ?b"
    using representable_dyadic [of "2 ^ 46 - 1" 46] by (intro fl_le) (simp_all add: min_exp_def)
  then have "fl ?r * 100 \<le> of_int (100 * (2 ^ 46 - 1)) / 2 ^ 46" by simp
  then have "fl (fl ?r * 100) \<le> of_int (100 * (2 ^ 46 - 1)) / 2 ^ 46"
    using representable_dyadic [of "100 * (2 ^ 46 - 1)" 46] fl_nonneg [of ?r]
    by (intro fl_le) (simp_all add: min_exp_def)
  also have "\<dots> < (100 :: rat)" by simp
  finally show ?thesis by (simp add: double_percentage_def double_to_int_def floor_less_iff)
qed

end
