(* ===== verification/SockManager.thy ===== *)
theory SockManager
  imports SocketIO ErrorCode Doubles
begin

text \<open>
  \<open>client/src/local_sock_manager.cc\<close>: the client's sockets, to trackers by address and to
  clients by clientid, and the pool of sockets of one client from which the tasks borrow.

  A \<open>SockPtr\<close> is a handle into the sockets opened so far, null when it is \<open>None\<close>.
  \<open>lm_connects\<close> says what the network does with the next connection attempts: one that
  succeeds gives the stream of the new socket and whether the connection is lost at once.
  \<open>resolve\<close> is the constructor of \<open>SocketAddress\<close>, which may look up a host and throw.  The
  mutexes make the operations atomic; log messages at level notice are on.
\<close>

section \<open>State\<close>

datatype sock_status = IDLE | USED

record conn =
  cn_peer :: string
  cn_lost :: bool
  cn_sock :: sock

type_synonym sock_list = "(nat option \<times> sock_status) list"

record sock_manager =
  lm_server_sock_map :: "(string, nat) smap"
  lm_client_sock_map :: "(string, sock_list) smap"
  lm_condition_map :: "(string, nat) smap"
  lm_socks :: "conn list"
  lm_connects :: "(bool \<times> sock) option list"

definition new_sock_manager :: "(bool \<times> sock) option list \<Rightarrow> sock_manager" where
  "new_sock_manager connects =
     \<lparr>lm_server_sock_map = [], lm_client_sock_map = [], lm_condition_map = [], lm_socks = [],
      lm_connects = connects\<rparr>"

definition MAX_CONNECTION_PER_CLIENT :: nat where
  "MAX_CONNECTION_PER_CLIENT = 10"

section \<open>Operations\<close>

definition peerAddress :: "nat \<Rightarrow> sock_manager \<Rightarrow> string outcome" where
  "peerAddress h m =
     (if h < length (lm_socks m) \<and> \<not> cn_lost (lm_socks m ! h)
      then Ret (cn_peer (lm_socks m ! h)) else Throw NetException)"

definition make_connection :: "string \<Rightarrow> sock_manager \<Rightarrow> nat option \<times> sock_manager" where
  "make_connection sa m =
     (case lm_connects m of
        [] \<Rightarrow> (None, m)
      | None # ev \<Rightarrow> (None, m\<lparr>lm_connects := ev\<rparr>)
      | Some (lost, s) # ev \<Rightarrow>
          (Some (length (lm_socks m)),
           m\<lparr>lm_socks := lm_socks m @ [\<lparr>cn_peer = sa, cn_lost = lost, cn_sock = s\<rparr>],
             lm_connects := ev\<rparr>))"

definition make_connection_to ::
    "(string \<Rightarrow> int \<Rightarrow> string outcome) \<Rightarrow> string \<Rightarrow> int \<Rightarrow> sock_manager
      \<Rightarrow> (nat option, sock_manager) result" where
  "make_connection_to resolve ip port m =
     (case resolve ip port of
        Throw e \<Rightarrow> (Throw e, m)
      | Ret sa \<Rightarrow> (let (sock, m) = make_connection sa m in (Ret sock, m)))"

definition connect_tracker ::
    "(string \<Rightarrow> int \<Rightarrow> string outcome) \<Rightarrow> string \<Rightarrow> int \<Rightarrow> sock_manager
      \<Rightarrow> (retcode, sock_manager) result" where
  "connect_tracker resolve tracker_address port m =
     and_then (make_connection_to resolve tracker_address port m) (\<lambda>tracker_sock m.
       case tracker_sock of
         None \<Rightarrow> (Ret ERROR_NET_CONNECT, m)
       | Some h \<Rightarrow>
           (case peerAddress h m of
              Throw e \<Rightarrow> (Throw e, m)
            | Ret key \<Rightarrow>
                (Ret ERROR_OK, m\<lparr>lm_server_sock_map := sm_set key h (lm_server_sock_map m)\<rparr>)))"

definition get_tracker_sock :: "string \<Rightarrow> sock_manager \<Rightarrow> nat option" where
  "get_tracker_sock tracker_address m = sm_find (lm_server_sock_map m) tracker_address"

definition logout_tracker :: "string \<Rightarrow> int \<Rightarrow> sock_manager \<Rightarrow> (retcode, sock_manager) result" where
  "logout_tracker tracker_address port m =
     (case get_tracker_sock tracker_address m of
        None \<Rightarrow> (Ret ERROR_NET_NOT_CONNECTED, m)
      | Some h \<Rightarrow>
          (case peerAddress h m of
             Throw e \<Rightarrow> (Throw e, m)
           | Ret key \<Rightarrow>
               (Ret ERROR_OK, m\<lparr>lm_server_sock_map := sm_erase key (lm_server_sock_map m)\<rparr>)))"

text \<open>\<open>client_sock_map_[clientid].push_back(e)\<close>\<close>

definition push_sock :: "string \<Rightarrow> nat option \<times> sock_status \<Rightarrow> sock_manager \<Rightarrow> sock_manager" where
  "push_sock clientid e m =
     (let (l, cm) = sm_get [] clientid (lm_client_sock_map m)
      in m\<lparr>lm_client_sock_map := sm_set clientid (l @ [e]) cm\<rparr>)"

definition connect_client ::
    "(string \<Rightarrow> int \<Rightarrow> string outcome) \<Rightarrow> string \<Rightarrow> string \<Rightarrow> int \<Rightarrow> sock_manager
      \<Rightarrow> (retcode, sock_manager) result" where
  "connect_client resolve clientid ip port m =
     (if (case sm_find (lm_client_sock_map m) clientid of
            None \<Rightarrow> False | Some l \<Rightarrow> length l > MAX_CONNECTION_PER_CLIENT)
      then (Ret ERROR_NET_CONNECTION_LIMIT, m)
      else and_then (make_connection_to resolve ip port m) (\<lambda>sock m.
        case sock of
          None \<Rightarrow> (Ret ERROR_NET_CONNECT, m)
        | Some h \<Rightarrow>
            let m = push_sock clientid (Some h, IDLE) m;
                m = (if sm_find (lm_condition_map m) clientid = None
                     then m\<lparr>lm_condition_map := sm_set clientid 0 (lm_condition_map m)\<rparr> else m)
            in (Ret ERROR_OK, m)))"

definition reach_connection_limit :: "string \<Rightarrow> sock_manager \<Rightarrow> bool" where
  "reach_connection_limit clientid m =
     (case sm_find (lm_client_sock_map m) clientid of
        None \<Rightarrow> False
      | Some l \<Rightarrow> if length l < MAX_CONNECTION_PER_CLIENT then False else True)"

text \<open>\<open>find_if(sockList.begin(), sockList.end(), p)\<close>: the index of the first match.\<close>

fun find_if :: "('a \<Rightarrow> bool) \<Rightarrow> 'a list \<Rightarrow> nat option" where
  "find_if p [] = None"
| "find_if p (x # xs) = (if p x then Some 0 else map_option Suc (find_if p xs))"

definition get_idle_client_sock :: "string \<Rightarrow> sock_manager \<Rightarrow> (nat option, sock_manager) result" where
  "get_idle_client_sock clientid m =
     (case sm_find (lm_client_sock_map m) clientid of
        None \<Rightarrow> (Ret None, m)
      | Some sockList \<Rightarrow>
          (case find_if (\<lambda>v. snd v = IDLE) sockList of
             Some i \<Rightarrow>
               (Ret (fst (sockList ! i)),
                m\<lparr>lm_client_sock_map :=
                    sm_set clientid (sockList[i := (fst (sockList ! i), USED)]) (lm_client_sock_map m)\<rparr>)
           | None \<Rightarrow>
               if length sockList > MAX_CONNECTION_PER_CLIENT then (Ret None, m)
               else if length sockList = 0 then (Ret None, m)
               else
                 (case fst (sockList ! 0) of
                    None \<Rightarrow> (Throw NullPointer, m)
                  | Some prototype \<Rightarrow>
                      (case peerAddress prototype m of
                         Throw e \<Rightarrow> (Throw e, m)
                       | Ret sa \<Rightarrow>
                           (let (sock, m) = make_connection sa m
                            in (Ret sock, push_sock clientid (sock, USED) m))))))"

definition return_sock :: "string \<Rightarrow> nat option \<Rightarrow> sock_manager \<Rightarrow> (unit, sock_manager) result" where
  "return_sock clientid sock m =
     (case sm_find (lm_client_sock_map m) clientid of
        None \<Rightarrow> (Ret (), m)
      | Some sockList \<Rightarrow>
          (case find_if (\<lambda>v. fst v = sock) sockList of
             None \<Rightarrow>
               (case sock of
                  None \<Rightarrow> (Throw NullPointer, m)
                | Some h \<Rightarrow>
                    (case peerAddress h m of Throw e \<Rightarrow> (Throw e, m) | Ret _ \<Rightarrow> (Ret (), m)))
           | Some i \<Rightarrow>
               let m = m\<lparr>lm_client_sock_map :=
                     sm_set clientid (sockList[i := (fst (sockList ! i), IDLE)]) (lm_client_sock_map m)\<rparr>
               in (case sm_find (lm_condition_map m) clientid of
                     None \<Rightarrow> (Throw AssertionViolation, m)
                   | Some signals \<Rightarrow>
                       (Ret (), m\<lparr>lm_condition_map :=
                          sm_set clientid (Suc signals) (lm_condition_map m)\<rparr>))))"

definition get_sock_idel_condition :: "string \<Rightarrow> sock_manager \<Rightarrow> (nat, sock_manager) result" where
  "get_sock_idel_condition clientid m =
     (case sm_find (lm_condition_map m) clientid of
        None \<Rightarrow> (Throw AssertionViolation, m) | Some c \<Rightarrow> (Ret c, m))"

definition get_payload_percentage :: "string \<Rightarrow> sock_manager \<Rightarrow> rat" where
  "get_payload_percentage clientid m =
     (case sm_find (lm_client_sock_map m) clientid of
        None \<Rightarrow> 100
      | Some l \<Rightarrow> fl (of_nat (length l) / of_nat MAX_CONNECTION_PER_CLIENT))"

definition is_connected :: "string \<Rightarrow> sock_manager \<Rightarrow> bool" where
  "is_connected clientid m = (sm_find (lm_client_sock_map m) clientid \<noteq> None)"


section \<open>The pool invariant\<close>

lemma find_if_Some: "find_if p xs = Some i \<Longrightarrow> i < length xs \<and> p (xs ! i)"
  by (induction xs arbitrary: i) (auto split: if_splits)

lemma find_if_None: "find_if p xs = None \<longleftrightarrow> (\<forall>x \<in> set xs. \<not> p x)"
  by (induction xs) auto

text \<open>The list of one client, when \<open>n\<close> sockets have been opened so far.\<close>

definition client_list_ok :: "nat \<Rightarrow> sock_list \<Rightarrow> bool" where
  "client_list_ok n l \<longleftrightarrow>
     l \<noteq> [] \<and> length l \<le> Suc MAX_CONNECTION_PER_CLIENT \<and> fst (l ! 0) \<noteq> None \<and>
     (None, IDLE) \<notin> set l \<and> distinct (filter (\<lambda>p. p \<noteq> None) (map fst l)) \<and>
     (\<forall>h. Some h \<in> set (map fst l) \<longrightarrow> h < n)"

definition belongs :: "sock_manager \<Rightarrow> string \<Rightarrow> nat \<Rightarrow> bool" where
  "belongs m c h \<longleftrightarrow>
     (\<exists>l. sm_find (lm_client_sock_map m) c = Some l \<and> Some h \<in> set (map fst l))"

definition lists_ok :: "sock_manager \<Rightarrow> bool" where
  "lists_ok m \<longleftrightarrow>
     (\<forall>c l. sm_find (lm_client_sock_map m) c = Some l \<longrightarrow>
        client_list_ok (length (lm_socks m)) l \<and> sm_find (lm_condition_map m) c \<noteq> None)"

definition pool_inv :: "sock_manager \<Rightarrow> bool" where
  "pool_inv m \<longleftrightarrow> lists_ok m \<and>
     (\<forall>c c' h. belongs m c h \<longrightarrow> belongs m c' h \<longrightarrow> c = c') \<and>
     (\<forall>k h. sm_find (lm_server_sock_map m) k = Some h \<longrightarrow>
        h < length (lm_socks m) \<and> (\<forall>c. \<not> belongs m c h))"

lemma pool_inv_list:
  "pool_inv m \<Longrightarrow> sm_find (lm_client_sock_map m) c = Some l \<Longrightarrow>
     client_list_ok (length (lm_socks m)) l \<and> sm_find (lm_condition_map m) c \<noteq> None"
  by (simp add: pool_inv_def lists_ok_def)

lemma belongs_less: "pool_inv m \<Longrightarrow> belongs m c h \<Longrightarrow> h < length (lm_socks m)"
  by (auto simp: belongs_def client_list_ok_def simp del: set_map dest!: pool_inv_list)

lemma map_fst_status [simp]: "map fst (l[i := (fst (l ! i), st)]) = map fst l"
  by (simp add: map_update) (metis list_update_id map_update)

lemma client_list_ok_status:
  assumes "client_list_ok n l" and "i < length l" and "fst (l ! i) \<noteq> None \<or> st = USED"
  shows "client_list_ok n (l[i := (fst (l ! i), st)])"
proof -
  have "fst (l[i := (fst (l ! i), st)] ! 0) = fst (l ! 0)"
    by (cases "i = 0") (use assms(2) in auto)
  moreover have "(None, IDLE) \<notin> set (l[i := (fst (l ! i), st)])"
    using assms set_update_subset_insert [of l i "(fst (l ! i), st)"]
    by (auto simp: client_list_ok_def)
  ultimately show ?thesis
    using assms(1) unfolding client_list_ok_def map_fst_status by simp
qed

lemma client_list_ok_mono: "client_list_ok n l \<Longrightarrow> n \<le> k \<Longrightarrow> client_list_ok k l"
  unfolding client_list_ok_def by fastforce

lemma client_list_ok_push:
  assumes "l = [] \<or> client_list_ok n l" and "length l \<le> MAX_CONNECTION_PER_CLIENT"
  shows "client_list_ok (Suc n) (l @ [(Some n, st)])"
    and "l \<noteq> [] \<Longrightarrow> client_list_ok n (l @ [(None, USED)])"
  using assms by (auto simp: client_list_ok_def nth_append less_Suc_eq)

text \<open>How an operation changes the lists decides whether the invariant is kept.\<close>

lemma pool_inv_change:
  assumes "pool_inv m" and "lists_ok m'" and "lm_server_sock_map m' = lm_server_sock_map m"
    and "length (lm_socks m) \<le> length (lm_socks m')"
    and "\<And>c' h. belongs m' c' h \<Longrightarrow> belongs m c' h \<or> c' = c \<and> h = length (lm_socks m)"
  shows "pool_inv m'"
  unfolding pool_inv_def
proof (intro conjI allI impI)
  fix c1 c2 h assume "belongs m' c1 h" "belongs m' c2 h"
  then show "c1 = c2"
    using assms(1) assms(5) [of c1 h] assms(5) [of c2 h] belongs_less [OF assms(1)]
    unfolding pool_inv_def by blast
next
  fix k h assume h: "sm_find (lm_server_sock_map m') k = Some h"
  then show "h < length (lm_socks m')"
    using assms(1,3,4) unfolding pool_inv_def by fastforce
  fix c'
  show "\<not> belongs m' c' h"
    using assms(1,3) assms(5) [of c' h] h unfolding pool_inv_def by fastforce
qed (rule assms(2))

lemma belongs_set:
  "lm_client_sock_map m' = sm_set c l (lm_client_sock_map m) \<Longrightarrow>
     belongs m' c' h \<longleftrightarrow> (if c' = c then Some h \<in> set (map fst l) else belongs m c' h)"
  by (auto simp: belongs_def sm.find_set)

lemma lists_ok_set:
  assumes "lists_ok m" and "lm_client_sock_map m' = sm_set c l (lm_client_sock_map m)"
    and "client_list_ok (length (lm_socks m')) l" and "length (lm_socks m) \<le> length (lm_socks m')"
    and "sm_find (lm_condition_map m') c \<noteq> None"
    and "\<And>c'. c' \<noteq> c \<Longrightarrow> sm_find (lm_condition_map m') c' = sm_find (lm_condition_map m) c'"
  shows "lists_ok m'"
  using assms unfolding lists_ok_def
  by (simp add: sm.find_set) (metis client_list_ok_mono option.inject)

lemma pool_inv_status:
  assumes "pool_inv m" and "sm_find (lm_client_sock_map m) c = Some l" and "i < length l"
    and "fst (l ! i) \<noteq> None \<or> st = USED"
    and "lm_client_sock_map m' = sm_set c (l[i := (fst (l ! i), st)]) (lm_client_sock_map m)"
    and "lm_condition_map m' = lm_condition_map m \<or>
      lm_condition_map m' = sm_set c k (lm_condition_map m)"
    and "lm_server_sock_map m' = lm_server_sock_map m" and "lm_socks m' = lm_socks m"
  shows "pool_inv m'"
proof (rule pool_inv_change [OF assms(1), where c = c])
  show "lists_ok m'"
  proof (rule lists_ok_set [OF _ assms(5)])
    show "client_list_ok (length (lm_socks m')) (l[i := (fst (l ! i), st)])"
      using pool_inv_list [OF assms(1,2)] assms(3,4) unfolding assms(8)
      by (intro client_list_ok_status) simp_all
    show "sm_find (lm_condition_map m') c \<noteq> None"
      using pool_inv_list [OF assms(1,2)] assms(6) by auto
  qed (use assms(1,6,8) in \<open>auto simp: pool_inv_def\<close>)
  fix c' h assume "belongs m' c' h"
  then show "belongs m c' h \<or> c' = c \<and> h = length (lm_socks m)"
    using assms(2) unfolding belongs_set [OF assms(5)] map_fst_status
    by (auto simp: belongs_def split: if_splits)
qed (simp_all add: assms)

lemma pool_inv_push:
  assumes "pool_inv m" and "l = (case sm_find (lm_client_sock_map m) c of None \<Rightarrow> [] | Some l \<Rightarrow> l)"
    and "length l \<le> MAX_CONNECTION_PER_CLIENT"
    and "e = (Some (length (lm_socks m)), st) \<and> length (lm_socks m') = Suc (length (lm_socks m)) \<or>
      e = (None, USED) \<and> l \<noteq> [] \<and> lm_socks m' = lm_socks m"
    and "lm_client_sock_map m' = sm_set c (l @ [e]) (lm_client_sock_map m)"
    and "sm_find (lm_condition_map m') c \<noteq> None"
    and "\<And>c'. c' \<noteq> c \<Longrightarrow> sm_find (lm_condition_map m') c' = sm_find (lm_condition_map m) c'"
    and "lm_server_sock_map m' = lm_server_sock_map m"
  shows "pool_inv m'"
proof (rule pool_inv_change [OF assms(1), where c = c])
  have l: "l = [] \<or> client_list_ok (length (lm_socks m)) l"
    using assms(1,2) by (auto split: option.splits dest: pool_inv_list)
  have "client_list_ok (length (lm_socks m')) (l @ [e])"
    using client_list_ok_push [OF l assms(3)] assms(4) by auto
  with assms(1,4,6,7) show "lists_ok m'"
    by (intro lists_ok_set [OF _ assms(5)]) (auto simp: pool_inv_def)
  fix c' h assume "belongs m' c' h"
  then show "belongs m c' h \<or> c' = c \<and> h = length (lm_socks m)"
    using assms(2,4) unfolding belongs_set [OF assms(5)]
    by (auto simp: belongs_def split: if_splits option.splits)
next
  show "length (lm_socks m) \<le> length (lm_socks m')" using assms(4) by auto
qed (rule assms)

lemma pool_inv_env:
  assumes "pool_inv m" and "lm_client_sock_map m' = lm_client_sock_map m"
    and "lm_server_sock_map m' = lm_server_sock_map m"
    and "lm_condition_map m' = lm_condition_map m"
    and "length (lm_socks m) \<le> length (lm_socks m')"
  shows "pool_inv m'"
proof (rule pool_inv_change [OF assms(1)])
  show "lists_ok m'"
    using assms unfolding pool_inv_def lists_ok_def by (auto intro: client_list_ok_mono)
qed (use assms in \<open>simp_all add: belongs_def\<close>)


section \<open>Every operation keeps the invariant\<close>

definition same_maps :: "sock_manager \<Rightarrow> sock_manager \<Rightarrow> bool" where
  "same_maps m m' \<longleftrightarrow>
     lm_client_sock_map m' = lm_client_sock_map m \<and>
     lm_server_sock_map m' = lm_server_sock_map m \<and> lm_condition_map m' = lm_condition_map m"

lemma make_connection_result:
  "make_connection sa m = (p, m') \<Longrightarrow> same_maps m m' \<and>
     (p = None \<and> lm_socks m' = lm_socks m \<or>
      p = Some (length (lm_socks m)) \<and> length (lm_socks m') = Suc (length (lm_socks m)))"
  by (cases "lm_connects m"; cases "hd (lm_connects m)")
    (auto simp: make_connection_def same_maps_def)

lemma push_sock_eq:
  "push_sock c e m = m\<lparr>lm_client_sock_map := sm_set c
     ((case sm_find (lm_client_sock_map m) c of Some l \<Rightarrow> l | None \<Rightarrow> []) @ [e]) (lm_client_sock_map m)\<rparr>"
  by (simp add: push_sock_def split_def sm_get_find)

lemma pool_inv_make_connection:
  "pool_inv m \<Longrightarrow> make_connection sa m = (p, m') \<Longrightarrow> pool_inv m'"
  by (drule make_connection_result) (auto simp: same_maps_def intro: pool_inv_env)

lemma pool_inv_connect_tracker:
  assumes "pool_inv m"
  shows "pool_inv (snd (connect_tracker resolve addr port m))"
proof (cases "resolve addr port")
  case (Ret sa)
  obtain p m1 where mk: "make_connection sa m = (p, m1)" by fastforce
  have inv1: "pool_inv m1" using assms mk by (rule pool_inv_make_connection)
  show ?thesis
  proof (cases p)
    case (Some h)
    from mk Some have h: "h = length (lm_socks m)" "length (lm_socks m1) = Suc h"
        "lm_client_sock_map m1 = lm_client_sock_map m"
      using make_connection_result [OF mk] by (simp_all add: same_maps_def)
    then have new: "\<not> belongs m1 c h" for c
      using belongs_less [OF assms] by (auto simp: belongs_def)
    have "pool_inv (m1\<lparr>lm_server_sock_map := sm_set key h (lm_server_sock_map m1)\<rparr>)" for key
      using inv1 new h(2)
      by (auto simp: pool_inv_def lists_ok_def belongs_def sm.find_set)
    then show ?thesis
      using inv1 Ret mk Some
      by (simp add: connect_tracker_def make_connection_to_def split: outcome.splits)
  qed (use inv1 Ret mk in \<open>simp add: connect_tracker_def make_connection_to_def\<close>)
qed (use assms in \<open>simp add: connect_tracker_def make_connection_to_def\<close>)

lemma pool_inv_logout_tracker:
  assumes "pool_inv m"
  shows "pool_inv (snd (logout_tracker addr port m))"
proof -
  have "pool_inv (m\<lparr>lm_server_sock_map := sm_erase key (lm_server_sock_map m)\<rparr>)" for key
    using assms by (auto simp: pool_inv_def lists_ok_def belongs_def sm.find_erase)
  with assms show ?thesis
    by (auto simp: logout_tracker_def split: option.splits outcome.splits)
qed

lemma pool_inv_connect_client:
  assumes "pool_inv m"
  shows "pool_inv (snd (connect_client resolve c ip port m))"
proof (cases "(case sm_find (lm_client_sock_map m) c of
    None \<Rightarrow> False | Some l \<Rightarrow> length l > MAX_CONNECTION_PER_CLIENT)")
  case False
  show ?thesis
  proof (cases "resolve ip port")
    case (Ret sa)
    obtain p m1 where mk: "make_connection sa m = (p, m1)" by fastforce
    have inv1: "pool_inv m1" using assms mk by (rule pool_inv_make_connection)
    show ?thesis
    proof (cases p)
      case (Some h)
      from mk Some have h: "h = length (lm_socks m)" "length (lm_socks m1) = Suc h"
          "lm_client_sock_map m1 = lm_client_sock_map m"
          "lm_server_sock_map m1 = lm_server_sock_map m"
          "lm_condition_map m1 = lm_condition_map m"
        using make_connection_result [OF mk] by (simp_all add: same_maps_def)
      show ?thesis
        by (rule pool_inv_push [OF assms refl, where c = c and e = "(Some h, IDLE)" and st = IDLE])
          (use False Ret mk Some h in \<open>auto simp: connect_client_def make_connection_to_def
            push_sock_eq Let_def sm.find_set split: option.splits\<close>)
    qed (use False inv1 Ret mk in \<open>simp add: connect_client_def make_connection_to_def\<close>)
  qed (use False assms in \<open>simp add: connect_client_def make_connection_to_def\<close>)
qed (use assms in \<open>simp add: connect_client_def\<close>)


lemma pool_inv_get_idle:
  assumes "pool_inv m"
  shows "pool_inv (snd (get_idle_client_sock c m))"
proof (cases "sm_find (lm_client_sock_map m) c")
  case (Some l)
  note l = pool_inv_list [OF assms Some]
  show ?thesis
  proof (cases "find_if (\<lambda>v. snd v = IDLE) l")
    case (Some i)
    then have i: "i < length l" "snd (l ! i) = IDLE" using find_if_Some [OF Some] by simp_all
    show ?thesis
      by (rule pool_inv_status [OF assms \<open>sm_find (lm_client_sock_map m) c = Some l\<close> i(1), where st = USED])
        (use Some \<open>sm_find (lm_client_sock_map m) c = Some l\<close> in \<open>auto simp: get_idle_client_sock_def\<close>)
  next
    case None
    show ?thesis
    proof (cases "length l > MAX_CONNECTION_PER_CLIENT")
      case False
      from l obtain h where h: "fst (l ! 0) = Some h" "l \<noteq> []" by (auto simp: client_list_ok_def)
      show ?thesis
      proof (cases "peerAddress h m")
        case (Ret sa)
        obtain p m1 where mk: "make_connection sa m = (p, m1)" by fastforce
        have run: "get_idle_client_sock c m = (Ret p, push_sock c (p, USED) m1)"
          using \<open>sm_find (lm_client_sock_map m) c = Some l\<close> None False h Ret mk
          by (simp add: get_idle_client_sock_def)
        show ?thesis
          unfolding run
          by (rule pool_inv_push [OF assms refl, where c = c and e = "(p, USED)" and st = USED])
            (use make_connection_result [OF mk] \<open>sm_find (lm_client_sock_map m) c = Some l\<close>
              False h(2) l in \<open>auto simp: push_sock_eq same_maps_def\<close>)
      qed (use assms Some None False h in \<open>simp add: get_idle_client_sock_def\<close>)
    qed (use assms Some None in \<open>simp add: get_idle_client_sock_def\<close>)
  qed
qed (use assms in \<open>simp add: get_idle_client_sock_def\<close>)

lemma return_sock_found:
  assumes "pool_inv m" and "sm_find (lm_client_sock_map m) c = Some l"
    and "find_if (\<lambda>v. fst v = Some h) l = Some i"
  shows "\<exists>k. return_sock c (Some h) m = (Ret (), m\<lparr>
      lm_client_sock_map := sm_set c (l[i := (fst (l ! i), IDLE)]) (lm_client_sock_map m),
      lm_condition_map := sm_set c (Suc k) (lm_condition_map m)\<rparr>)"
  using pool_inv_list [OF assms(1,2)] assms(2,3) by (auto simp: return_sock_def)

lemma pool_inv_return_sock:
  assumes "pool_inv m"
  shows "pool_inv (snd (return_sock c (Some h) m))"
proof (cases "sm_find (lm_client_sock_map m) c")
  case (Some l)
  show ?thesis
  proof (cases "find_if (\<lambda>v. fst v = Some h) l")
    case (Some i)
    note found = return_sock_found [OF assms \<open>sm_find (lm_client_sock_map m) c = Some l\<close> Some]
    then obtain k where run: "return_sock c (Some h) m = (Ret (), m\<lparr>
      lm_client_sock_map := sm_set c (l[i := (fst (l ! i), IDLE)]) (lm_client_sock_map m),
      lm_condition_map := sm_set c (Suc k) (lm_condition_map m)\<rparr>)" by blast
    show ?thesis
      unfolding run
      by (rule pool_inv_status [OF assms \<open>sm_find (lm_client_sock_map m) c = Some l\<close>,
            where i = i and st = IDLE and k = "Suc k"]) (use find_if_Some [OF Some] in simp_all)
  next
    case None
    then show ?thesis using Some assms by (simp add: return_sock_def split: outcome.splits)
  qed
qed (use assms in \<open>simp add: return_sock_def\<close>)


section \<open>Histories of the pool\<close>

text \<open>
  A step is one public operation with any arguments (\<open>return_sock\<close> of a socket that is not
  null), or the environment: a connection is lost, or the fate of later attempts changes.
\<close>

inductive pool_step :: "(string \<Rightarrow> int \<Rightarrow> string outcome) \<Rightarrow> sock_manager \<Rightarrow> sock_manager \<Rightarrow> bool"
  for resolve where
  tracker: "pool_step resolve m (snd (connect_tracker resolve addr port m))"
| logout: "pool_step resolve m (snd (logout_tracker addr port m))"
| client: "pool_step resolve m (snd (connect_client resolve c ip port m))"
| borrow: "pool_step resolve m (snd (get_idle_client_sock c m))"
| give_back: "pool_step resolve m (snd (return_sock c (Some h) m))"
| lost: "pool_step resolve m
    (m\<lparr>lm_socks := (lm_socks m)[h := (lm_socks m ! h)\<lparr>cn_lost := True\<rparr>]\<rparr>)"
| network: "pool_step resolve m (m\<lparr>lm_connects := ev\<rparr>)"

lemma pool_step_inv: "pool_step resolve m m' \<Longrightarrow> pool_inv m \<Longrightarrow> pool_inv m'"
proof (induction rule: pool_step.induct)
  case (lost m h)
  then show ?case by (auto intro: pool_inv_env)
next
  case (network m ev)
  then show ?case by (auto intro: pool_inv_env)
qed (simp_all add: pool_inv_connect_tracker pool_inv_logout_tracker pool_inv_connect_client
    pool_inv_get_idle pool_inv_return_sock)

lemma pool_inv_new: "pool_inv (new_sock_manager ev)"
  by (simp add: pool_inv_def new_sock_manager_def lists_ok_def belongs_def)

lemma pool_reachable_inv:
  "(pool_step resolve)\<^sup>*\<^sup>* (new_sock_manager ev) m \<Longrightarrow> pool_inv m"
  by (induction rule: rtranclp_induct) (auto intro: pool_inv_new pool_step_inv)

section \<open>Lending\<close>

text \<open>
  The contract the tasks rely on: a borrowed socket was lent to nobody, and giving it back makes
  exactly it available again.  \<open>lent\<close> are the pairs of a client and a socket now lent.
\<close>

datatype ('k, 'h) lend_op = Borrow 'k | GiveBack 'k 'h

fun lend_run ::
    "('k \<Rightarrow> 's \<Rightarrow> ('h option, 's) result) \<Rightarrow> ('k \<Rightarrow> 'h option \<Rightarrow> 's \<Rightarrow> (unit, 's) result)
      \<Rightarrow> ('k, 'h) lend_op list \<Rightarrow> 's \<times> ('k \<times> 'h) list \<Rightarrow> 's \<times> ('k \<times> 'h) list" where
  "lend_run get put [] (s, held) = (s, held)"
| "lend_run get put (Borrow k # ops) (s, held) =
     (case get k s of
        (Ret (Some h), s) \<Rightarrow> lend_run get put ops (s, (k, h) # held)
      | (_, s) \<Rightarrow> lend_run get put ops (s, held))"
| "lend_run get put (GiveBack k h # ops) (s, held) =
     (if (k, h) \<in> set held then lend_run get put ops (snd (put k (Some h) s), remove1 (k, h) held)
      else lend_run get put ops (s, held))"

locale lending =
  fixes inv :: "'s \<Rightarrow> bool"
    and lent :: "'s \<Rightarrow> ('k \<times> 'h) set"
    and get :: "'k \<Rightarrow> 's \<Rightarrow> ('h option, 's) result"
    and put :: "'k \<Rightarrow> 'h option \<Rightarrow> 's \<Rightarrow> (unit, 's) result"
  assumes inv_get: "inv s \<Longrightarrow> inv (snd (get k s))"
    and inv_put: "inv s \<Longrightarrow> inv (snd (put k (Some h) s))"
    and get_Some: "inv s \<Longrightarrow> get k s = (Ret (Some h), s') \<Longrightarrow>
      h \<notin> snd ` lent s \<and> lent s' = insert (k, h) (lent s)"
    and get_other: "inv s \<Longrightarrow> get k s = (r, s') \<Longrightarrow> \<forall>h. r \<noteq> Ret (Some h) \<Longrightarrow> lent s' = lent s"
    and put_returns: "inv s \<Longrightarrow> (k, h) \<in> lent s \<Longrightarrow> fst (put k (Some h) s) = Ret ()"
    and put_gives_back: "inv s \<Longrightarrow> (k, h) \<in> lent s \<Longrightarrow>
      lent (snd (put k (Some h) s)) = lent s - {(k, h)}"
begin

lemma run_exclusive:
  "inv s \<Longrightarrow> distinct (map snd held) \<Longrightarrow> set held = lent s \<Longrightarrow>
     lend_run get put ops (s, held) = (s', held') \<Longrightarrow>
     inv s' \<and> distinct (map snd held') \<and> set held' = lent s'"
proof (induction ops arbitrary: s held)
  case (Cons oper ops)
  show ?case
  proof (cases oper)
    case (Borrow k)
    obtain r s1 where g: "get k s = (r, s1)" by fastforce
    have inv1: "inv s1" using inv_get [OF Cons.prems(1), of k] g by simp
    show ?thesis
    proof (cases "\<exists>h. r = Ret (Some h)")
      case True
      then obtain h where r: "r = Ret (Some h)" by blast
      from get_Some [OF Cons.prems(1)] g r
      have "h \<notin> snd ` lent s" "lent s1 = insert (k, h) (lent s)" by auto
      with Cons.IH [OF inv1, of "(k, h) # held"] Cons.prems Borrow g r show ?thesis by simp
    next
      case False
      with get_other [OF Cons.prems(1) g] have "lent s1 = lent s" by blast
      with Cons.IH [OF inv1, of held] Cons.prems Borrow g False show ?thesis
        by (auto split: outcome.splits option.splits)
    qed
  next
    case (GiveBack k h)
    show ?thesis
    proof (cases "(k, h) \<in> set held")
      case True
      have "distinct held" using Cons.prems(2) by (simp add: distinct_map)
      then have "set (remove1 (k, h) held) = lent (snd (put k (Some h) s))"
        using True Cons.prems(1,3) by (simp add: put_gives_back set_remove1_eq)
      moreover have "distinct (map snd (remove1 (k, h) held))"
        using Cons.prems(2) by (auto simp: distinct_map intro: inj_on_diff)
      ultimately show ?thesis
        using Cons.IH [OF inv_put [OF Cons.prems(1)]] Cons.prems(4) GiveBack True by simp
    qed (use Cons GiveBack in simp)
  qed
qed simp

end

definition lent :: "sock_manager \<Rightarrow> (string \<times> nat) set" where
  "lent m = {(c, h). \<exists>l. sm_find (lm_client_sock_map m) c = Some l \<and> (Some h, USED) \<in> set l}"


lemma distinct_filter_nth:
  "distinct (filter P xs) \<Longrightarrow> i < length xs \<Longrightarrow> j < length xs \<Longrightarrow> xs ! i = xs ! j \<Longrightarrow> P (xs ! i)
     \<Longrightarrow> i = j"
proof (induction xs arbitrary: i j)
  case (Cons x xs)
  show ?case
  proof (cases i)
    case 0
    with Cons.prems show ?thesis by (cases j) (auto split: if_splits)
  next
    case (Suc i')
    with Cons show ?thesis by (cases j) (auto split: if_splits)
  qed
qed simp

lemma same_entry:
  assumes "client_list_ok n l" and "i < length l" and "fst (l ! i) = Some h" and "(Some h, st) \<in> set l"
  shows "l ! i = (Some h, st)"
proof -
  from assms(4) obtain j where j: "j < length l" "l ! j = (Some h, st)"
    by (auto simp: in_set_conv_nth)
  have "i = j"
    using distinct_filter_nth [of "\<lambda>p. p \<noteq> None" "map fst l" i j] assms j
    by (simp add: client_list_ok_def)
  with j show ?thesis by simp
qed

lemma set_status:
  assumes "client_list_ok n l" and "i < length l" and "fst (l ! i) = Some h"
  shows "(Some h', USED) \<in> set (l[i := (fst (l ! i), st)]) \<longleftrightarrow>
    (if h' = h then st = USED else (Some h', USED) \<in> set l)"
proof (cases "h' = h")
  case True
  have "st = USED" if "(Some h, USED) \<in> set (l[i := (Some h, st)])"
    using same_entry [OF client_list_ok_status [OF assms(1,2), of st], of i h USED] that assms(2,3)
    by simp
  then show ?thesis using True assms by (auto simp: set_update_memI)
next
  case False
  have "(Some h', USED) \<in> set (l[i := (Some h, st)]) \<longleftrightarrow> (Some h', USED) \<in> set l"
  proof
    assume "(Some h', USED) \<in> set (l[i := (Some h, st)])"
    then show "(Some h', USED) \<in> set l"
      using False set_update_subset_insert [of l i "(Some h, st)"] by auto
  next
    assume "(Some h', USED) \<in> set l"
    then obtain j where j: "j < length l" "l ! j = (Some h', USED)" by (auto simp: in_set_conv_nth)
    then have "j \<noteq> i" using False assms(3) by auto
    with j show "(Some h', USED) \<in> set (l[i := (Some h, st)])"
      by (metis length_list_update nth_list_update_neq nth_mem)
  qed
  with False assms(3) show ?thesis by simp
qed

lemma lent_set:
  assumes "lm_client_sock_map m' = sm_set c l (lm_client_sock_map m)"
  shows "(c', h) \<in> lent m' \<longleftrightarrow> (if c' = c then (Some h, USED) \<in> set l else (c', h) \<in> lent m)"
  using assms by (auto simp: lent_def sm.find_set)

lemma lent_belongs: "(c, h) \<in> lent m \<Longrightarrow> belongs m c h"
  by (force simp: lent_def belongs_def)

lemma lent_status:
  assumes "pool_inv m" and "sm_find (lm_client_sock_map m) c = Some l" and "i < length l"
    and "fst (l ! i) = Some h"
    and "lm_client_sock_map m' = sm_set c (l[i := (fst (l ! i), st)]) (lm_client_sock_map m)"
  shows "lent m' = (if st = USED then insert (c, h) (lent m) else lent m - {(c, h)})"
proof (intro set_eqI)
  fix x
  obtain c' :: string and h' :: nat where x: "x = (c', h')" by fastforce
  have l: "client_list_ok (length (lm_socks m)) l" using pool_inv_list [OF assms(1,2)] by simp
  have "(c, h') \<in> lent m \<longleftrightarrow> (Some h', USED) \<in> set l" using assms(2) by (simp add: lent_def)
  then show "x \<in> lent m' \<longleftrightarrow> x \<in> (if st = USED then insert (c, h) (lent m) else lent m - {(c, h)})"
    unfolding x lent_set [OF assms(5)] set_status [OF l assms(3,4)]
    by (cases st) (auto split: if_splits)
qed

lemma get_idle_lends:
  assumes "pool_inv m" and "get_idle_client_sock c m = (Ret (Some h), m')"
  shows "h \<notin> snd ` lent m \<and> lent m' = insert (c, h) (lent m)"
proof -
  obtain l where l: "sm_find (lm_client_sock_map m) c = Some l"
    using assms(2) by (auto simp: get_idle_client_sock_def split: option.splits)
  note ok = pool_inv_list [OF assms(1) l]
  have uniq: "\<forall>c c' h. belongs m c h \<longrightarrow> belongs m c' h \<longrightarrow> c = c'"
    using assms(1) by (simp add: pool_inv_def)
  show ?thesis
  proof (cases "find_if (\<lambda>v. snd v = IDLE) l")
    case (Some i)
    note i = find_if_Some [OF Some]
    from assms(2) l Some have h: "fst (l ! i) = Some h"
      and m': "lm_client_sock_map m' = sm_set c (l[i := (fst (l ! i), USED)]) (lm_client_sock_map m)"
      by (auto simp: get_idle_client_sock_def)
    have "fst (l ! i) \<in> set (map fst l)" using i by simp
    then have "belongs m c h" using l h by (simp add: belongs_def)
    moreover have "(c, h) \<notin> lent m"
      using same_entry [of _ l i h USED] ok i h l by (auto simp: lent_def)
    ultimately have "h \<notin> snd ` lent m" using uniq lent_belongs by fastforce
    moreover have "lent m' = insert (c, h) (lent m)"
      using lent_status [OF assms(1) l _ h m'] i by simp
    ultimately show ?thesis by simp
  next
    case None
    then obtain sa m1 where mk: "make_connection sa m = (Some h, m1)"
      and m': "m' = push_sock c (Some h, USED) m1"
      using assms(2) l by (auto simp: get_idle_client_sock_def split: if_splits option.splits
          outcome.splits prod.splits)
    from make_connection_result [OF mk] have h: "h = length (lm_socks m)"
      "lm_client_sock_map m1 = lm_client_sock_map m" by (auto simp: same_maps_def)
    have "h \<notin> snd ` lent m"
      using h(1) belongs_less [OF assms(1)] lent_belongs by fastforce
    moreover have "lm_client_sock_map m' = sm_set c (l @ [(Some h, USED)]) (lm_client_sock_map m)"
      using m' h(2) l by (simp add: push_sock_eq)
    then have "x \<in> lent m' \<longleftrightarrow> x \<in> insert (c, h) (lent m)" for x
      using l by (cases x) (auto simp: lent_set, auto simp: lent_def)
    ultimately show ?thesis by blast
  qed
qed


lemma get_idle_lends_nothing:
  assumes "pool_inv m" and "get_idle_client_sock c m = (r, m')" and "\<forall>h. r \<noteq> Ret (Some h)"
  shows "lent m' = lent m"
proof (cases "sm_find (lm_client_sock_map m) c")
  case (Some l)
  note ok = pool_inv_list [OF assms(1) Some]
  show ?thesis
  proof (cases "find_if (\<lambda>v. snd v = IDLE) l")
    case None
    show ?thesis
    proof (cases "\<exists>m1. same_maps m m1 \<and> m' = push_sock c (None, USED) m1")
      case True
      then have m': "lm_client_sock_map m' = sm_set c (l @ [(None, USED)]) (lm_client_sock_map m)"
        using Some by (auto simp: push_sock_eq same_maps_def)
      have "x \<in> lent m' \<longleftrightarrow> x \<in> lent m" for x
        using Some by (cases x) (auto simp: lent_set [OF m'], auto simp: lent_def)
      then show ?thesis by blast
    next
      case False
      then have "m' = m"
        using assms(2,3) Some None
        by (auto simp: get_idle_client_sock_def split: if_splits option.splits outcome.splits
            prod.splits dest!: make_connection_result)
      then show ?thesis by simp
    qed
  next
    case idle: (Some i)
    with Some assms(2,3) have "fst (l ! i) = None"
      by (cases "fst (l ! i)") (auto simp: get_idle_client_sock_def)
    moreover have "l ! i \<in> set l" and "snd (l ! i) = IDLE" using find_if_Some [OF idle] by simp_all
    ultimately have False using ok by (cases "l ! i") (simp add: client_list_ok_def)
    then show ?thesis ..
  qed
qed (use assms in \<open>simp add: get_idle_client_sock_def\<close>)

lemma return_sock_lent:
  assumes "pool_inv m" and "(c, h) \<in> lent m"
  shows "fst (return_sock c (Some h) m) = Ret () \<and>
    lent (snd (return_sock c (Some h) m)) = lent m - {(c, h)}"
proof -
  from assms(2) obtain l where l: "sm_find (lm_client_sock_map m) c = Some l" "(Some h, USED) \<in> set l"
    by (auto simp: lent_def)
  then obtain i where i: "find_if (\<lambda>v. fst v = Some h) l = Some i"
    by (cases "find_if (\<lambda>v. fst v = Some h) l") (auto simp: find_if_None)
  from return_sock_found [OF assms(1) l(1) i] obtain k where
    run: "return_sock c (Some h) m = (Ret (), m\<lparr>
      lm_client_sock_map := sm_set c (l[i := (fst (l ! i), IDLE)]) (lm_client_sock_map m),
      lm_condition_map := sm_set c (Suc k) (lm_condition_map m)\<rparr>)" by blast
  have "lent (snd (return_sock c (Some h) m)) = lent m - {(c, h)}"
    unfolding run using lent_status [OF assms(1) l(1), where i = i and h = h and st = IDLE]
      find_if_Some [OF i] by simp
  with run show ?thesis by simp
qed

interpretation pool: lending pool_inv lent get_idle_client_sock return_sock
  by unfold_locales
    (simp_all add: pool_inv_get_idle pool_inv_return_sock get_idle_lends get_idle_lends_nothing
      return_sock_lent)


section \<open>Properties\<close>

text \<open>
  C20: after any history of the pool's operations and of the network, the assertions of
  \<open>return_sock\<close> and, for a connected client, of \<open>get_sock_idel_condition\<close> hold,
  \<open>get_idle_client_sock\<close> finds a socket to copy the address from, and a client has at least one
  and at most one socket more than \<open>MAX_CONNECTION_PER_CLIENT\<close>.
\<close>

theorem pool_never_asserts:
  assumes "(pool_step resolve)\<^sup>*\<^sup>* (new_sock_manager ev) m"
  shows "fst (return_sock c (Some h) m) \<noteq> Throw AssertionViolation \<and>
    fst (get_idle_client_sock c m) \<noteq> Throw NullPointer \<and>
    (is_connected c m \<longrightarrow>
       (\<exists>cond. get_sock_idel_condition c m = (Ret cond, m)) \<and>
       (\<exists>l. sm_find (lm_client_sock_map m) c = Some l \<and> l \<noteq> [] \<and>
          length l \<le> Suc MAX_CONNECTION_PER_CLIENT))"
proof (cases "sm_find (lm_client_sock_map m) c")
  case (Some l)
  note inv = pool_reachable_inv [OF assms]
  note ok = pool_inv_list [OF inv Some]
  have "fst (return_sock c (Some h) m) \<noteq> Throw AssertionViolation"
    using Some ok by (auto simp: return_sock_def peerAddress_def split: option.splits)
  moreover have "fst (get_idle_client_sock c m) \<noteq> Throw NullPointer"
    using Some ok
    by (auto simp: get_idle_client_sock_def client_list_ok_def peerAddress_def
        split: option.splits prod.splits)
  moreover have "\<exists>cond. get_sock_idel_condition c m = (Ret cond, m)"
    using ok by (auto simp: get_sock_idel_condition_def)
  ultimately show ?thesis
    using Some ok by (simp add: client_list_ok_def)
qed (simp add: return_sock_def get_idle_client_sock_def is_connected_def)

definition demo_sock :: sock where
  "demo_sock = \<lparr>rx = [], rx_ev = [], tx = [], tx_ev = []\<rparr>"

definition demo_resolve :: "string \<Rightarrow> int \<Rightarrow> string outcome" where
  "demo_resolve ip port = Ret (ip @ '':9025'')"

definition demo_pool :: sock_manager where
  "demo_pool = snd (connect_client demo_resolve ''A'' ''1.1.1.1'' 9025
     (new_sock_manager [Some (False, demo_sock), Some (False, demo_sock)]))"

lemma demo_pool_reachable:
  "(pool_step demo_resolve)\<^sup>*\<^sup>* (new_sock_manager [Some (False, demo_sock), Some (False, demo_sock)])
     demo_pool"
  unfolding demo_pool_def by (rule r_into_rtranclp) (rule pool_step.client)

lemma demo_pool_eq:
  "demo_pool = \<lparr>lm_server_sock_map = [], lm_client_sock_map = [(''A'', [(Some 0, IDLE)])],
     lm_condition_map = [(''A'', 0)],
     lm_socks = [\<lparr>cn_peer = ''1.1.1.1:9025'', cn_lost = False, cn_sock = demo_sock\<rparr>],
     lm_connects = [Some (False, demo_sock)]\<rparr>"
  by (simp add: demo_pool_def connect_client_def make_connection_to_def make_connection_def
      demo_resolve_def new_sock_manager_def push_sock_def sm_get_def Let_def)

theorem pool_never_asserts_witness:
  "\<exists>cond. get_sock_idel_condition ''A'' demo_pool = (Ret cond, demo_pool)"
  using pool_never_asserts [OF demo_pool_reachable, of "''A''" 0]
  by (simp add: demo_pool_eq is_connected_def)

text \<open>
  C19: no socket is ever lent to two borrowers: along any sequence of \<open>get_idle_client_sock\<close> and
  \<open>return_sock\<close> calls in which a borrower gives back only what it holds, started when nothing is
  lent, the sockets held are pairwise different and are exactly the ones marked used.
\<close>

theorem sockets_lent_once:
  assumes "(pool_step resolve)\<^sup>*\<^sup>* (new_sock_manager ev) m" and "lent m = {}"
    and "lend_run get_idle_client_sock return_sock ops (m, []) = (m', held)"
  shows "distinct (map snd held) \<and> set held = lent m'"
  using pool.run_exclusive [OF pool_reachable_inv [OF assms(1)], of "[]"] assms(2,3) by simp

theorem sockets_lent_once_witness:
  "map snd (snd (lend_run get_idle_client_sock return_sock
     [Borrow ''A'', Borrow ''A'', GiveBack ''A'' 0, Borrow ''A''] (demo_pool, []))) = [0, 1] \<and>
   distinct (map snd (snd (lend_run get_idle_client_sock return_sock
     [Borrow ''A'', Borrow ''A'', GiveBack ''A'' 0, Borrow ''A''] (demo_pool, []))))"
proof (intro conjI)
  let ?r = "lend_run get_idle_client_sock return_sock
     [Borrow ''A'', Borrow ''A'', GiveBack ''A'' 0, Borrow ''A''] (demo_pool, [])"
  show "map snd (snd ?r) = [0, 1]"
    by (simp add: demo_pool_eq get_idle_client_sock_def return_sock_def peerAddress_def
        make_connection_def push_sock_def sm_get_def MAX_CONNECTION_PER_CLIENT_def Let_def)
  have "lent demo_pool = {}" by (auto simp: lent_def demo_pool_eq)
  from sockets_lent_once [OF demo_pool_reachable this,
      of "[Borrow ''A'', Borrow ''A'', GiveBack ''A'' 0, Borrow ''A'']" "fst ?r" "snd ?r"]
  show "distinct (map snd (snd ?r))" by simp
qed

text \<open>
  The limit is compared with \<open>>\<close> where a connection is made: a client that has reached the
  limit for \<open>reach_connection_limit\<close>, with ten sockets, still gets an eleventh from
  \<open>connect_client\<close>, and only then is it refused.
\<close>

theorem eleventh_connection_made:
  assumes "sm_find (lm_client_sock_map m) c = Some l" and "resolve ip port = Ret sa"
    and "lm_connects m = Some (lost, s) # ev"
  shows "(length l = MAX_CONNECTION_PER_CLIENT \<longrightarrow>
      reach_connection_limit c m \<and> fst (connect_client resolve c ip port m) = Ret ERROR_OK \<and>
      sm_find (lm_client_sock_map (snd (connect_client resolve c ip port m))) c
        = Some (l @ [(Some (length (lm_socks m)), IDLE)])) \<and>
    (length l > MAX_CONNECTION_PER_CLIENT \<longrightarrow>
      connect_client resolve c ip port m = (Ret ERROR_NET_CONNECTION_LIMIT, m))"
  using assms
  by (auto simp: connect_client_def reach_connection_limit_def make_connection_to_def
      make_connection_def push_sock_eq Let_def)

definition full_pool :: sock_manager where
  "full_pool = \<lparr>lm_server_sock_map = [],
     lm_client_sock_map = [(''A'', map (\<lambda>h. (Some h, USED)) [0..<10])],
     lm_condition_map = [(''A'', 0)],
     lm_socks = replicate 10 \<lparr>cn_peer = ''1.1.1.1:9025'', cn_lost = False, cn_sock = demo_sock\<rparr>,
     lm_connects = [Some (False, demo_sock)]\<rparr>"

theorem eleventh_connection_made_witness:
  "reach_connection_limit ''A'' full_pool \<and>
   fst (connect_client demo_resolve ''A'' ''1.1.1.1'' 9025 full_pool) = Ret ERROR_OK"
  using eleventh_connection_made [of full_pool "''A''" "map (\<lambda>h. (Some h, USED)) [0..<10]"
      demo_resolve "''1.1.1.1''" 9025 "''1.1.1.1:9025''" False demo_sock "[]"]
  by (simp add: full_pool_def demo_resolve_def MAX_CONNECTION_PER_CLIENT_def)

end
