(* ===== verification/NetPack.thy ===== *)
theory NetPack
  imports SocketIO
begin

text \<open>
  \<open>public/netpack\<close>: a packet is a four-byte header length in network order, a protobuf
  header (payload type, payload length, message name) and the payload.  The record holds the
  fields of the class; its logger and the scratch buffer of \<open>receiveHeaderLength\<close> carry no
  state.  \<open>junk\<close> is the indeterminate value of the local \<open>headerLength\<close> of \<open>receiveFrom\<close>
  when \<open>receiveHeaderLength\<close> returns before it assigns it.
\<close>

record netpack =
  np_payloadType :: int
  np_payload :: "byte list"
  np_messageName :: string
  np_header :: netpack_header

definition new_netpack :: netpack where
  "new_netpack = \<lparr>np_payloadType = 0, np_payload = [], np_messageName = [], np_header = empty_header\<rparr>"

definition netpack_of :: "protobuf \<Rightarrow> int \<Rightarrow> message \<Rightarrow> netpack" where
  "netpack_of pb payloadType msg =
     (let payload = snd (pb_ser pb msg); name = full_name msg
      in \<lparr>np_payloadType = payloadType, np_payload = payload, np_messageName = name,
          np_header = \<lparr>h_payloadtype = Some payloadType,
            h_payloadlength = Some (to_i32 (int (length payload))), h_messagename = Some name\<rparr>\<rparr>)"

definition np_clear :: "netpack \<Rightarrow> netpack" where
  "np_clear p = p\<lparr>np_payloadType := 0, np_messageName := [], np_payload := [],
     np_header := empty_header\<rparr>"

definition set_message :: "protobuf \<Rightarrow> int \<Rightarrow> message \<Rightarrow> netpack \<Rightarrow> netpack" where
  "set_message pb payloadType msg p =
     (let p = np_clear p;
          p = p\<lparr>np_payloadType := payloadType, np_messageName := full_name msg\<rparr>;
          p = p\<lparr>np_payload := snd (pb_ser pb msg)\<rparr>
      in p\<lparr>np_header := \<lparr>h_payloadtype = Some payloadType,
             h_payloadlength = Some (to_i32 (int (length (np_payload p)))),
             h_messagename = Some (np_messageName p)\<rparr>\<rparr>)"

definition np_message :: "protobuf \<Rightarrow> netpack \<Rightarrow> message option" where
  "np_message pb p = pb_parse pb (np_messageName p) (np_payload p)"

definition sendHeaderLength :: "protobuf \<Rightarrow> netpack \<Rightarrow> sock \<Rightarrow> (retcode, sock) result" where
  "sendHeaderLength pb p s =
     (let headerLength = to_network (word_of_int (pb_header_size pb (np_header p)))
      in and_then (sendBytes headerLength s) (\<lambda>n s.
           if n = 4 then (Ret ERROR_OK, s) else (Ret ERROR_PACK_SEND_HEADER_LENGTH, s)))"

definition sendBy :: "protobuf \<Rightarrow> netpack \<Rightarrow> sock \<Rightarrow> (retcode, sock) result" where
  "sendBy pb p s =
     and_then (sendHeaderLength pb p s) (\<lambda>ret s.
       if ret \<noteq> ERROR_OK then (Ret ERROR_PACK_SEND_HEADER_LENGTH, s)
       else if \<not> fst (pb_ser_header pb (np_header p)) then (Ret ERROR_PACK_PROTO_SERIALIZE, s)
       else and_then (sendBytes (snd (pb_ser_header pb (np_header p))) s) (\<lambda>_ s.
         and_then (sendBytes (np_payload p) s) (\<lambda>bytesSend s.
           if bytesSend \<noteq> int (length (np_payload p)) then (Ret ERROR_PACK_SEND_PAYLOAD, s)
           else (Ret ERROR_OK, s))))"

definition receiveHeaderLength :: "sock \<Rightarrow> (retcode \<times> int option, sock) result" where
  "receiveHeaderLength s =
     and_then (receiveBytes 4 s) (\<lambda>buf s.
       if length buf \<noteq> 4 then
         if length buf = 0 then (Ret (ERROR_NET_GRACEFUL_SHUTDOWN, None), s)
         else (Ret (ERROR_PACK_RECV_HEADER_LENGTH, None), s)
       else (Ret (ERROR_OK, Some (sint (from_network buf))), s))"

text \<open>A socket call made by a method of the packet.\<close>

definition on_sock ::
    "(sock \<Rightarrow> ('a, sock) result) \<Rightarrow> netpack \<times> sock \<Rightarrow> ('a, netpack \<times> sock) result" where
  "on_sock f ps = (let (r, s) = f (snd ps) in (r, (fst ps, s)))"

definition receiveFrom ::
    "protobuf \<Rightarrow> int \<Rightarrow> netpack \<Rightarrow> sock \<Rightarrow> (retcode, netpack \<times> sock) result" where
  "receiveFrom pb junk p s =
     and_then (on_sock receiveHeaderLength (np_clear p, s)) (\<lambda>(ret, assigned) st.
       let headerLength = (case assigned of Some l \<Rightarrow> l | None \<Rightarrow> junk) in
       check (headerLength > 0 \<and> headerLength < 1000) st (
       if ret \<noteq> ERROR_OK then (Ret ret, st)
       else and_then (on_sock (receiveBytes headerLength) st) (\<lambda>headerBuf (p, s).
         let h = snd (pb_parse_header pb headerBuf); p = p\<lparr>np_header := h\<rparr> in
         if \<not> fst (pb_parse_header pb headerBuf) then (Ret ERROR_PACK_PROTO_PARSE, (p, s))
         else let payloadlength = int_field (h_payloadlength h) in
         if payloadlength < 0 then (Throw BadAlloc, (p, s))
         else and_then (on_sock (receiveBytes payloadlength) (p, s)) (\<lambda>buf (p, s).
           if int (length buf) \<noteq> payloadlength then (Ret ERROR_PACK_RECV_PAYLOAD, (p, s))
           else (Ret ERROR_OK, (p\<lparr>np_payload := buf,
                  np_messageName := string_field (h_messagename h),
                  np_payloadType := int_field (h_payloadtype h)\<rparr>, s))))))"

section \<open>Frames\<close>

text \<open>
  What the sources rely on in protobuf, at one header: it serialises, \<open>ByteSize\<close> is the number
  of bytes, and parsing the bytes gives the header back.
\<close>

definition header_codec :: "protobuf \<Rightarrow> netpack_header \<Rightarrow> bool" where
  "header_codec pb h \<longleftrightarrow>
     fst (pb_ser_header pb h) \<and>
     pb_header_size pb h = int (length (snd (pb_ser_header pb h))) \<and>
     pb_parse_header pb (snd (pb_ser_header pb h)) = (True, h)"

text \<open>The assertion of \<open>receiveFrom\<close> bounds the header a receiver accepts.\<close>

definition header_fits :: "protobuf \<Rightarrow> netpack_header \<Rightarrow> bool" where
  "header_fits pb h \<longleftrightarrow>
     0 < length (snd (pb_ser_header pb h)) \<and> length (snd (pb_ser_header pb h)) < 1000"

text \<open>A packet whose header announces its contents.\<close>

definition np_wf :: "netpack \<Rightarrow> bool" where
  "np_wf p \<longleftrightarrow>
     np_header p = \<lparr>h_payloadtype = Some (np_payloadType p),
       h_payloadlength = Some (int (length (np_payload p))),
       h_messagename = Some (np_messageName p)\<rparr>"

definition frame :: "protobuf \<Rightarrow> netpack \<Rightarrow> byte list" where
  "frame pb p =
     to_network (word_of_int (pb_header_size pb (np_header p)))
       @ snd (pb_ser_header pb (np_header p)) @ np_payload p"

lemma set_message_eq: "set_message pb t msg p = netpack_of pb t msg"
  by (cases p) (simp add: set_message_def netpack_of_def np_clear_def Let_def)

lemma np_wf_netpack_of:
  "length (snd (pb_ser pb msg)) < 2 ^ 31 \<Longrightarrow> np_wf (netpack_of pb t msg)"
  by (simp add: np_wf_def netpack_of_def Let_def)

lemma netpack_of_fields [simp]:
  "np_payloadType (netpack_of pb t msg) = t"
  "np_messageName (netpack_of pb t msg) = full_name msg"
  "np_payload (netpack_of pb t msg) = snd (pb_ser pb msg)"
  by (simp_all add: netpack_of_def Let_def)

lemma on_sock_simps [simp, call_simps]:
  "f s = (r, s') \<Longrightarrow> on_sock f (p, s) = (r, (p, s'))"
  by (simp add: on_sock_def)

lemma sendBy_frame:
  assumes "header_codec pb (np_header p)" and "tx_ev s = []"
  shows "sendBy pb p s = (Ret ERROR_OK, s\<lparr>tx := tx s @ frame pb p\<rparr>)"
  using assms
  by (simp add: sendBy_def sendHeaderLength_def sendBytes_all header_codec_def frame_def Let_def)

lemma receiveHeaderLength_frame:
  assumes "rx_ev s = []" and "rx s = to_network (word_of_int l) @ r"
    and "0 \<le> l" and "l < 2 ^ 31"
  shows "receiveHeaderLength s = (Ret (ERROR_OK, Some l), s\<lparr>rx := r\<rparr>)"
proof -
  have "sint (word_of_int l :: 32 word) = l"
    using assms(3,4) by (simp add: sint_sbintrunc' signed_take_bit_int_eq_self_iff)
  then show ?thesis
    using receiveBytes_exact [of s 4 "to_network (word_of_int l)" r] assms(1,2)
    by (simp add: receiveHeaderLength_def)
qed

lemma receiveFrom_frame:
  assumes codec: "header_codec pb (np_header p)" and fits: "header_fits pb (np_header p)"
    and wf: "np_wf p" and ev: "rx_ev s = []" and rx: "rx s = frame pb p @ r"
  shows "receiveFrom pb junk q s = (Ret ERROR_OK, (p, s\<lparr>rx := r\<rparr>))"
proof -
  define l where "l = int (length (snd (pb_ser_header pb (np_header p))))"
  define s1 where "s1 = s\<lparr>rx := snd (pb_ser_header pb (np_header p)) @ np_payload p @ r\<rparr>"
  define s2 where "s2 = s\<lparr>rx := np_payload p @ r\<rparr>"
  have l: "0 < l" "l < 1000" "pb_header_size pb (np_header p) = l"
    using codec fits by (simp_all add: l_def header_codec_def header_fits_def)
  have "receiveHeaderLength s = (Ret (ERROR_OK, Some l), s1)"
    using receiveHeaderLength_frame [of s l "rx s1"] ev rx l by (simp add: frame_def s1_def)
  moreover have "receiveBytes l s1 = (Ret (snd (pb_ser_header pb (np_header p))), s2)"
    by (subst receiveBytes_exact) (simp_all add: s1_def s2_def ev l_def)
  moreover have "receiveBytes (int (length (np_payload p))) s2 = (Ret (np_payload p), s\<lparr>rx := r\<rparr>)"
    by (subst receiveBytes_exact) (simp_all add: s2_def ev)
  moreover have "pb_parse_header pb (snd (pb_ser_header pb (np_header p))) = (True, np_header p)"
    using codec by (simp add: header_codec_def)
  ultimately show ?thesis
    using l wf by (cases p) (simp add: receiveFrom_def np_wf_def np_clear_def Let_def)
qed

text \<open>A socket on which a whole packet of the peer waits.\<close>

definition request_waiting :: "protobuf \<Rightarrow> int \<Rightarrow> message \<Rightarrow> sock \<Rightarrow> bool" where
  "request_waiting pb t msg s \<longleftrightarrow>
     (let p = netpack_of pb t msg in
        rx_ev s = [] \<and> header_codec pb (np_header p) \<and> header_fits pb (np_header p) \<and> np_wf p \<and>
        np_message pb p = Some msg \<and> (\<exists>behind. rx s = frame pb p @ behind))"

lemma receive_waiting:
  assumes "request_waiting pb t msg s"
  obtains s' where "receiveFrom pb junk q s = (Ret ERROR_OK, (netpack_of pb t msg, s'))"
    and "tx s' = tx s" and "tx_ev s' = tx_ev s" and "np_message pb (netpack_of pb t msg) = Some msg"
proof -
  let ?p = "netpack_of pb t msg"
  from assms obtain behind where rx: "rx s = frame pb ?p @ behind"
    and p: "header_codec pb (np_header ?p)" "header_fits pb (np_header ?p)" "np_wf ?p" "rx_ev s = []"
    and msg: "np_message pb ?p = Some msg"
    by (auto simp: request_waiting_def Let_def)
  from receiveFrom_frame [OF p rx, of junk q] show ?thesis
    using msg by (intro that [of "s\<lparr>rx := behind\<rparr>"]) simp_all
qed

section \<open>What a successful call did\<close>

lemma receiveHeaderLength_OK:
  assumes "receiveHeaderLength s = (Ret (ERROR_OK, a), t)"
  shows "\<exists>b. rx s = b @ rx t \<and> length b = 4 \<and> a = Some (sint (from_network b))"
proof -
  from assms obtain b where b: "receiveBytes 4 s = (Ret b, t)"
    and "length b = 4" "a = Some (sint (from_network b))"
    by (auto simp: receiveHeaderLength_def and_then_eq_Ret split: if_splits)
  with receiveBytes_Ret [OF b] show ?thesis by metis
qed

lemma receiveHeaderLength_None:
  "receiveHeaderLength s = (Ret (r, a), t) \<Longrightarrow> r = ERROR_OK \<longleftrightarrow> a \<noteq> None"
  by (auto simp: receiveHeaderLength_def and_then_eq_Ret split: if_splits)

lemma on_sock_Ret:
  "on_sock f (p, s) = (Ret x, st) \<longleftrightarrow> (\<exists>t. f s = (Ret x, t) \<and> st = (p, t))"
  by (auto simp: on_sock_def split: prod.splits)

lemma receiveFrom_OK:
  assumes "receiveFrom pb junk q s = (Ret ERROR_OK, (p, t))"
  obtains b hb where "rx s = b @ hb @ np_payload p @ rx t" and "length b = 4"
    and "0 < sint (from_network b)" and "sint (from_network b) < 1000"
    and "int (length hb) \<le> sint (from_network b)"
    and "pb_parse_header pb hb = (True, np_header p)"
    and "int_field (h_payloadlength (np_header p)) = int (length (np_payload p))"
    and "np_messageName p = string_field (h_messagename (np_header p))"
    and "np_payloadType p = int_field (h_payloadtype (np_header p))"
proof -
  obtain a s1 where h: "receiveHeaderLength s = (Ret (ERROR_OK, a), s1)"
    using assms receiveHeaderLength_None
    by (fastforce simp: receiveFrom_def and_then_eq_Ret on_sock_Ret check_eq_Ret
        split: if_splits prod.splits)
  obtain b where b: "rx s = b @ rx s1" "length b = 4" "a = Some (sint (from_network b))"
    using receiveHeaderLength_OK [OF h] by blast
  obtain hb s2 where hb: "receiveBytes (sint (from_network b)) s1 = (Ret hb, s2)"
      "0 < sint (from_network b)" "sint (from_network b) < 1000"
    and rest: "pb_parse_header pb hb = (True, np_header p)"
      "int_field (h_payloadlength (np_header p)) = int (length (np_payload p))"
      "np_messageName p = string_field (h_messagename (np_header p))"
      "np_payloadType p = int_field (h_payloadtype (np_header p))"
      "receiveBytes (int (length (np_payload p))) s2 = (Ret (np_payload p), t)"
    using assms h b(3)
    by (auto simp: receiveFrom_def and_then_eq_Ret on_sock_Ret check_eq_Ret Let_def
        prod_eq_iff [where s = "pb_parse_header pb h" for h]
        split: if_splits)
  have "rx s1 = hb @ rx s2" "int (length hb) \<le> sint (from_network b)"
    using receiveBytes_Ret [OF hb(1)] hb(2) by auto
  moreover have "rx s2 = np_payload p @ rx t"
    using receiveBytes_Ret [OF rest(5)] by simp
  ultimately show thesis
    using that [of b hb] b hb(2,3) rest(1-4) by simp
qed

section \<open>Properties\<close>


definition sample_reply :: message where
  "sample_reply = MessageReplyMsg \<lparr>mr_returncode = Some 0\<rparr>"

definition idle_sock :: "byte list \<Rightarrow> sock" where
  "idle_sock bs = \<lparr>rx = bs, rx_ev = [], tx = [], tx_ev = []\<rparr>"

definition sample_packet :: netpack where
  "sample_packet = netpack_of (sample_pb [sample_reply]) PAYLOAD_MESSAGE_REPLY sample_reply"

lemma sample_packet_codec:
  "header_codec (sample_pb [sample_reply]) (np_header sample_packet)"
  by (simp add: header_codec_def sample_packet_def netpack_of_def Let_def sample_reply_def
      payload_defs) (simp add: sample_defs)

lemma sample_packet_fits:
  "header_fits (sample_pb [sample_reply]) (np_header sample_packet)"
  by (simp add: header_fits_def sample_packet_def netpack_of_def Let_def sample_reply_def
      payload_defs) (simp add: sample_defs)

lemma sample_packet_wf: "np_wf sample_packet"
  unfolding sample_packet_def by (rule np_wf_netpack_of) (simp add: sample_pb_def)


text \<open>
  When \<open>receiveFrom\<close> reports success it has read exactly one packet: four bytes that
  announce a header of 1 to 999 bytes, at most that many header bytes that parse, and exactly
  the payload the header announces; nothing behind the payload is consumed.
\<close>

theorem receive_consumes_one_packet:
  assumes "receiveFrom pb junk q s = (Ret ERROR_OK, (p, t))"
  shows "\<exists>len hdr. rx s = len @ hdr @ np_payload p @ rx t \<and> length len = 4 \<and>
    0 < sint (from_network len) \<and> sint (from_network len) < 1000 \<and>
    int (length hdr) \<le> sint (from_network len) \<and>
    pb_parse_header pb hdr = (True, np_header p) \<and>
    int_field (h_payloadlength (np_header p)) = int (length (np_payload p)) \<and>
    np_payloadType p = int_field (h_payloadtype (np_header p)) \<and>
    np_messageName p = string_field (h_messagename (np_header p))"
  using receiveFrom_OK [OF assms] by metis

theorem receive_consumes_one_packet_witness:
  "\<exists>len hdr. frame (sample_pb [sample_reply]) sample_packet @ [7] = len @ hdr @ [0] @ [7]"
proof -
  have recv: "receiveFrom (sample_pb [sample_reply]) 0 new_netpack
      (idle_sock (frame (sample_pb [sample_reply]) sample_packet @ [7]))
      = (Ret ERROR_OK, (sample_packet, (idle_sock [])\<lparr>rx := [7]\<rparr>))"
    by (subst receiveFrom_frame [OF sample_packet_codec sample_packet_fits sample_packet_wf])
      (simp_all add: idle_sock_def)
  have "np_payload sample_packet = [0]"
    by (simp add: sample_packet_def sample_pb_def)
  with receive_consumes_one_packet [OF recv] show ?thesis
    by (auto simp: idle_sock_def)
qed

text \<open>
  A peer that closes the connection between packets is reported as
  \<open>ERROR_NET_GRACEFUL_SHUTDOWN\<close> only when the uninitialised local \<open>headerLength\<close> happens to
  lie in 1..999; for any other value the range assertion, which stands before the test of the
  return code, throws.
\<close>

theorem graceful_close_depends_on_junk:
  assumes "rx s = []" and "rx_ev s = []"
  shows "fst (receiveFrom pb junk q s) =
    (if 0 < junk \<and> junk < 1000 then Ret ERROR_NET_GRACEFUL_SHUTDOWN else Throw AssertionViolation)"
proof -
  have "receiveHeaderLength s = (Ret (ERROR_NET_GRACEFUL_SHUTDOWN, None), s)"
    using assms by (cases s) (simp add: receiveHeaderLength_def receiveBytes_def)
  then show ?thesis by (simp add: receiveFrom_def check_def)
qed

theorem graceful_close_depends_on_junk_witness:
  "fst (receiveFrom (sample_pb []) 0 new_netpack (idle_sock [])) = Throw AssertionViolation \<and>
   fst (receiveFrom (sample_pb []) 1 new_netpack (idle_sock [])) = Ret ERROR_NET_GRACEFUL_SHUTDOWN"
  using graceful_close_depends_on_junk [of "idle_sock []" "sample_pb []" 0 new_netpack]
    graceful_close_depends_on_junk [of "idle_sock []" "sample_pb []" 1 new_netpack]
  by (simp add: idle_sock_def)

text \<open>
  A packet whose payload arrives in two pieces is refused with
  \<open>ERROR_PACK_RECV_PAYLOAD\<close> although every byte of it arrives: \<open>receiveFrom\<close> reads the payload
  with a single call, and leaves the rest of the payload to be taken for the next packet.
\<close>

theorem split_payload_refused:
  assumes "header_codec pb (np_header p)" and "header_fits pb (np_header p)" and "np_wf p"
    and "rx s = frame pb p @ r" and "0 < k" and "k < length (np_payload p)"
    and "rx_ev s = [Io 4, Io (length (snd (pb_ser_header pb (np_header p)))), Io k]"
  shows "fst (receiveFrom pb junk q s) = Ret ERROR_PACK_RECV_PAYLOAD \<and>
    rx (snd (snd (receiveFrom pb junk q s))) = drop k (np_payload p) @ r"
proof -
  define h where "h = snd (pb_ser_header pb (np_header p))"
  define l where "l = int (length h)"
  have l: "0 < l" "l < 1000" "pb_header_size pb (np_header p) = l"
      "pb_parse_header pb h = (True, np_header p)"
    using assms(1,2) by (simp_all add: l_def h_def header_codec_def header_fits_def)
  have "sint (word_of_int l :: 32 word) = l"
    using l by (simp add: sint_sbintrunc' signed_take_bit_int_eq_self_iff)
  then have "receiveHeaderLength s = (Ret (ERROR_OK, Some l),
      s\<lparr>rx := h @ np_payload p @ r, rx_ev := [Io (length h), Io k]\<rparr>)"
    using assms(4,7) l by (simp add: receiveHeaderLength_def receiveBytes_def frame_def h_def)
  moreover have "receiveBytes l (s\<lparr>rx := h @ np_payload p @ r, rx_ev := [Io (length h), Io k]\<rparr>) =
      (Ret h, s\<lparr>rx := np_payload p @ r, rx_ev := [Io k]\<rparr>)"
    using l by (simp add: receiveBytes_def l_def Let_def)
  moreover have "receiveBytes (int (length (np_payload p))) (s\<lparr>rx := np_payload p @ r, rx_ev := [Io k]\<rparr>) =
      (Ret (take k (np_payload p)), s\<lparr>rx := drop k (np_payload p) @ r, rx_ev := []\<rparr>)"
    using assms(5,6) by (simp add: receiveBytes_def Let_def)
  ultimately show ?thesis
    using assms(3,6) l by (simp add: receiveFrom_def np_wf_def Let_def)
qed

definition three_bytes :: netpack where
  "three_bytes = \<lparr>np_payloadType = 1, np_payload = [10, 11, 12], np_messageName = [],
     np_header = \<lparr>h_payloadtype = Some 1, h_payloadlength = Some 3, h_messagename = Some []\<rparr>\<rparr>"

lemma three_bytes_ok:
  "header_codec (sample_pb []) (np_header three_bytes)"
  "header_fits (sample_pb []) (np_header three_bytes)" "np_wf three_bytes"
  by (simp add: header_codec_def three_bytes_def, simp add: sample_defs)
    (simp_all add: header_fits_def np_wf_def three_bytes_def sample_defs)

theorem split_payload_refused_witness:
  "fst (receiveFrom (sample_pb []) 0 new_netpack
     ((idle_sock (frame (sample_pb []) three_bytes))\<lparr>rx_ev := [Io 4,
       Io (length (snd (pb_ser_header (sample_pb []) (np_header three_bytes)))), Io 2]\<rparr>))
   = Ret ERROR_PACK_RECV_PAYLOAD"
  using split_payload_refused [OF three_bytes_ok, where r = "[]" and k = 2]
  by (simp add: idle_sock_def three_bytes_def)

text \<open>
  What \<open>sendBy\<close> guarantees when it returns \<open>ERROR_OK\<close>: the length word and the whole
  payload went out, but of the header only some prefix, because the number of bytes sent for
  the header is never compared with its length.
\<close>

theorem sendBy_OK_guarantee:
  assumes "sendBy pb p s = (Ret ERROR_OK, t)"
  shows "\<exists>k \<le> length (snd (pb_ser_header pb (np_header p))).
    tx t = tx s @ to_network (word_of_int (pb_header_size pb (np_header p)))
      @ take k (snd (pb_ser_header pb (np_header p))) @ np_payload p"
proof -
  define hb where "hb = snd (pb_ser_header pb (np_header p))"
  define len where "len = to_network (word_of_int (pb_header_size pb (np_header p)))"
  obtain s1 s2 n where s1: "sendBytes len s = (Ret 4, s1)" and s2: "sendBytes hb s1 = (Ret n, s2)"
    and s3: "sendBytes (np_payload p) s2 = (Ret (int (length (np_payload p))), t)"
    using assms
    by (auto simp: sendBy_def sendHeaderLength_def and_then_eq_Ret Let_def len_def hb_def
        split: if_splits)
  have "tx s1 = tx s @ len"
    using sendBytes_prefix [OF s1] by (simp add: len_def)
  moreover have "tx s2 = tx s1 @ take (nat n) hb" and "nat n \<le> length hb"
    using sendBytes_prefix [OF s2] by auto
  moreover have "tx t = tx s2 @ np_payload p"
    using sendBytes_prefix [OF s3] by simp
  ultimately show ?thesis
    unfolding hb_def [symmetric] len_def [symmetric] by (intro exI [of _ "nat n"]) simp
qed

theorem sendBy_OK_guarantee_witness:
  "\<exists>t. sendBy (sample_pb []) three_bytes ((idle_sock [])\<lparr>tx_ev := [Io 4, Io 2]\<rparr>) = (Ret ERROR_OK, t) \<and>
     tx t = [0, 0, 0, 11] @ [1, 1] @ [10, 11, 12] \<and>
     (\<exists>k \<le> length (snd (pb_ser_header (sample_pb []) (np_header three_bytes))).
       tx t = to_network (word_of_int (pb_header_size (sample_pb []) (np_header three_bytes)))
         @ take k (snd (pb_ser_header (sample_pb []) (np_header three_bytes))) @ np_payload three_bytes)"
proof -
  let ?s = "(idle_sock [])\<lparr>tx_ev := [Io 4, Io 2]\<rparr>"
  let ?t = "(idle_sock [])\<lparr>tx := [0, 0, 0, 11, 1, 1, 10, 11, 12]\<rparr>"
  have send: "sendBy (sample_pb []) three_bytes ?s = (Ret ERROR_OK, ?t)"
    by (simp add: sendBy_def sendHeaderLength_def sendBytes_def three_bytes_def idle_sock_def
        sample_defs to_network_def Let_def)
  from sendBy_OK_guarantee [OF send] send show ?thesis
    by (intro exI [of _ ?t]) (simp add: idle_sock_def)
qed

end
