(* ===== verification/JobInfo.thy ===== *)
theory JobInfo
  imports Messages
begin

text \<open>
  \<open>client/src/job_info.cc\<close> with \<open>proto/torrent.proto\<close>: the torrent, the view of its files by
  fileid (\<open>TorrentInfo\<close>), the files on disk (\<open>LocalFileInfo\<close>), the download state
  (\<open>DownloadInfo\<close>) and the job's data built from them (\<open>JobInfo\<close>).  A \<open>SharedPtr\<close> that may be
  null is an option.
\<close>

section \<open>Torrents\<close>

record chunk =
  ck_checksum :: string
  ck_size :: int

record torrent_file =
  tf_checksum :: string
  tf_relativepath :: string
  tf_filename :: string
  tf_size :: int
  tf_chunk :: "chunk list"

record torrent =
  to_torrentid :: string
  to_type :: int
  to_totalsize :: int
  to_createby :: string
  to_createtime :: string
  to_trackeraddress :: string
  to_file :: "torrent_file list"

record file_identity =
  id_relative_path :: string
  id_filename :: string

definition identity_eq :: "file_identity \<Rightarrow> file_identity \<Rightarrow> bool" where
  "identity_eq lhs rhs \<longleftrightarrow>
     id_relative_path lhs = id_relative_path rhs \<and> id_filename lhs = id_filename rhs"

section \<open>TorrentFileInfo\<close>

record torrent_file_info =
  tfi_file :: torrent_file
  tfi_chunk_count :: int
  tfi_fileid :: string

definition torrent_file_info_of :: "torrent_file \<Rightarrow> torrent_file_info" where
  "torrent_file_info_of file =
     \<lparr>tfi_file = file, tfi_chunk_count = int (length (tf_chunk file)), tfi_fileid = tf_checksum file\<rparr>"

definition chunk_get :: "torrent_file_info \<Rightarrow> int \<Rightarrow> chunk outcome" where
  "chunk_get t pos =
     (if 0 \<le> pos \<and> pos < int (length (tf_chunk (tfi_file t)))
      then Ret (tf_chunk (tfi_file t) ! nat pos) else Throw Undefined)"

definition chunk_checksum :: "torrent_file_info \<Rightarrow> int \<Rightarrow> string outcome" where
  "chunk_checksum t chunk_pos =
     (if chunk_pos \<ge> tfi_chunk_count t then Ret []
      else case chunk_get t chunk_pos of Ret c \<Rightarrow> Ret (ck_checksum c) | Throw e \<Rightarrow> Throw e)"

definition chunk_offset :: "torrent_file_info \<Rightarrow> int \<Rightarrow> u64 outcome" where
  "chunk_offset t chunk_pos =
     (if chunk_pos \<ge> tfi_chunk_count t then Ret 0
      else case chunk_get t 0 of
        Ret c \<Rightarrow> Ret (word_of_int (ck_size c) * word_of_int chunk_pos) | Throw e \<Rightarrow> Throw e)"

definition chunk_size :: "torrent_file_info \<Rightarrow> int \<Rightarrow> int outcome" where
  "chunk_size t chunk_pos =
     (if chunk_pos \<ge> tfi_chunk_count t then Ret (-1)
      else case chunk_get t chunk_pos of Ret c \<Rightarrow> Ret (ck_size c) | Throw e \<Rightarrow> Throw e)"

section \<open>TorrentInfo\<close>

record torrent_info =
  ti_torrent :: torrent
  ti_file_count :: int
  ti_fileMap :: "(string, torrent_file_info list) smap"

definition file_map_add ::
    "(string, torrent_file_info list) smap \<Rightarrow> torrent_file
      \<Rightarrow> (string, torrent_file_info list) smap" where
  "file_map_add m file =
     (let (infos, m) = sm_get [] (tf_checksum file) m
      in sm_set (tf_checksum file) (infos @ [torrent_file_info_of file]) m)"

definition torrent_info_of :: "torrent \<Rightarrow> torrent_info" where
  "torrent_info_of t =
     \<lparr>ti_torrent = t, ti_file_count = int (length (to_file t)),
      ti_fileMap = foldl file_map_add [] (to_file t)\<rparr>"

definition get_one_file_of_same_fileid :: "torrent_info \<Rightarrow> string \<Rightarrow> torrent_file_info outcome" where
  "get_one_file_of_same_fileid ti fileid =
     (case sm_find (ti_fileMap ti) fileid of
        None \<Rightarrow> Throw AssertionViolation
      | Some infos \<Rightarrow>
          if length infos \<ge> 1 then Ret (infos ! 0) else Throw AssertionViolation)"

definition tracker_address :: "torrent_info \<Rightarrow> string" where
  "tracker_address ti = to_trackeraddress (ti_torrent ti)"

definition torrentid :: "torrent_info \<Rightarrow> string" where
  "torrentid ti = to_torrentid (ti_torrent ti)"

section \<open>LocalFileInfo\<close>

text \<open>
  The part of the file system the client writes: file contents by path, and the paths the
  operating system refuses (a call on them throws a Poco exception).
\<close>

record disk =
  d_files :: "string \<Rightarrow> byte list option"
  d_refused :: "string \<Rightarrow> bool"

definition createDirectories :: "string \<Rightarrow> disk \<Rightarrow> (unit, disk) result" where
  "createDirectories path d = (if d_refused d path then (Throw FileException, d) else (Ret (), d))"

definition createFile :: "string \<Rightarrow> disk \<Rightarrow> (bool, disk) result" where
  "createFile path d =
     (if d_refused d path then (Throw FileException, d)
      else case d_files d path of
        Some _ \<Rightarrow> (Ret False, d)
      | None \<Rightarrow> (Ret True, d\<lparr>d_files := (d_files d)(path \<mapsto> [])\<rparr>))"

definition setSize :: "string \<Rightarrow> int \<Rightarrow> disk \<Rightarrow> (unit, disk) result" where
  "setSize path n d =
     (case d_files d path of
        None \<Rightarrow> (Throw FileException, d)
      | Some bs \<Rightarrow> (Ret (), d\<lparr>d_files := (d_files d)(path \<mapsto>
          take (nat n) bs @ replicate (nat n - length bs) 0)\<rparr>))"

record local_file_info =
  lf_top_path :: string
  lf_files :: "(string, string) smap"
  lf_same_files :: "(string, string list) smap"

definition local_file_info_of :: "string \<Rightarrow> local_file_info" where
  "local_file_info_of top_path = \<lparr>lf_top_path = top_path, lf_files = [], lf_same_files = []\<rparr>"

definition add_file ::
    "string \<Rightarrow> string \<Rightarrow> string \<Rightarrow> int \<Rightarrow> local_file_info \<Rightarrow> disk
      \<Rightarrow> retcode \<times> local_file_info \<times> disk" where
  "add_file fileid relative_path filename filesize lf d =
     (let filepath = lf_top_path lf @ relative_path @ filename;
          (paths, same) = sm_get [] fileid (lf_same_files lf);
          paths = paths @ [filepath];
          lf = lf\<lparr>lf_same_files := sm_set fileid paths same\<rparr>
      in if length paths > 1 then (ERROR_OK, lf, d)
         else case createDirectories (lf_top_path lf @ relative_path) d of
           (Throw e, d) \<Rightarrow> (ERROR_UNKNOWN, lf, d)
         | (Ret _, d) \<Rightarrow>
             (let lf = lf\<lparr>lf_files := sm_set fileid filepath (lf_files lf)\<rparr>
              in if d_files d filepath = None then
                   (case createFile filepath d of
                      (Throw e, d) \<Rightarrow> (ERROR_UNKNOWN, lf, d)
                    | (Ret created, d) \<Rightarrow>
                        if created then
                          (case setSize filepath filesize d of
                             (Throw e, d) \<Rightarrow> (ERROR_UNKNOWN, lf, d)
                           | (Ret _, d) \<Rightarrow> (ERROR_OK, lf, d))
                        else (ERROR_OK, lf, d))
                 else (ERROR_OK, lf, d)))"

definition get_file :: "string \<Rightarrow> local_file_info \<Rightarrow> string option" where
  "get_file fileid lf = sm_find (lf_files lf) fileid"

definition has_local_file ::
    "string \<Rightarrow> string \<Rightarrow> string \<Rightarrow> local_file_info \<Rightarrow> bool \<times> local_file_info" where
  "has_local_file fileid relative_path filename lf =
     (case sm_find (lf_files lf) fileid of
        None \<Rightarrow> (False, lf)
      | Some _ \<Rightarrow>
          let (paths, same) = sm_get [] fileid (lf_same_files lf)
          in (lf_top_path lf @ relative_path @ filename \<in> set paths, lf\<lparr>lf_same_files := same\<rparr>))"

definition has_file :: "string \<Rightarrow> local_file_info \<Rightarrow> bool" where
  "has_file fileid lf = (sm_find (lf_files lf) fileid \<noteq> None)"

section \<open>Owners and download state\<close>

record file_owner =
  fo_clientid :: string
  fo_ip :: string
  fo_message_port :: int
  fo_percentage :: int
  fo_bitmap :: bitset

definition file_owner_of :: "string \<Rightarrow> string \<Rightarrow> int \<Rightarrow> int \<Rightarrow> file_owner" where
  "file_owner_of clientid ip port percentage =
     \<lparr>fo_clientid = clientid, fo_ip = ip, fo_message_port = port, fo_percentage = percentage,
      fo_bitmap = []\<rparr>"

record download_info =
  is_job_removed :: bool
  is_stopped :: bool
  is_download_paused :: bool
  is_upload_paused :: bool
  bytes_upload_this_second :: u64
  bytes_download_this_second :: u64
  upload_speed_limit :: u64
  download_speed_limit :: u64
  upload_total :: u64
  download_total :: u64
  time_to_next_report :: int
  percentage_map :: "(string, int) smap"
  bitmap_map :: "(string, bitset option) smap"

definition report_period :: int where
  "report_period = 30"

text \<open>
  The constructor initialises every field but \<open>upload_total\<close> and \<open>download_total\<close>, which keep
  the indeterminate values passed here.
\<close>

definition download_info_init :: "u64 \<Rightarrow> u64 \<Rightarrow> download_info" where
  "download_info_init junk_up junk_down =
     \<lparr>is_job_removed = False, is_stopped = True, is_download_paused = True, is_upload_paused = True,
      bytes_upload_this_second = 0, bytes_download_this_second = 0,
      upload_speed_limit = 2 ^ 30, download_speed_limit = 2 ^ 30,
      upload_total = junk_up, download_total = junk_down,
      time_to_next_report = report_period, percentage_map = [], bitmap_map = []\<rparr>"

section \<open>JobInfo\<close>

record job_info =
  ji_fileidlist :: "string list"
  ji_localFileInfo :: local_file_info
  ji_ownerInfoMap :: "(string, file_owner list) smap"
  ji_downloadInfo :: download_info
  ji_torrentInfo :: torrent_info

definition needs_file :: "file_identity list \<Rightarrow> torrent_file \<Rightarrow> bool" where
  "needs_file needs file =
     list_ex (identity_eq \<lparr>id_relative_path = tf_relativepath file, id_filename = tf_filename file\<rparr>)
       needs"

definition job_add_file :: "file_identity list \<Rightarrow> job_info \<times> disk \<Rightarrow> torrent_file \<Rightarrow> job_info \<times> disk" where
  "job_add_file needs jd file =
     (if \<not> needs_file needs file then jd
      else let (ji, d) = jd;
               fileid = tf_checksum file;
               di = ji_downloadInfo ji;
               di = di\<lparr>percentage_map := sm_set fileid 0 (percentage_map di)\<rparr>;
               di = di\<lparr>bitmap_map :=
                 sm_set fileid (Some (bs_new (length (tf_chunk file)))) (bitmap_map di)\<rparr>;
               (_, lf, d) = add_file fileid (tf_relativepath file) (tf_filename file) (tf_size file)
                 (ji_localFileInfo ji) d
           in (ji\<lparr>ji_downloadInfo := di, ji_localFileInfo := lf,
                  ji_fileidlist := ji_fileidlist ji @ [fileid]\<rparr>, d))"

definition job_info_of ::
    "u64 \<Rightarrow> u64 \<Rightarrow> torrent \<Rightarrow> string \<Rightarrow> file_identity list \<Rightarrow> disk \<Rightarrow> job_info \<times> disk" where
  "job_info_of junk_up junk_down t top_path needs d =
     foldl (job_add_file needs)
       (\<lparr>ji_fileidlist = [], ji_localFileInfo = local_file_info_of top_path, ji_ownerInfoMap = [],
         ji_downloadInfo = download_info_init junk_up junk_down,
         ji_torrentInfo = torrent_info_of t\<rparr>, d)
       (to_file t)"

definition UniqueFileidList :: "job_info \<Rightarrow> string list" where
  "UniqueFileidList ji = set_to_list (ji_fileidlist ji)"

section \<open>Lemmas: the file map\<close>

lemma file_map_add_find:
  "sm_find (file_map_add m f) c =
     (if c = tf_checksum f
      then Some ((case sm_find m c of Some xs \<Rightarrow> xs | None \<Rightarrow> []) @ [torrent_file_info_of f])
      else sm_find m c)"
  by (auto simp: file_map_add_def sm_get_def sm.find_set split: option.splits)

lemma file_map_find:
  "sm_find (foldl file_map_add [] fs) c =
     (let same = filter (\<lambda>f. tf_checksum f = c) fs
      in if same = [] then None else Some (map torrent_file_info_of same))"
  by (induction fs rule: rev_induct) (auto simp: file_map_add_find Let_def)

lemma file_map_ok: "sm_ok (foldl file_map_add [] fs)"
  by (induction fs rule: rev_induct)
    (auto simp: file_map_add_def sm_get_def sm.ok_empty intro!: sm.ok_set split: option.splits)

lemma get_one_file_eq:
  "get_one_file_of_same_fileid (torrent_info_of t) c =
     (case filter (\<lambda>f. tf_checksum f = c) (to_file t) of
        [] \<Rightarrow> Throw AssertionViolation | f # _ \<Rightarrow> Ret (torrent_file_info_of f))"
  by (auto simp: get_one_file_of_same_fileid_def torrent_info_of_def file_map_find Let_def
      split: list.splits)

section \<open>Lemmas: the files on disk\<close>

lemma createFile_keeps:
  "d_files d p = Some bs \<Longrightarrow> d_files (snd (createFile q d)) p = Some bs"
  by (auto simp: createFile_def split: option.splits)

lemma add_file_paths:
  "add_file fid rel name fsize lf d = (r, lf', d') \<Longrightarrow>
     lf_same_files lf' = sm_set fid ((case sm_find (lf_same_files lf) fid of Some ps \<Rightarrow> ps | None \<Rightarrow> [])
        @ [lf_top_path lf @ rel @ name])
       (case sm_find (lf_same_files lf) fid of Some _ \<Rightarrow> lf_same_files lf
        | None \<Rightarrow> sm_set fid [] (lf_same_files lf)) \<and>
     lf_top_path lf' = lf_top_path lf"
  by (auto simp: add_file_def sm_get_def Let_def split: option.splits if_splits prod.splits outcome.splits)

lemma add_file_find_paths:
  "add_file fid rel name fsize lf d = (r, lf', d') \<Longrightarrow>
     sm_find (lf_same_files lf') g =
       (if g = fid
        then Some ((case sm_find (lf_same_files lf) fid of Some ps \<Rightarrow> ps | None \<Rightarrow> [])
               @ [lf_top_path lf @ rel @ name])
        else sm_find (lf_same_files lf) g)"
  by (drule add_file_paths) (auto simp: sm.find_set split: option.splits)

lemma add_file_disk_cases:
  assumes "add_file fid rel name fsize lf d = (r, lf', d')"
  shows "d_refused d' = d_refused d \<and>
    (d' = d \<or> d_files d (lf_top_path lf @ rel @ name) = None \<and>
       d_files d' = (d_files d)(lf_top_path lf @ rel @ name \<mapsto> replicate (nat fsize) 0))"
  using assms
  by (auto simp: add_file_def createDirectories_def createFile_def setSize_def sm_get_def Let_def
      split: option.splits if_splits)

text \<open>Whether the first add of a fileid succeeds, and what it records.\<close>

definition path_refused :: "local_file_info \<Rightarrow> string \<Rightarrow> string \<Rightarrow> disk \<Rightarrow> bool" where
  "path_refused lf rel name d \<longleftrightarrow>
     d_refused d (lf_top_path lf @ rel) \<or> d_refused d (lf_top_path lf @ rel @ name)"

lemma add_file_first:
  assumes "\<not> path_refused lf rel name d" and "sm_find (lf_same_files lf) fid = None"
  shows "\<exists>lf' d'. add_file fid rel name fsize lf d = (ERROR_OK, lf', d') \<and>
    lf_files lf' = sm_set fid (lf_top_path lf @ rel @ name) (lf_files lf) \<and>
    d_files d' (lf_top_path lf @ rel @ name) =
      Some (case d_files d (lf_top_path lf @ rel @ name) of
              Some bs \<Rightarrow> bs | None \<Rightarrow> replicate (nat fsize) 0)"
  using assms
  by (auto simp: add_file_def createDirectories_def createFile_def setSize_def sm_get_def Let_def
      path_refused_def split: option.splits)

lemma add_file_again:
  assumes "sm_find (lf_same_files lf) fid = Some ps" and "ps \<noteq> []"
  shows "\<exists>lf'. add_file fid rel name fsize lf d = (ERROR_OK, lf', d) \<and> lf_files lf' = lf_files lf"
  using assms by (cases ps) (auto simp: add_file_def sm_get_def Let_def)

section \<open>Lemmas: the job's data\<close>

definition job_start :: "u64 \<Rightarrow> u64 \<Rightarrow> torrent \<Rightarrow> string \<Rightarrow> job_info" where
  "job_start ju jd t top_path =
     \<lparr>ji_fileidlist = [], ji_localFileInfo = local_file_info_of top_path, ji_ownerInfoMap = [],
      ji_downloadInfo = download_info_init ju jd, ji_torrentInfo = torrent_info_of t\<rparr>"

lemma job_info_of_start:
  "job_info_of ju jd t path needs d = foldl (job_add_file needs) (job_start ju jd t path, d) (to_file t)"
  by (simp add: job_info_of_def job_start_def)

lemma job_add_file_skip: "\<not> needs_file needs f \<Longrightarrow> job_add_file needs jd f = jd"
  by (simp add: job_add_file_def)

lemma job_add_file_take:
  assumes "needs_file needs f"
  shows "job_add_file needs (ji, d) f =
    (let (r, lf, d') = add_file (tf_checksum f) (tf_relativepath f) (tf_filename f) (tf_size f)
           (ji_localFileInfo ji) d
     in (ji\<lparr>ji_downloadInfo := (ji_downloadInfo ji)
             \<lparr>percentage_map := sm_set (tf_checksum f) 0 (percentage_map (ji_downloadInfo ji)),
              bitmap_map := sm_set (tf_checksum f) (Some (bs_new (length (tf_chunk f))))
                (bitmap_map (ji_downloadInfo ji))\<rparr>,
           ji_localFileInfo := lf, ji_fileidlist := ji_fileidlist ji @ [tf_checksum f]\<rparr>, d'))"
  using assms by (simp add: job_add_file_def Let_def split: prod.splits)

definition wanted :: "file_identity list \<Rightarrow> torrent_file list \<Rightarrow> string \<Rightarrow> torrent_file list" where
  "wanted needs fs c = filter (\<lambda>f. needs_file needs f \<and> tf_checksum f = c) fs"

lemma job_fold_data:
  assumes "foldl (job_add_file needs) (job_start ju jd t path, d) fs = (ji, d')"
  shows "ji_fileidlist ji = map tf_checksum (filter (needs_file needs) fs) \<and>
    ji_ownerInfoMap ji = [] \<and> ji_torrentInfo ji = torrent_info_of t \<and>
    (\<forall>c. sm_find (bitmap_map (ji_downloadInfo ji)) c =
       (if wanted needs fs c = [] then None
        else Some (Some (bs_new (length (tf_chunk (last (wanted needs fs c))))))) \<and>
     sm_find (percentage_map (ji_downloadInfo ji)) c =
       (if wanted needs fs c = [] then None else Some 0)) \<and>
    is_stopped (ji_downloadInfo ji) \<and> is_download_paused (ji_downloadInfo ji) \<and>
    \<not> is_job_removed (ji_downloadInfo ji) \<and>
    upload_total (ji_downloadInfo ji) = ju \<and> download_total (ji_downloadInfo ji) = jd"
  using assms
proof (induction fs arbitrary: ji d' rule: rev_induct)
  case Nil
  then show ?case by (auto simp: job_start_def download_info_init_def wanted_def)
next
  case (snoc f fs)
  obtain ji1 d1 where fold: "foldl (job_add_file needs) (job_start ju jd t path, d) fs = (ji1, d1)"
    by fastforce
  show ?case
  proof (cases "needs_file needs f")
    case False
    with snoc.prems fold snoc.IH [OF fold] show ?thesis
      by (simp add: job_add_file_skip wanted_def)
  next
    case True
    obtain r lf d2 where add: "add_file (tf_checksum f) (tf_relativepath f) (tf_filename f)
        (tf_size f) (ji_localFileInfo ji1) d1 = (r, lf, d2)"
      using prod_cases3 by blast
    from snoc.prems fold True add have ji: "ji = ji1\<lparr>ji_downloadInfo := (ji_downloadInfo ji1)
             \<lparr>percentage_map := sm_set (tf_checksum f) 0 (percentage_map (ji_downloadInfo ji1)),
              bitmap_map := sm_set (tf_checksum f) (Some (bs_new (length (tf_chunk f))))
                (bitmap_map (ji_downloadInfo ji1))\<rparr>,
           ji_localFileInfo := lf, ji_fileidlist := ji_fileidlist ji1 @ [tf_checksum f]\<rparr>"
      by (simp add: job_add_file_take)
    from snoc.IH [OF fold] True show ?thesis
      unfolding ji by (auto simp: wanted_def sm.find_set)
  qed
qed

definition full_path :: "string \<Rightarrow> torrent_file \<Rightarrow> string" where
  "full_path path f = path @ tf_relativepath f @ tf_filename f"

text \<open>The places of each file; \<open>operator[]\<close> may have left entries without one.\<close>

definition file_places :: "local_file_info \<Rightarrow> (string \<times> string list) list" where
  "file_places lf = filter (\<lambda>x. snd x \<noteq> []) (lf_same_files lf)"

lemma filter_sm_set_empty:
  "sm_find m k = None \<Longrightarrow> filter (\<lambda>x. snd x \<noteq> []) (sm_set k [] m) = filter (\<lambda>x. snd x \<noteq> []) m"
  by (induction m) (auto split: if_splits)

lemma has_local_file_places: "has_local_file f rel name lf = (r, lf') \<Longrightarrow> file_places lf' = file_places lf"
  by (auto simp: has_local_file_def sm_get_def file_places_def filter_sm_set_empty split: option.splits)

definition paths_allowed :: "string \<Rightarrow> torrent_file list \<Rightarrow> disk \<Rightarrow> bool" where
  "paths_allowed path fs d \<longleftrightarrow>
     (\<forall>f \<in> set fs. \<not> d_refused d (path @ tf_relativepath f) \<and> \<not> d_refused d (full_path path f))"

lemma job_add_file_disk:
  assumes "job_add_file needs (ji, d) f = (ji', d')"
  shows "d_refused d' = d_refused d \<and> (d' = d \<or> needs_file needs f \<and>
    d_files d (full_path (lf_top_path (ji_localFileInfo ji)) f) = None \<and>
    d_files d' = (d_files d)(full_path (lf_top_path (ji_localFileInfo ji)) f
      \<mapsto> replicate (nat (tf_size f)) 0))"
proof (cases "needs_file needs f")
  case True
  obtain r lf d2 where add: "add_file (tf_checksum f) (tf_relativepath f) (tf_filename f)
      (tf_size f) (ji_localFileInfo ji) d = (r, lf, d2)"
    using prod_cases3 by blast
  with True assms have "d' = d2" by (simp add: job_add_file_take)
  with add_file_disk_cases [OF add] True show ?thesis by (simp add: full_path_def)
qed (use assms in \<open>simp add: job_add_file_skip\<close>)

lemma job_add_file_top:
  "job_add_file needs (ji, d) f = (ji', d') \<Longrightarrow>
     lf_top_path (ji_localFileInfo ji') = lf_top_path (ji_localFileInfo ji)"
  by (cases "needs_file needs f")
    (auto simp: job_add_file_skip job_add_file_take Let_def dest: add_file_paths split: prod.splits)

lemma job_fold_disk:
  assumes "foldl (job_add_file needs) (job_start ju jd t path, d) fs = (ji, d')"
  shows "lf_top_path (ji_localFileInfo ji) = path \<and> d_refused d' = d_refused d \<and>
    (\<forall>p. d_files d p \<noteq> None \<longrightarrow> d_files d' p = d_files d p) \<and>
    (\<forall>p bs. d_files d p = None \<longrightarrow> d_files d' p = Some bs \<longrightarrow>
       (\<exists>f \<in> set fs. needs_file needs f \<and> p = full_path path f \<and> bs = replicate (nat (tf_size f)) 0))"
  using assms
proof (induction fs arbitrary: ji d' rule: rev_induct)
  case Nil
  then show ?case by (auto simp: job_start_def local_file_info_of_def)
next
  case (snoc f fs)
  obtain ji1 d1 where fold: "foldl (job_add_file needs) (job_start ju jd t path, d) fs = (ji1, d1)"
    by fastforce
  with snoc.prems have step: "job_add_file needs (ji1, d1) f = (ji, d')" by simp
  from job_add_file_disk [OF step] job_add_file_top [OF step] snoc.IH [OF fold]
  show ?case by (auto split: if_splits) blast+
qed

lemma wanted_snoc:
  "wanted needs (fs @ [f]) c =
     wanted needs fs c @ (if needs_file needs f \<and> tf_checksum f = c then [f] else [])"
  by (simp add: wanted_def)

lemma job_fold_local:
  assumes "foldl (job_add_file needs) (job_start ju jd t path, d) fs = (ji, d')"
    and "paths_allowed path fs d"
  shows "\<forall>c. sm_find (lf_same_files (ji_localFileInfo ji)) c =
       (if wanted needs fs c = [] then None else Some (map (full_path path) (wanted needs fs c))) \<and>
     sm_find (lf_files (ji_localFileInfo ji)) c =
       (if wanted needs fs c = [] then None else Some (full_path path (hd (wanted needs fs c))))"
  using assms
proof (induction fs arbitrary: ji d' rule: rev_induct)
  case Nil
  then show ?case by (auto simp: job_start_def local_file_info_of_def wanted_def)
next
  case (snoc f fs)
  obtain ji1 d1 where fold: "foldl (job_add_file needs) (job_start ju jd t path, d) fs = (ji1, d1)"
    by fastforce
  with snoc.prems have step: "job_add_file needs (ji1, d1) f = (ji, d')" by simp
  have allowed: "paths_allowed path fs d" using snoc.prems(2) by (simp add: paths_allowed_def)
  note IH = snoc.IH [OF fold allowed]
  let ?lf = "ji_localFileInfo ji1"
  have disk: "lf_top_path ?lf = path" "d_refused d1 = d_refused d"
    using job_fold_disk [OF fold] by simp_all
  show ?case
  proof (cases "needs_file needs f")
    case False
    with step IH show ?thesis by (simp add: job_add_file_skip wanted_snoc)
  next
    case True
    let ?c = "tf_checksum f"
    obtain r lf d2 where add: "add_file ?c (tf_relativepath f) (tf_filename f)
        (tf_size f) ?lf d1 = (r, lf, d2)"
      using prod_cases3 by blast
    have ji: "ji_localFileInfo ji = lf"
      using step True add by (auto simp: job_add_file_take)
    have files: "lf_files lf = (if wanted needs fs ?c = []
        then sm_set ?c (full_path path f) (lf_files ?lf) else lf_files ?lf)"
    proof (cases "wanted needs fs ?c = []")
      case True
      with IH have "sm_find (lf_same_files ?lf) ?c = None" by simp
      moreover have "\<not> path_refused ?lf (tf_relativepath f) (tf_filename f) d1"
        using snoc.prems(2) disk by (simp add: path_refused_def paths_allowed_def full_path_def)
      ultimately show ?thesis
        using add_file_first [of ?lf "tf_relativepath f" "tf_filename f" d1 ?c "tf_size f"] True add disk
        by (auto simp: full_path_def)
    next
      case False
      with IH have "sm_find (lf_same_files ?lf) ?c = Some (map (full_path path) (wanted needs fs ?c))"
        by simp
      with False show ?thesis
        using add_file_again [of ?lf ?c _ "tf_relativepath f" "tf_filename f" "tf_size f" d1] add
        by fastforce
    qed
    show ?thesis
      unfolding ji files using IH disk True add_file_find_paths [OF add]
      by (auto simp: wanted_snoc sm.find_set full_path_def)
  qed
qed

section \<open>Properties\<close>

text \<open>Files of one checksum are the same file: they have the same chunks.\<close>

definition torrent_consistent :: "torrent \<Rightarrow> bool" where
  "torrent_consistent t \<longleftrightarrow>
     (\<forall>f \<in> set (to_file t). \<forall>g \<in> set (to_file t).
        tf_checksum f = tf_checksum g \<longrightarrow> tf_chunk f = tf_chunk g)"

text \<open>The shape every other component relies on: each file of the job has a bitmap with one
  bit per chunk.\<close>

definition job_wf :: "job_info \<Rightarrow> bool" where
  "job_wf ji \<longleftrightarrow>
     (\<forall>c \<in> set (ji_fileidlist ji). \<exists>b infos.
        sm_find (bitmap_map (ji_downloadInfo ji)) c = Some (Some b) \<and>
        sm_find (ti_fileMap (ji_torrentInfo ji)) c = Some infos \<and> infos \<noteq> [] \<and>
        tfi_chunk_count (hd infos) = int (length b) \<and>
        tfi_chunk_count (hd infos) = int (length (tf_chunk (tfi_file (hd infos)))) \<and>
        sm_find (percentage_map (ji_downloadInfo ji)) c \<noteq> None)"

lemma wanted_in: "f \<in> set (wanted needs fs c) \<Longrightarrow> f \<in> set fs \<and> tf_checksum f = c"
  by (auto simp: wanted_def)

lemma job_info_of_facts:
  assumes "torrent_consistent t" and "job_info_of ju jd t path needs d = (ji, d')"
  shows "job_wf ji \<and>
    ji_fileidlist ji = map tf_checksum (filter (needs_file needs) (to_file t)) \<and>
    (\<forall>f \<in> set (to_file t). needs_file needs f \<longrightarrow>
       sm_find (bitmap_map (ji_downloadInfo ji)) (tf_checksum f)
         = Some (Some (replicate (length (tf_chunk f)) False)) \<and>
       sm_find (percentage_map (ji_downloadInfo ji)) (tf_checksum f) = Some 0) \<and>
    is_stopped (ji_downloadInfo ji) \<and> is_download_paused (ji_downloadInfo ji) \<and>
    ji_ownerInfoMap ji = []"
proof -
  note data = job_fold_data [OF assms(2) [unfolded job_info_of_start]]
  have fresh: "sm_find (bitmap_map (ji_downloadInfo ji)) (tf_checksum f)
        = Some (Some (replicate (length (tf_chunk f)) False)) \<and>
      sm_find (percentage_map (ji_downloadInfo ji)) (tf_checksum f) = Some 0"
    if f: "f \<in> set (to_file t)" "needs_file needs f" for f
  proof -
    let ?w = "wanted needs (to_file t) (tf_checksum f)"
    have "?w \<noteq> []" using f by (auto simp: wanted_def filter_empty_conv)
    moreover from this have "last ?w \<in> set (to_file t) \<and> tf_checksum (last ?w) = tf_checksum f"
      by (intro wanted_in [of _ needs]) (rule last_in_set)
    then have "tf_chunk (last ?w) = tf_chunk f"
      using f(1) assms(1) unfolding torrent_consistent_def by blast
    ultimately show ?thesis using data by (simp add: bs_new_def)
  qed
  have "job_wf ji"
    unfolding job_wf_def
  proof
    fix c assume "c \<in> set (ji_fileidlist ji)"
    then obtain f where f: "f \<in> set (to_file t)" "needs_file needs f" "c = tf_checksum f"
      using data by auto
    let ?same = "filter (\<lambda>g. tf_checksum g = c) (to_file t)"
    have "?same \<noteq> []" using f by (auto simp: filter_empty_conv)
    then have "hd ?same \<in> set ?same" and "hd (map torrent_file_info_of ?same) =
        torrent_file_info_of (hd ?same)"
      by (rule hd_in_set, rule hd_map)
    moreover from this(1) have "hd ?same \<in> set (to_file t)" "tf_checksum (hd ?same) = c"
      by simp_all
    then have "tf_chunk (hd ?same) = tf_chunk f"
      using f assms(1) unfolding torrent_consistent_def by blast
    ultimately have first: "tfi_chunk_count (hd (map torrent_file_info_of ?same)) = int (length (tf_chunk f))"
        "tf_chunk (tfi_file (hd (map torrent_file_info_of ?same))) = tf_chunk f"
      by (simp_all add: torrent_file_info_of_def)
    have map: "sm_find (ti_fileMap (ji_torrentInfo ji)) c = Some (map torrent_file_info_of ?same)"
      using data \<open>?same \<noteq> []\<close> by (simp add: torrent_info_of_def file_map_find Let_def)
    have bits: "sm_find (bitmap_map (ji_downloadInfo ji)) c
          = Some (Some (replicate (length (tf_chunk f)) False))"
        "sm_find (percentage_map (ji_downloadInfo ji)) c \<noteq> None"
      using fresh [OF f(1,2)] f(3) by simp_all
    show "\<exists>b infos. sm_find (bitmap_map (ji_downloadInfo ji)) c = Some (Some b) \<and>
        sm_find (ti_fileMap (ji_torrentInfo ji)) c = Some infos \<and> infos \<noteq> [] \<and>
        tfi_chunk_count (hd infos) = int (length b) \<and>
        tfi_chunk_count (hd infos) = int (length (tf_chunk (tfi_file (hd infos)))) \<and>
        sm_find (percentage_map (ji_downloadInfo ji)) c \<noteq> None"
      using bits map first \<open>?same \<noteq> []\<close>
      by (intro exI [of _ "replicate (length (tf_chunk f)) False"]
          exI [of _ "map torrent_file_info_of ?same"] conjI) (simp_all only: length_replicate, simp_all)
  qed
  then show ?thesis using fresh data by auto
qed

text \<open>
  C23: the \<open>JobInfo\<close> constructor builds a well-formed job from a consistent torrent: one fileid
  per needed file in torrent order, for each a bitmap of as many bits as the file has chunks,
  all clear, and percentage 0; the job is stopped and paused and knows no owners yet.
\<close>

theorem job_info_of_wf:
  assumes "torrent_consistent t" and "job_info_of ju jd t path needs d = (ji, d')"
  shows "job_wf ji \<and>
    ji_fileidlist ji = map tf_checksum (filter (needs_file needs) (to_file t)) \<and>
    (\<forall>f \<in> set (to_file t). needs_file needs f \<longrightarrow>
       sm_find (bitmap_map (ji_downloadInfo ji)) (tf_checksum f)
         = Some (Some (replicate (length (tf_chunk f)) False)) \<and>
       sm_find (percentage_map (ji_downloadInfo ji)) (tf_checksum f) = Some 0) \<and>
    is_stopped (ji_downloadInfo ji) \<and> is_download_paused (ji_downloadInfo ji) \<and>
    ji_ownerInfoMap ji = []"
  using job_info_of_facts [OF assms] .

text \<open>A small torrent for the witnesses: two files, the first of them in two places.\<close>

definition demo_chunks :: "chunk list" where
  "demo_chunks = [\<lparr>ck_checksum = ''h0'', ck_size = 2\<rparr>, \<lparr>ck_checksum = ''h1'', ck_size = 2\<rparr>,
     \<lparr>ck_checksum = ''h2'', ck_size = 1\<rparr>]"

definition demo_torrent :: torrent where
  "demo_torrent = \<lparr>to_torrentid = ''t'', to_type = 1, to_totalsize = 11, to_createby = ''me'',
     to_createtime = ''now'', to_trackeraddress = ''127.0.0.1:9977'',
     to_file = [\<lparr>tf_checksum = ''a'', tf_relativepath = ''d/'', tf_filename = ''x'', tf_size = 5,
                  tf_chunk = demo_chunks\<rparr>,
                \<lparr>tf_checksum = ''a'', tf_relativepath = ''e/'', tf_filename = ''x'', tf_size = 5,
                  tf_chunk = demo_chunks\<rparr>,
                \<lparr>tf_checksum = ''c'', tf_relativepath = ''d/'', tf_filename = ''y'', tf_size = 1,
                  tf_chunk = [\<lparr>ck_checksum = ''h2'', ck_size = 1\<rparr>]\<rparr>]\<rparr>"

definition needs_all :: "torrent \<Rightarrow> file_identity list" where
  "needs_all t = map (\<lambda>f. \<lparr>id_relative_path = tf_relativepath f, id_filename = tf_filename f\<rparr>) (to_file t)"

definition empty_disk :: disk where
  "empty_disk = \<lparr>d_files = \<lambda>_. None, d_refused = \<lambda>_. False\<rparr>"

lemma needs_all: "f \<in> set (to_file t) \<Longrightarrow> needs_file (needs_all t) f"
  by (auto simp: needs_file_def needs_all_def list_ex_iff identity_eq_def)

lemma demo_consistent: "torrent_consistent demo_torrent"
  by (simp add: torrent_consistent_def demo_torrent_def)

theorem job_info_of_wf_witness:
  "torrent_consistent demo_torrent \<and>
   job_wf (fst (job_info_of 0 0 demo_torrent ''/tmp/'' (needs_all demo_torrent) empty_disk)) \<and>
   ji_fileidlist (fst (job_info_of 0 0 demo_torrent ''/tmp/'' (needs_all demo_torrent) empty_disk))
     = map tf_checksum (filter (needs_file (needs_all demo_torrent)) (to_file demo_torrent))"
  using job_info_of_wf [OF demo_consistent, of 0 0 "''/tmp/''" "needs_all demo_torrent" empty_disk]
    demo_consistent
  by (metis prod.collapse)

text \<open>
  Creating a job never changes a file that is already on disk; every file it adds is a
  needed file of the torrent, at the top path, filled with as many zero bytes as the torrent
  announces.
\<close>

theorem job_creation_keeps_files:
  assumes "job_info_of ju jd t path needs d = (ji, d')"
  shows "(\<forall>p bs. d_files d p = Some bs \<longrightarrow> d_files d' p = Some bs) \<and>
    (\<forall>p bs. d_files d p = None \<longrightarrow> d_files d' p = Some bs \<longrightarrow>
       (\<exists>f \<in> set (to_file t). needs_file needs f \<and> p = full_path path f \<and>
          bs = replicate (nat (tf_size f)) 0))"
proof -
  note disk = job_fold_disk [OF assms [unfolded job_info_of_start]]
  then have "d_files d' p = Some bs" if "d_files d p = Some bs" for p bs
    using that by (metis option.distinct(1))
  with disk show ?thesis by blast
qed

theorem job_creation_keeps_files_witness:
  "d_files (snd (job_info_of 0 0 demo_torrent ''/tmp/'' (needs_all demo_torrent)
     (empty_disk\<lparr>d_files := [''/tmp/d/x'' \<mapsto> [9]]\<rparr>))) ''/tmp/d/x'' = Some [9]"
proof -
  let ?d = "empty_disk\<lparr>d_files := [''/tmp/d/x'' \<mapsto> [9]]\<rparr>"
  let ?r = "job_info_of 0 0 demo_torrent ''/tmp/'' (needs_all demo_torrent) ?d"
  have keep: "d_files (snd ?r) p = Some bs" if "d_files ?d p = Some bs" for p bs
    using job_creation_keeps_files [of 0 0 demo_torrent "''/tmp/''" "needs_all demo_torrent" ?d
        "fst ?r" "snd ?r"] that by simp
  show ?thesis by (rule keep) simp
qed

text \<open>
  Where the operating system refuses none of the paths, every needed file is registered
  under its fileid, and the fileid's download target is the first needed file with that
  checksum; so \<open>has_local_file\<close>, which \<open>Job::run\<close> asserts, holds for a needed file.
\<close>

theorem needed_files_registered:
  assumes "job_info_of ju jd t path needs d = (ji, d')" and "paths_allowed path (to_file t) d"
    and "f \<in> set (to_file t)"
  shows "(needs_file needs f \<longrightarrow>
      has_local_file (tf_checksum f) (tf_relativepath f) (tf_filename f) (ji_localFileInfo ji)
        = (True, ji_localFileInfo ji) \<and>
      get_file (tf_checksum f) (ji_localFileInfo ji)
        = Some (full_path path (hd (wanted needs (to_file t) (tf_checksum f))))) \<and>
    (has_file (tf_checksum f) (ji_localFileInfo ji) \<longleftrightarrow> tf_checksum f \<in> set (ji_fileidlist ji))"
proof -
  note fold = assms(1) [unfolded job_info_of_start]
  note local = job_fold_local [OF fold assms(2)]
  have path: "lf_top_path (ji_localFileInfo ji) = path" using job_fold_disk [OF fold] by simp
  have "f \<in> set (wanted needs (to_file t) (tf_checksum f))" if "needs_file needs f"
    using that assms(3) by (simp add: wanted_def)
  moreover from this have "wanted needs (to_file t) (tf_checksum f) \<noteq> []" if "needs_file needs f"
    using that by force
  moreover have "wanted needs (to_file t) c \<noteq> [] \<longleftrightarrow> c \<in> set (ji_fileidlist ji)" for c
    using job_fold_data [OF fold] by (auto simp: wanted_def filter_empty_conv)
  ultimately show ?thesis
    using local path
    by (auto simp: has_local_file_def get_file_def has_file_def sm_get_def full_path_def)
qed

theorem needed_files_registered_witness:
  "fst (has_local_file ''a'' ''e/'' ''x''
      (ji_localFileInfo (fst (job_info_of 0 0 demo_torrent ''/tmp/'' (needs_all demo_torrent) empty_disk))))"
proof -
  let ?f = "to_file demo_torrent ! 1"
  have f: "?f \<in> set (to_file demo_torrent)" by (rule nth_mem) (simp add: demo_torrent_def)
  have "paths_allowed ''/tmp/'' (to_file demo_torrent) empty_disk"
    by (simp add: paths_allowed_def empty_disk_def)
  from needed_files_registered [OF _ this f] needs_all [OF f]
  have "fst (has_local_file (tf_checksum ?f) (tf_relativepath ?f) (tf_filename ?f)
      (ji_localFileInfo (fst (job_info_of 0 0 demo_torrent ''/tmp/'' (needs_all demo_torrent) empty_disk))))"
    by (metis fst_conv prod.collapse)
  then show ?thesis by (simp add: demo_torrent_def)
qed

text \<open>A file cut into chunks of one size, the last of which may be shorter.\<close>

definition regular_file :: "torrent_file \<Rightarrow> bool" where
  "regular_file f \<longleftrightarrow>
     length (tf_chunk f) < 2 ^ 31 \<and>
     (\<forall>c \<in> set (tf_chunk f). 0 \<le> ck_size c \<and> ck_size c < 2 ^ 31) \<and>
     (\<forall>c \<in> set (butlast (tf_chunk f)). ck_size c = ck_size (hd (tf_chunk f)))"

lemma sum_take_const:
  "\<forall>c \<in> set (butlast cs). ck_size c = z \<Longrightarrow> n < length cs \<Longrightarrow>
     sum_list (map ck_size (take n cs)) = int n * z"
proof (induction n)
  case (Suc n)
  then have "cs ! n \<in> set (butlast cs)"
    by (metis Suc_lessD Suc_lessE diff_Suc_1 length_butlast nth_butlast nth_mem not_less_eq)
  with Suc show ?case by (simp add: take_Suc_conv_app_nth algebra_simps)
qed simp

text \<open>
  The offset of a chunk, computed in 64-bit unsigned arithmetic from the first chunk's size,
  does not wrap and is the sum of the sizes of the chunks before it.
\<close>

theorem chunk_offset_exact:
  assumes "regular_file f" and "0 \<le> pos" and "pos < int (length (tf_chunk f))"
  shows "\<exists>w. chunk_offset (torrent_file_info_of f) pos = Ret w \<and>
    uint w = sum_list (map ck_size (take (nat pos) (tf_chunk f))) \<and>
    chunk_size (torrent_file_info_of f) pos = Ret (ck_size (tf_chunk f ! nat pos))"
proof -
  let ?z = "ck_size (hd (tf_chunk f))"
  have ne: "tf_chunk f \<noteq> []" using assms(2,3) by auto
  then have z: "0 \<le> ?z" "?z < 2 ^ 31" using assms(1) by (simp_all add: regular_file_def)
  have pos: "pos < 2 ^ 31" using assms(1,3) by (simp add: regular_file_def)
  have "?z * pos \<le> 2 ^ 31 * 2 ^ 31" using z pos assms(2) by (intro mult_mono) auto
  then have small: "0 \<le> ?z * pos" "?z * pos < 2 ^ 64" using z assms(2) by auto
  have "(word_of_int ?z * word_of_int pos :: u64) = word_of_int (?z * pos)"
    by (simp only: wi_hom_mult)
  then have "uint (word_of_int ?z * word_of_int pos :: u64) = ?z * pos"
    using small by (simp only: unsigned_of_int) (simp add: take_bit_int_eq_self)
  moreover have "sum_list (map ck_size (take (nat pos) (tf_chunk f))) = ?z * pos"
    using sum_take_const [of "tf_chunk f" ?z "nat pos"] assms by (simp add: regular_file_def)
  ultimately show ?thesis
    using assms(2,3) ne
    by (simp add: chunk_offset_def chunk_size_def chunk_get_def torrent_file_info_of_def hd_conv_nth)
qed

theorem chunk_offset_exact_witness:
  "\<exists>w. chunk_offset (torrent_file_info_of (hd (to_file demo_torrent))) 2 = Ret w \<and> uint w = 4"
proof -
  let ?f = "hd (to_file demo_torrent)"
  have "regular_file ?f" by (simp add: regular_file_def demo_torrent_def demo_chunks_def)
  from chunk_offset_exact [OF this, of 2] show ?thesis
    by (auto simp: demo_torrent_def demo_chunks_def)
qed

end
