(* ===== verification/ClientLink.thy ===== *)
theory ClientLink
  imports SockManager NetPack JobInfo
begin

text \<open>
  The part of \<open>client/src/client.cc\<close> that talks over the sockets of the manager: the exchange of
  a request and a reply with a tracker, the five tracker operations built on it, and the
  hand-shake with another client.  They change nothing but the socket manager.

  \<open>app\<close> holds what is fixed while the client runs: protobuf, the uninitialised length of
  \<open>NetPack::receiveFrom\<close>, the resolver of \<open>SocketAddress\<close>, the clientid and the port it
  announces.
\<close>

record app =
  ap_pb :: protobuf
  ap_junk :: int
  ap_resolve :: "string \<Rightarrow> int \<Rightarrow> string outcome"
  ap_clientid :: string
  ap_port :: int

section \<open>Calls on a socket of the manager\<close>

definition on_conn ::
    "nat \<Rightarrow> (sock \<Rightarrow> ('a, sock) result) \<Rightarrow> sock_manager \<Rightarrow> ('a, sock_manager) result" where
  "on_conn h f m =
     (if h < length (lm_socks m)
      then let (r, sk) = f (cn_sock (lm_socks m ! h))
           in (r, m\<lparr>lm_socks := (lm_socks m)[h := (lm_socks m ! h)\<lparr>cn_sock := sk\<rparr>]\<rparr>)
      else (Throw NetException, m))"

definition receive_packet ::
    "protobuf \<Rightarrow> int \<Rightarrow> netpack \<Rightarrow> sock \<Rightarrow> (retcode \<times> netpack, sock) result" where
  "receive_packet pb junk p sk =
     (let (r, (p, sk)) = receiveFrom pb junk p sk in (map_outcome (\<lambda>ret. (ret, p)) r, sk))"

section \<open>Requests to a tracker\<close>

text \<open>
  The \<open>err\<close> exit logs the peer's address and returns \<open>ret\<close> as it is at that point.  The reply
  is null until a message has been cast.
\<close>

definition reply_err ::
    "nat \<Rightarrow> retcode \<Rightarrow> 'm option \<Rightarrow> sock_manager \<Rightarrow> (retcode \<times> 'm option, sock_manager) result" where
  "reply_err h ret out m =
     (case peerAddress h m of Throw e \<Rightarrow> (Throw e, m) | Ret _ \<Rightarrow> (Ret (ret, out), m))"

definition handle_reply_message ::
    "app \<Rightarrow> (message option \<Rightarrow> 'm option) \<Rightarrow> ('m \<Rightarrow> int) \<Rightarrow> nat \<Rightarrow> message \<Rightarrow> int \<Rightarrow> sock_manager
      \<Rightarrow> (retcode \<times> 'm option, sock_manager) result" where
  "handle_reply_message ap cast returncode h msg payload_type m =
     (let req = netpack_of (ap_pb ap) payload_type msg
      in and_then (on_conn h (sendBy (ap_pb ap) req) m) (\<lambda>ret m.
        if ret \<noteq> ERROR_OK then reply_err h ret None m
        else and_then (on_conn h (receive_packet (ap_pb ap) (ap_junk ap) req) m) (\<lambda>(ret, req) m.
          if ret \<noteq> ERROR_OK then reply_err h ret None m
          else (case cast (np_message (ap_pb ap) req) of
              None \<Rightarrow> reply_err h ret None m
            | Some r \<Rightarrow>
                if returncode r \<noteq> retcode_value ERROR_OK then reply_err h ret (Some r) m
                else (Ret (ERROR_OK, Some r), m)))))"

definition reply_code :: "message_reply \<Rightarrow> int" where
  "reply_code r = int_field (mr_returncode r)"

definition simple_request ::
    "app \<Rightarrow> nat \<Rightarrow> message \<Rightarrow> int \<Rightarrow> sock_manager \<Rightarrow> (retcode, sock_manager) result" where
  "simple_request ap h msg payload_type m =
     and_then (handle_reply_message ap cast_message_reply reply_code h msg payload_type m)
       (\<lambda>(ret, r) m. (Ret ret, m))"

definition LoginTracker ::
    "app \<Rightarrow> string \<Rightarrow> int \<Rightarrow> sock_manager \<Rightarrow> (retcode, sock_manager) result" where
  "LoginTracker ap address port m =
     and_then (connect_tracker (ap_resolve ap) address port m) (\<lambda>ret m.
       if ret \<noteq> ERROR_OK then (Ret ret, m)
       else (case get_tracker_sock (address @ '':'' @ dec port) m of
           None \<Rightarrow> (Throw AssertionViolation, m)
         | Some h \<Rightarrow>
             simple_request ap h
               (LoginMsg \<lparr>lg_clientid = ap_clientid ap, lg_loginip = None,
                  lg_messageport = Some (ap_port ap)\<rparr>) PAYLOAD_LOGIN m))"

definition LogoutTracker ::
    "app \<Rightarrow> string \<Rightarrow> int \<Rightarrow> sock_manager \<Rightarrow> (retcode, sock_manager) result" where
  "LogoutTracker ap address port m =
     (case get_tracker_sock (address @ '':'' @ dec port) m of
        None \<Rightarrow> (Ret ERROR_NET_CONNECT, m)
      | Some h \<Rightarrow>
          simple_request ap h (LogoutMsg \<lparr>lo_clientid = ap_clientid ap\<rparr>) PAYLOAD_LOGOUT m)"

definition PublishResourceToTracker ::
    "app \<Rightarrow> string \<Rightarrow> string \<Rightarrow> sock_manager \<Rightarrow> (retcode, sock_manager) result" where
  "PublishResourceToTracker ap address fileid m =
     (case get_tracker_sock address m of
        None \<Rightarrow> (Ret ERROR_NET_NOT_CONNECTED, m)
      | Some h \<Rightarrow>
          simple_request ap h
            (PublishResourceMsg \<lparr>pr_clientid = ap_clientid ap, pr_fileid = fileid\<rparr>)
            PAYLOAD_PUBLISH_RESOURCE m)"

definition ReportProgress ::
    "app \<Rightarrow> string \<Rightarrow> string \<Rightarrow> int \<Rightarrow> sock_manager \<Rightarrow> (retcode, sock_manager) result" where
  "ReportProgress ap address fileid percentage m =
     (case get_tracker_sock address m of
        None \<Rightarrow> (Ret ERROR_NET_CONNECT, m)
      | Some h \<Rightarrow>
          simple_request ap h
            (ReportProgressMsg \<lparr>rp_clientid = ap_clientid ap, rp_fileid = fileid,
               rp_percentage = percentage\<rparr>) PAYLOAD_REPORT_PROGRESS m)"

definition query_code :: "query_peer_reply \<Rightarrow> int" where
  "query_code r = int_field (qr_returncode r)"

definition owner_of_peer :: "peer_file_info \<Rightarrow> file_owner" where
  "owner_of_peer p =
     file_owner_of (pe_clientid (pf_client p)) (pe_ip (pf_client p)) (pe_messageport (pf_client p))
       (pf_percentage p)"

text \<open>The list is the content of \<open>*pInfoList\<close>, which the only caller passes in empty.\<close>

definition RequestClients ::
    "app \<Rightarrow> string \<Rightarrow> string \<Rightarrow> int \<Rightarrow> int \<Rightarrow> string list \<Rightarrow> sock_manager
      \<Rightarrow> (retcode \<times> file_owner list, sock_manager) result" where
  "RequestClients ap address fileid currentPercentage needCount clientids m =
     check (currentPercentage \<ge> 0) m (
     check (needCount > 0) m (
       case get_tracker_sock address m of
         None \<Rightarrow> (Ret (ERROR_NET_CONNECT, []), m)
       | Some h \<Rightarrow>
           and_then (handle_reply_message ap cast_query_peer_reply query_code h
               (QueryPeerMsg \<lparr>qp_fileid = fileid, qp_percentage = currentPercentage,
                  qp_needcount = Some needCount, qp_ownedclients = clientids\<rparr>)
               PAYLOAD_REQUEST_PEER m) (\<lambda>(ret, r) m.
             case r of
               None \<Rightarrow> (Throw NullPointer, m)
             | Some r \<Rightarrow>
                 if ret \<noteq> ERROR_OK \<or> query_code r \<noteq> retcode_value ERROR_OK
                 then (Ret (ERROR_UNKNOWN, []), m)
                 else (Ret (ret, map owner_of_peer (qr_info r)), m))))"

section \<open>The hand-shake\<close>

text \<open>The guard gives the socket back on every exit, exceptions included.\<close>

definition shake_hand_on ::
    "app \<Rightarrow> shake_hand_msg \<Rightarrow> shake_hand_msg \<Rightarrow> nat \<Rightarrow> sock_manager
      \<Rightarrow> (retcode \<times> shake_hand_msg, sock_manager) result" where
  "shake_hand_on ap self peer h m =
     and_then (on_conn h (sendBy (ap_pb ap) (netpack_of (ap_pb ap) PAYLOAD_SHAKE_HAND (ShakeHandMsg self))) m)
       (\<lambda>ret m.
       if ret \<noteq> ERROR_OK then (Ret (ret, peer), m)
       else and_then (on_conn h (receive_packet (ap_pb ap) (ap_junk ap) new_netpack) m) (\<lambda>(ret, res) m.
         if ret \<noteq> ERROR_OK then (Ret (ret, peer), m)
         else (case cast_shake_hand (np_message (ap_pb ap) res) of
             None \<Rightarrow> (Throw NullPointer, m)
           | Some sh \<Rightarrow> (Ret (ERROR_OK, sh), m))))"

definition client_shake_hand ::
    "app \<Rightarrow> shake_hand_msg \<Rightarrow> shake_hand_msg \<Rightarrow> sock_manager
      \<Rightarrow> (retcode \<times> shake_hand_msg, sock_manager) result" where
  "client_shake_hand ap self peer m =
     (let peer_clientid = string_field (sh_clientid peer)
      in check (is_connected peer_clientid m) m (
        and_then (get_idle_client_sock peer_clientid m) (\<lambda>sock m.
          case sock of
            None \<Rightarrow> (Throw AssertionViolation, m)
          | Some h \<Rightarrow>
              let (r, m) = shake_hand_on ap self peer h m
              in (case return_sock peer_clientid (Some h) m of
                    (Throw e, m) \<Rightarrow> (Throw e, m)
                  | (Ret _, m) \<Rightarrow> (r, m)))))"


section \<open>Lemmas: what the calls change\<close>

text \<open>Traffic on a socket changes neither which sockets there are nor who holds them.\<close>

definition keeps_pool :: "sock_manager \<Rightarrow> sock_manager \<Rightarrow> bool" where
  "keeps_pool m m' \<longleftrightarrow> same_maps m m' \<and> length (lm_socks m') = length (lm_socks m)"

lemma keeps_pool_refl [simp]: "keeps_pool m m"
  by (simp add: keeps_pool_def same_maps_def)

lemma keeps_pool_trans: "keeps_pool a b \<Longrightarrow> keeps_pool b c \<Longrightarrow> keeps_pool a c"
  by (simp add: keeps_pool_def same_maps_def)

lemma keeps_pool_inv: "keeps_pool m m' \<Longrightarrow> pool_inv m \<Longrightarrow> pool_inv m'"
  by (auto simp: keeps_pool_def same_maps_def intro: pool_inv_env [of m m'])

lemma keeps_pool_lent: "keeps_pool m m' \<Longrightarrow> lent m' = lent m"
  by (simp add: keeps_pool_def same_maps_def lent_def)

lemma on_conn_keeps: "keeps_pool m (snd (on_conn h f m))"
  by (simp add: on_conn_def keeps_pool_def same_maps_def split: prod.splits)

lemma keeps_pool_and_then:
  "keeps_pool m (snd r) \<Longrightarrow> (\<And>x s. keeps_pool s (snd (f x s))) \<Longrightarrow> keeps_pool m (snd (and_then r f))"
  by (cases r; cases "fst r") (auto intro: keeps_pool_trans)

lemma reply_err_keeps: "keeps_pool m (snd (reply_err h ret out m))"
  by (simp add: reply_err_def split: outcome.splits)

lemma handle_reply_message_keeps:
  "keeps_pool m (snd (handle_reply_message ap cast code h msg t m))"
  unfolding handle_reply_message_def Let_def
  by (auto intro!: keeps_pool_and_then on_conn_keeps reply_err_keeps split: option.splits)

lemma simple_request_keeps: "keeps_pool m (snd (simple_request ap h msg t m))"
  unfolding simple_request_def
  by (auto intro!: keeps_pool_and_then handle_reply_message_keeps)

lemma RequestClients_keeps: "keeps_pool m (snd (RequestClients ap addr f p n os m))"
  unfolding RequestClients_def check_def
  by (auto intro!: keeps_pool_and_then handle_reply_message_keeps split: option.splits)

lemma shake_hand_on_keeps: "keeps_pool m (snd (shake_hand_on ap self peer h m))"
  unfolding shake_hand_on_def
  by (auto intro!: keeps_pool_and_then on_conn_keeps split: option.splits)

lemma client_shake_hand_inv: "pool_inv m \<Longrightarrow> pool_inv (snd (client_shake_hand ap self peer m))"
  unfolding client_shake_hand_def check_def Let_def
  by (auto simp: split_def intro!: and_then_inv [where P = pool_inv] pool_inv_get_idle
      pool_inv_return_sock keeps_pool_inv [OF shake_hand_on_keeps] split: option.splits outcome.splits)

lemma client_shake_hand_lent:
  assumes "pool_inv m"
  shows "lent (snd (client_shake_hand ap self peer m)) = lent m"
proof (cases "is_connected (string_field (sh_clientid peer)) m")
  case True
  let ?c = "string_field (sh_clientid peer)"
  obtain r m1 where get: "get_idle_client_sock ?c m = (r, m1)" by fastforce
  show ?thesis
  proof (cases "\<exists>h. r = Ret (Some h)")
    case True
    then obtain h where r: "r = Ret (Some h)" by blast
    obtain q m2 where on: "shake_hand_on ap self peer h m1 = (q, m2)" by fastforce
    have keep: "keeps_pool m1 m2" using shake_hand_on_keeps [of m1 ap self peer h] on by simp
    have inv1: "pool_inv m1" using pool_inv_get_idle [OF assms, of ?c] get by simp
    have inv2: "pool_inv m2" using keeps_pool_inv [OF keep inv1] .
    from get_idle_lends [OF assms get [unfolded r]] keeps_pool_lent [OF keep]
    have lent: "h \<notin> snd ` lent m" "lent m2 = insert (?c, h) (lent m)" by simp_all
    then have "lent (snd (return_sock ?c (Some h) m2)) = lent m2 - {(?c, h)}"
      using return_sock_lent [OF inv2] by simp
    also have "\<dots> = lent m" using lent by force
    finally show ?thesis
      using get r on \<open>is_connected ?c m\<close>
      by (cases "return_sock ?c (Some h) m2"; cases "fst (return_sock ?c (Some h) m2)")
        (simp_all add: client_shake_hand_def)
  next
    case False
    with get_idle_lends_nothing [OF assms get] have "lent m1 = lent m" by blast
    with get False True show ?thesis
      by (cases r) (auto simp: client_shake_hand_def split: option.splits)
  qed
qed (simp add: client_shake_hand_def)

section \<open>Properties\<close>

text \<open>
  C39: a hand-shake borrows a socket of the pool and gives it back, however the exchange ends:
  success, an error of the packet, a reply of the wrong type or an exception of the socket.
  Afterwards exactly the sockets that were lent before are lent, and the pool is in order.
\<close>

theorem shake_hand_gives_socket_back:
  assumes "(pool_step resolve)\<^sup>*\<^sup>* (new_sock_manager ev) m"
    and "client_shake_hand ap self peer m = (r, m')"
  shows "lent m' = lent m \<and> pool_inv m'"
  using client_shake_hand_lent [OF pool_reachable_inv [OF assms(1)], of ap self peer]
    client_shake_hand_inv [OF pool_reachable_inv [OF assms(1)], of ap self peer] assms(2) by simp

definition demo_app :: app where
  "demo_app = \<lparr>ap_pb = sample_pb [sample_reply], ap_junk = 0, ap_resolve = demo_resolve,
     ap_clientid = ''me'', ap_port = 9025\<rparr>"

theorem shake_hand_gives_socket_back_witness:
  "lent (snd (client_shake_hand demo_app empty_shake_hand
     (empty_shake_hand\<lparr>sh_clientid := Some ''A''\<rparr>) demo_pool)) = {}"
proof -
  let ?r = "client_shake_hand demo_app empty_shake_hand (empty_shake_hand\<lparr>sh_clientid := Some ''A''\<rparr>) demo_pool"
  have "lent demo_pool = {}" by (auto simp: lent_def demo_pool_eq)
  with shake_hand_gives_socket_back [OF demo_pool_reachable, of demo_app empty_shake_hand
      "empty_shake_hand\<lparr>sh_clientid := Some ''A''\<rparr>" "fst ?r" "snd ?r"]
  show ?thesis by simp
qed

text \<open>A connection on which the tracker's reply is waiting behind nothing else.\<close>

definition reply_waiting :: "app \<Rightarrow> message \<Rightarrow> int \<Rightarrow> int \<Rightarrow> message \<Rightarrow> conn \<Rightarrow> bool" where
  "reply_waiting ap req t t' reply cn \<longleftrightarrow>
     (let pb = ap_pb ap; p = netpack_of pb t' reply in
        \<not> cn_lost cn \<and> tx_ev (cn_sock cn) = [] \<and> rx_ev (cn_sock cn) = [] \<and>
        header_codec pb (np_header (netpack_of pb t req)) \<and>
        header_codec pb (np_header p) \<and> header_fits pb (np_header p) \<and> np_wf p \<and>
        np_message pb p = Some reply \<and> (\<exists>behind. rx (cn_sock cn) = frame pb p @ behind))"

lemma handle_reply_waiting:
  assumes "h < length (lm_socks m)" and "reply_waiting ap msg t t' reply (lm_socks m ! h)"
  shows "\<exists>m'. keeps_pool m m' \<and> handle_reply_message ap cast code h msg t m =
    (Ret (ERROR_OK, cast (Some reply)), m')"
proof -
  let ?pb = "ap_pb ap"
  let ?s = "cn_sock (lm_socks m ! h)"
  obtain behind where rx: "rx ?s = frame ?pb (netpack_of ?pb t' reply) @ behind"
    and codec: "header_codec ?pb (np_header (netpack_of ?pb t msg))"
      "header_codec ?pb (np_header (netpack_of ?pb t' reply))"
      "header_fits ?pb (np_header (netpack_of ?pb t' reply))" "np_wf (netpack_of ?pb t' reply)"
    and ev: "tx_ev ?s = []" "rx_ev ?s = []" and alive: "\<not> cn_lost (lm_socks m ! h)"
    and msg: "np_message ?pb (netpack_of ?pb t' reply) = Some reply"
    using assms(2) unfolding reply_waiting_def Let_def by blast
  define s1 where "s1 = ?s\<lparr>tx := tx ?s @ frame ?pb (netpack_of ?pb t msg)\<rparr>"
  define m1 where "m1 = m\<lparr>lm_socks := (lm_socks m)[h := (lm_socks m ! h)\<lparr>cn_sock := s1\<rparr>]\<rparr>"
  define m2 where "m2 = m1\<lparr>lm_socks := (lm_socks m1)[h := (lm_socks m1 ! h)\<lparr>cn_sock := s1\<lparr>rx := behind\<rparr>\<rparr>]\<rparr>"
  have send: "on_conn h (sendBy ?pb (netpack_of ?pb t msg)) m = (Ret ERROR_OK, m1)"
    using sendBy_frame [OF codec(1) ev(1)] assms(1) by (simp add: on_conn_def m1_def s1_def)
  have "receiveFrom ?pb (ap_junk ap) (netpack_of ?pb t msg) s1 =
      (Ret ERROR_OK, (netpack_of ?pb t' reply, s1\<lparr>rx := behind\<rparr>))"
    by (rule receiveFrom_frame [OF codec(2-4)]) (simp_all add: s1_def ev rx)
  then have recv: "on_conn h (receive_packet ?pb (ap_junk ap) (netpack_of ?pb t msg)) m1 =
      (Ret (ERROR_OK, netpack_of ?pb t' reply), m2)"
    using assms(1) by (simp add: on_conn_def m1_def m2_def receive_packet_def)
  have "peerAddress h m2 = Ret (cn_peer (lm_socks m ! h))"
    using assms(1) alive by (simp add: peerAddress_def m2_def m1_def)
  moreover have "keeps_pool m m2" by (simp add: m2_def m1_def keeps_pool_def same_maps_def)
  ultimately show ?thesis
    using send recv msg by (auto simp: handle_reply_message_def reply_err_def split: option.splits)
qed

text \<open>
  The tracker's verdict is lost on the way: whatever return code the tracker's reply to a
  published resource or a progress report carries, the operation returns \<open>ERROR_OK\<close>, because the
  error exit of \<open>handle_reply_message\<close> returns the packet's return code.
\<close>

theorem tracker_verdict_ignored:
  assumes "get_tracker_sock addr m = Some h" and "h < length (lm_socks m)"
    and "reply_waiting ap (PublishResourceMsg \<lparr>pr_clientid = ap_clientid ap, pr_fileid = fileid\<rparr>)
      PAYLOAD_PUBLISH_RESOURCE PAYLOAD_MESSAGE_REPLY (MessageReplyMsg \<lparr>mr_returncode = Some code\<rparr>)
      (lm_socks m ! h)"
  shows "fst (PublishResourceToTracker ap addr fileid m) = Ret ERROR_OK"
proof -
  from handle_reply_waiting [OF assms(2,3), of cast_message_reply reply_code] obtain m' where
    "handle_reply_message ap cast_message_reply reply_code h
       (PublishResourceMsg \<lparr>pr_clientid = ap_clientid ap, pr_fileid = fileid\<rparr>)
       PAYLOAD_PUBLISH_RESOURCE m = (Ret (ERROR_OK, Some \<lparr>mr_returncode = Some code\<rparr>), m')" by auto
  with assms(1) show ?thesis by (simp add: PublishResourceToTracker_def simple_request_def)
qed

text \<open>
  \<open>RequestClients\<close> on a live connection: a \<open>QueryPeerReply\<close> with return code 0 gives its
  peers in order, each with an empty bitmap; one with another code gives \<open>ERROR_UNKNOWN\<close> and no
  peers; a reply of any other type makes it dereference a null pointer.
\<close>

theorem RequestClients_by_reply:
  assumes "get_tracker_sock addr m = Some h" and "h < length (lm_socks m)"
    and "0 \<le> pct" and "0 < n"
    and "reply_waiting ap (QueryPeerMsg \<lparr>qp_fileid = fileid, qp_percentage = pct,
      qp_needcount = Some n, qp_ownedclients = known\<rparr>) PAYLOAD_REQUEST_PEER t reply (lm_socks m ! h)"
  shows "fst (RequestClients ap addr fileid pct n known m) =
    (case reply of
       QueryPeerReplyMsg r \<Rightarrow>
         if int_field (qr_returncode r) = 0 then Ret (ERROR_OK, map owner_of_peer (qr_info r))
         else Ret (ERROR_UNKNOWN, [])
     | _ \<Rightarrow> Throw NullPointer)"
proof -
  from handle_reply_waiting [OF assms(2,5), of cast_query_peer_reply query_code] obtain m' where
    "handle_reply_message ap cast_query_peer_reply query_code h (QueryPeerMsg \<lparr>qp_fileid = fileid,
       qp_percentage = pct, qp_needcount = Some n, qp_ownedclients = known\<rparr>) PAYLOAD_REQUEST_PEER m
     = (Ret (ERROR_OK, cast_query_peer_reply (Some reply)), m')" by auto
  with assms(1,3,4) show ?thesis
    by (cases reply) (simp_all add: RequestClients_def query_code_def)
qed


text \<open>A client connected to a tracker whose answer to a publication has arrived.\<close>

definition linked :: "app \<Rightarrow> int \<Rightarrow> message \<Rightarrow> sock_manager" where
  "linked ap t reply =
     \<lparr>lm_server_sock_map = [(''T:1'', 0)], lm_client_sock_map = [], lm_condition_map = [],
      lm_socks = [\<lparr>cn_peer = ''T:1'', cn_lost = False,
        cn_sock = idle_sock (frame (ap_pb ap) (netpack_of (ap_pb ap) t reply))\<rparr>],
      lm_connects = []\<rparr>"

lemma linked_sock [simp]:
  "get_tracker_sock ''T:1'' (linked ap t reply) = Some 0" "0 < length (lm_socks (linked ap t reply))"
  by (simp_all add: linked_def get_tracker_sock_def)

definition refusal :: message where
  "refusal = MessageReplyMsg \<lparr>mr_returncode = Some 1\<rparr>"

definition refused_app :: app where
  "refused_app = demo_app\<lparr>ap_pb := sample_pb [refusal]\<rparr>"

lemma refusal_waiting:
  "reply_waiting refused_app (PublishResourceMsg \<lparr>pr_clientid = ap_clientid refused_app, pr_fileid = ''a''\<rparr>)
     PAYLOAD_PUBLISH_RESOURCE PAYLOAD_MESSAGE_REPLY refusal
     (lm_socks (linked refused_app PAYLOAD_MESSAGE_REPLY refusal) ! 0)"
proof -
  have "np_wf (netpack_of (sample_pb [refusal]) PAYLOAD_MESSAGE_REPLY refusal)"
    by (rule np_wf_netpack_of) (simp add: sample_pb_def)
  then show ?thesis
    by (simp add: reply_waiting_def linked_def refused_app_def idle_sock_def np_message_def
        header_codec_def header_fits_def netpack_of_def refusal_def payload_defs Let_def)
      (simp add: sample_defs)
qed

theorem tracker_verdict_ignored_witness:
  "fst (PublishResourceToTracker refused_app ''T:1'' ''a''
     (linked refused_app PAYLOAD_MESSAGE_REPLY refusal)) = Ret ERROR_OK"
  using tracker_verdict_ignored [OF linked_sock refusal_waiting [unfolded refusal_def]]
  by (simp add: refusal_def)

definition one_peer :: query_peer_reply where
  "one_peer = \<lparr>qr_returncode = Some 0, qr_fileid = Some ''a'', qr_count = Some 1,
     qr_info = [\<lparr>pf_client = \<lparr>pe_clientid = ''p'', pe_ip = ''1.1.1.1'', pe_messageport = 9025\<rparr>,
       pf_percentage = 40\<rparr>]\<rparr>"

definition query_app :: app where
  "query_app = demo_app\<lparr>ap_pb := sample_pb [QueryPeerReplyMsg one_peer]\<rparr>"

lemma one_peer_waiting:
  "reply_waiting query_app (QueryPeerMsg \<lparr>qp_fileid = ''a'', qp_percentage = 0,
     qp_needcount = Some 20, qp_ownedclients = []\<rparr>) PAYLOAD_REQUEST_PEER PAYLOAD_REQUEST_PEER_REPLAY
     (QueryPeerReplyMsg one_peer)
     (lm_socks (linked query_app PAYLOAD_REQUEST_PEER_REPLAY (QueryPeerReplyMsg one_peer)) ! 0)"
proof -
  have "np_wf (netpack_of (sample_pb [QueryPeerReplyMsg one_peer]) PAYLOAD_REQUEST_PEER_REPLAY
      (QueryPeerReplyMsg one_peer))"
    by (rule np_wf_netpack_of) (simp add: sample_pb_def)
  then show ?thesis
    by (simp add: reply_waiting_def linked_def query_app_def idle_sock_def np_message_def
        header_codec_def header_fits_def netpack_of_def payload_defs Let_def)
      (simp add: sample_defs)
qed

theorem RequestClients_by_reply_witness:
  "fst (RequestClients query_app ''T:1'' ''a'' 0 20 []
     (linked query_app PAYLOAD_REQUEST_PEER_REPLAY (QueryPeerReplyMsg one_peer)))
   = Ret (ERROR_OK, [file_owner_of ''p'' ''1.1.1.1'' 9025 40])"
  using RequestClients_by_reply [OF linked_sock _ _ one_peer_waiting]
  by (simp add: one_peer_def owner_of_peer_def)

end
