(* ===== verification/ChunkSelector.thy ===== *)
theory ChunkSelector
  imports JobInfo "HOL-Library.Multiset"
begin

text \<open>
  \<open>client/src/chunk_selector.cc\<close>: the queue of chunks a job still has to download, ordered by a
  priority computed from how many owners have the chunk.  The selector holds a reference to the
  job's data, so its state is that data and the queue.
\<close>

section \<open>The queue's interface\<close>

text \<open>
  What \<open>std::priority_queue\<close> promises: which elements it holds and that \<open>top\<close> is one of the
  greatest.  Which of several greatest elements \<open>top\<close> gives is left open.
\<close>

locale priority_queue =
  fixes empty :: "'q"
    and push :: "'a \<Rightarrow> 'q \<Rightarrow> 'q"
    and top_of :: "'q \<Rightarrow> 'a option"
    and pop :: "'q \<Rightarrow> 'q"
    and prio :: "'a \<Rightarrow> int"
    and elems :: "'q \<Rightarrow> 'a multiset"
  assumes elems_empty: "elems empty = {#}"
    and elems_push: "elems (push x q) = add_mset x (elems q)"
    and top_None: "top_of q = None \<longleftrightarrow> elems q = {#}"
    and top_mem: "top_of q = Some x \<Longrightarrow> x \<in># elems q"
    and top_max: "top_of q = Some x \<Longrightarrow> y \<in># elems q \<Longrightarrow> prio y \<le> prio x"
    and elems_pop: "top_of q = Some x \<Longrightarrow> elems (pop q) = elems q - {#x#}"
begin

lemma elems_top_pop: "top_of q = Some x \<Longrightarrow> elems q = add_mset x (elems (pop q))"
  using top_mem [of q x] by (simp add: elems_pop)

lemma rest_below_top: "top_of q = Some x \<Longrightarrow> y \<in># elems (pop q) \<Longrightarrow> prio y \<le> prio x"
  by (rule top_max, assumption) (simp add: elems_top_pop)

lemma size_pop: "top_of q = Some x \<Longrightarrow> size (elems q) = Suc (size (elems (pop q)))"
  by (simp add: elems_top_pop)

end

section \<open>Chunks and priorities\<close>

datatype chunk_status = FREE | DOWNLOADING | FINISHED | FAILED | NOOWNER

fun chunk_status_value :: "chunk_status \<Rightarrow> int" where
  "chunk_status_value FREE = 1"
| "chunk_status_value DOWNLOADING = 2"
| "chunk_status_value FINISHED = 3"
| "chunk_status_value FAILED = 4"
| "chunk_status_value NOOWNER = 5"

record chunk_info =
  ci_status :: chunk_status
  ci_fileid :: string
  ci_priority :: int
  ci_chunk_num :: int
  ci_clientLists :: "file_owner list"

definition new_chunk_info :: chunk_info where
  "new_chunk_info = \<lparr>ci_status = FREE, ci_fileid = [], ci_priority = 0, ci_chunk_num = 0,
     ci_clientLists = []\<rparr>"

definition chunk_cmp :: "chunk_info \<Rightarrow> chunk_info \<Rightarrow> bool" where
  "chunk_cmp left right \<longleftrightarrow> ci_priority left < ci_priority right"

definition RARE_COUNT :: int where "RARE_COUNT = 5"
definition HIGHEST :: int where "HIGHEST = 20"
definition NORMAL :: int where "NORMAL = 10"
definition UNAVAILABLE :: int where "UNAVAILABLE = 0"

lemmas priority_consts = RARE_COUNT_def HIGHEST_def NORMAL_def UNAVAILABLE_def

text \<open>
  The queue as the list of its elements in the order they were pushed; \<open>top\<close> is the first of
  the elements no other is greater than.
\<close>

definition pq_push :: "chunk_info \<Rightarrow> chunk_info list \<Rightarrow> chunk_info list" where
  "pq_push c q = q @ [c]"

fun pq_top :: "chunk_info list \<Rightarrow> chunk_info option" where
  "pq_top [] = None"
| "pq_top (c # q) =
     (case pq_top q of None \<Rightarrow> Some c | Some d \<Rightarrow> if chunk_cmp c d then Some d else Some c)"

definition pq_pop :: "chunk_info list \<Rightarrow> chunk_info list" where
  "pq_pop q = (case pq_top q of None \<Rightarrow> q | Some c \<Rightarrow> remove1 c q)"

lemma pq_top_None [simp]: "pq_top q = None \<longleftrightarrow> q = []"
  by (cases q) (auto split: option.splits)

lemma pq_top_Some:
  "pq_top q = Some c \<Longrightarrow> c \<in> set q \<and> (\<forall>d \<in> set q. ci_priority d \<le> ci_priority c)"
  by (induction q arbitrary: c) (force simp: chunk_cmp_def split: option.splits if_splits)+

interpretation pq: priority_queue "[]" pq_push pq_top pq_pop ci_priority mset
  by unfold_locales (auto simp: pq_push_def pq_pop_def dest: pq_top_Some)

fun owners_of_chunk :: "file_owner list \<Rightarrow> int \<Rightarrow> file_owner list outcome" where
  "owners_of_chunk [] n = Ret []"
| "owners_of_chunk (p # ps) n =
     (case bs_test (fo_bitmap p) n of
        Throw e \<Rightarrow> Throw e
      | Ret has \<Rightarrow>
          (case owners_of_chunk ps n of
             Throw e \<Rightarrow> Throw e
           | Ret os \<Rightarrow> Ret (if has then p # os else os)))"

definition get_priority ::
    "(string, file_owner list) smap \<Rightarrow> chunk_info \<Rightarrow> int \<Rightarrow> chunk_info outcome" where
  "get_priority infoMap info baseline =
     (case sm_find infoMap (ci_fileid info) of
        None \<Rightarrow> Throw AssertionViolation
      | Some infoList \<Rightarrow>
          (case owners_of_chunk infoList (ci_chunk_num info) of
             Throw e \<Rightarrow> Throw e
           | Ret os \<Rightarrow>
               let info = info\<lparr>ci_clientLists := os\<rparr>;
                   n = int (length os);
                   p = (if n = 0 then UNAVAILABLE
                        else if n < RARE_COUNT then HIGHEST - n
                        else NORMAL)
               in Ret (info\<lparr>ci_priority := p + baseline\<rparr>)))"

section \<open>The selector\<close>

record selector =
  cs_jobInfo :: job_info
  cs_queue :: "chunk_info list"

definition set_bitmap_map :: "(string, bitset option) smap \<Rightarrow> selector \<Rightarrow> selector" where
  "set_bitmap_map bm s =
     s\<lparr>cs_jobInfo := (cs_jobInfo s)\<lparr>ji_downloadInfo :=
        (ji_downloadInfo (cs_jobInfo s))\<lparr>bitmap_map := bm\<rparr>\<rparr>\<rparr>"

definition fileidlist :: "selector \<Rightarrow> string list" where
  "fileidlist s = ji_fileidlist (cs_jobInfo s)"

definition init_chunk :: "string \<Rightarrow> int \<Rightarrow> selector \<Rightarrow> (unit, selector) result" where
  "init_chunk fileid chunk_pos s =
     (let (p, bm) = sm_get None fileid (bitmap_map (ji_downloadInfo (cs_jobInfo s)));
          s = set_bitmap_map bm s
      in case p of
           None \<Rightarrow> (Throw NullPointer, s)
         | Some b \<Rightarrow>
             (case bs_test b chunk_pos of
                Throw e \<Rightarrow> (Throw e, s)
              | Ret downloaded \<Rightarrow>
                  if downloaded then (Ret (), s)
                  else
                    (case get_priority (ji_ownerInfoMap (cs_jobInfo s))
                       (new_chunk_info\<lparr>ci_chunk_num := chunk_pos, ci_fileid := fileid\<rparr>) 0 of
                       Throw e \<Rightarrow> (Throw e, s)
                     | Ret info \<Rightarrow> (Ret (), s\<lparr>cs_queue := pq_push info (cs_queue s)\<rparr>))))"

fun init_chunks :: "string \<Rightarrow> int list \<Rightarrow> selector \<Rightarrow> (unit, selector) result" where
  "init_chunks fileid [] s = (Ret (), s)"
| "init_chunks fileid (pos # ps) s =
     and_then (init_chunk fileid pos s) (\<lambda>_ s. init_chunks fileid ps s)"

fun init_files :: "string list \<Rightarrow> selector \<Rightarrow> (unit, selector) result" where
  "init_files [] s = (Ret (), s)"
| "init_files (fileid # fs) s =
     (case sm_find (ti_fileMap (ji_torrentInfo (cs_jobInfo s))) fileid of
        None \<Rightarrow> (Throw AssertionViolation, s)
      | Some infos \<Rightarrow>
          check (length infos \<noteq> 0) s (
          and_then (init_chunks fileid (map int [0..<nat (tfi_chunk_count (infos ! 0))]) s)
            (\<lambda>_ s. init_files fs s)))"

definition init_queue :: "selector \<Rightarrow> (unit, selector) result" where
  "init_queue s = init_files (UniqueFileidList (cs_jobInfo s)) (s\<lparr>cs_queue := []\<rparr>)"

definition get_chunk :: "selector \<Rightarrow> chunk_info option \<times> selector" where
  "get_chunk s =
     (if length (cs_queue s) > 0
      then (pq_top (cs_queue s), s\<lparr>cs_queue := pq_pop (cs_queue s)\<rparr>)
      else (None, s))"

definition report_success_chunk :: "int \<Rightarrow> string \<Rightarrow> selector \<Rightarrow> (unit, selector) result" where
  "report_success_chunk chunk_num fileid s =
     (let (p, bm) = sm_get None fileid (bitmap_map (ji_downloadInfo (cs_jobInfo s)));
          s = set_bitmap_map bm s
      in case p of
           None \<Rightarrow> (Throw NullPointer, s)
         | Some b \<Rightarrow>
             (case bs_assign b chunk_num True of
                Throw e \<Rightarrow> (Throw e, s)
              | Ret b' \<Rightarrow> (Ret (), set_bitmap_map (sm_set fileid (Some b') bm) s)))"

definition report_chunk ::
    "chunk_status \<Rightarrow> int \<Rightarrow> int \<Rightarrow> string \<Rightarrow> selector \<Rightarrow> (unit, selector) result" where
  "report_chunk status baseline chunk_num fileid s =
     (case get_priority (ji_ownerInfoMap (cs_jobInfo s))
        (new_chunk_info\<lparr>ci_status := status, ci_chunk_num := chunk_num, ci_fileid := fileid\<rparr>)
        baseline of
        Throw e \<Rightarrow> (Throw e, s)
      | Ret info \<Rightarrow> (Ret (), s\<lparr>cs_queue := pq_push info (cs_queue s)\<rparr>))"

definition report_failed_chunk :: "int \<Rightarrow> string \<Rightarrow> selector \<Rightarrow> (unit, selector) result" where
  "report_failed_chunk chunk_num fileid s = report_chunk FAILED (0 - NORMAL) chunk_num fileid s"

definition report_no_owner_chunk :: "int \<Rightarrow> string \<Rightarrow> selector \<Rightarrow> (unit, selector) result" where
  "report_no_owner_chunk chunk_num fileid s = report_chunk NOOWNER (0 - HIGHEST) chunk_num fileid s"

section \<open>Lemmas: priorities\<close>

definition base_priority :: "nat \<Rightarrow> int" where
  "base_priority n = (if n = 0 then 0 else if n < 5 then 20 - int n else 10)"

definition has_chunk :: "int \<Rightarrow> file_owner \<Rightarrow> bool" where
  "has_chunk n p \<longleftrightarrow> bs_test (fo_bitmap p) n = Ret True"

lemma bs_test_owner:
  "bs_test (fo_bitmap p) n =
     (if 0 \<le> n \<and> n < int (length (fo_bitmap p)) then Ret (has_chunk n p) else Throw Undefined)"
  by (auto simp: has_chunk_def bs_test_def)

lemma owners_of_chunk_eq:
  "owners_of_chunk ps n =
     (if \<forall>p \<in> set ps. 0 \<le> n \<and> n < int (length (fo_bitmap p))
      then Ret (filter (has_chunk n) ps) else Throw Undefined)"
  by (induction ps) (auto simp: bs_test_owner)

lemma get_priority_eq:
  "get_priority m info base =
     (case sm_find m (ci_fileid info) of
        None \<Rightarrow> Throw AssertionViolation
      | Some ps \<Rightarrow>
          if \<forall>p \<in> set ps. 0 \<le> ci_chunk_num info \<and> ci_chunk_num info < int (length (fo_bitmap p))
          then Ret (info\<lparr>ci_clientLists := filter (has_chunk (ci_chunk_num info)) ps,
                 ci_priority := base_priority (length (filter (has_chunk (ci_chunk_num info)) ps)) + base\<rparr>)
          else Throw Undefined)"
  by (auto simp: get_priority_def owners_of_chunk_eq base_priority_def priority_consts Let_def
      split: option.splits)

lemma base_priority_nonneg: "0 \<le> base_priority n"
  by (simp add: base_priority_def)

lemma base_priority_le: "base_priority n \<le> 19"
  by (simp add: base_priority_def)

lemma base_priority_pos: "0 < n \<Longrightarrow> 10 \<le> base_priority n"
  by (simp add: base_priority_def)

section \<open>Lemmas: filling the queue\<close>

text \<open>What \<open>init_queue\<close> relies on: every owner's bitmap has as many bits as the file's own.\<close>

definition owners_known :: "job_info \<Rightarrow> bool" where
  "owners_known ji \<longleftrightarrow>
     (\<forall>c \<in> set (ji_fileidlist ji). \<exists>os b.
        sm_find (ji_ownerInfoMap ji) c = Some os \<and>
        sm_find (bitmap_map (ji_downloadInfo ji)) c = Some (Some b) \<and>
        (\<forall>p \<in> set os. length (fo_bitmap p) = length b))"

definition chunk_entry ::
    "(string, file_owner list) smap \<Rightarrow> chunk_status \<Rightarrow> int \<Rightarrow> string \<Rightarrow> int \<Rightarrow> chunk_info" where
  "chunk_entry m status base fileid n =
     (let os = filter (has_chunk n) (case sm_find m fileid of Some ps \<Rightarrow> ps | None \<Rightarrow> [])
      in \<lparr>ci_status = status, ci_fileid = fileid, ci_priority = base_priority (length os) + base,
          ci_chunk_num = n, ci_clientLists = os\<rparr>)"

lemma chunk_entry_simps [simp]:
  "ci_status (chunk_entry m st base c n) = st" "ci_fileid (chunk_entry m st base c n) = c"
  "ci_chunk_num (chunk_entry m st base c n) = n"
  by (simp_all add: chunk_entry_def Let_def)

lemma get_priority_entry:
  assumes "sm_find m c = Some os" and "0 \<le> n" and "\<forall>p \<in> set os. n < int (length (fo_bitmap p))"
  shows "get_priority m (new_chunk_info\<lparr>ci_chunk_num := n, ci_fileid := c\<rparr>) 0 = Ret (chunk_entry m FREE 0 c n)"
    and "get_priority m (new_chunk_info\<lparr>ci_status := st, ci_chunk_num := n, ci_fileid := c\<rparr>) base
      = Ret (chunk_entry m st base c n)"
  using assms by (simp_all add: get_priority_eq chunk_entry_def new_chunk_info_def Let_def)

definition missing_chunks :: "job_info \<Rightarrow> string \<Rightarrow> int list" where
  "missing_chunks ji c =
     (case sm_find (bitmap_map (ji_downloadInfo ji)) c of
        Some (Some b) \<Rightarrow> filter (\<lambda>n. \<not> b ! nat n) (map int [0..<length b])
      | _ \<Rightarrow> [])"

lemma set_bitmap_map_same [simp]:
  "set_bitmap_map (bitmap_map (ji_downloadInfo (cs_jobInfo s))) s = s"
  by (simp add: set_bitmap_map_def)

lemma init_chunk_step:
  assumes "sm_find (bitmap_map (ji_downloadInfo (cs_jobInfo s))) c = Some (Some b)"
    and "sm_find (ji_ownerInfoMap (cs_jobInfo s)) c = Some os"
    and "\<forall>p \<in> set os. length (fo_bitmap p) = length b" and "0 \<le> n" and "n < int (length b)"
  shows "init_chunk c n s =
    (Ret (), s\<lparr>cs_queue := cs_queue s @
       (if b ! nat n then [] else [chunk_entry (ji_ownerInfoMap (cs_jobInfo s)) FREE 0 c n])\<rparr>)"
  using assms get_priority_entry(1) [OF assms(2,4)]
  by (simp add: init_chunk_def sm_get_def bs_test_def pq_push_def)

lemma init_chunks_run:
  assumes "sm_find (bitmap_map (ji_downloadInfo (cs_jobInfo s))) c = Some (Some b)"
    and "sm_find (ji_ownerInfoMap (cs_jobInfo s)) c = Some os"
    and "\<forall>p \<in> set os. length (fo_bitmap p) = length b"
    and "\<forall>n \<in> set ns. 0 \<le> n \<and> n < int (length b)"
  shows "init_chunks c ns s =
    (Ret (), s\<lparr>cs_queue := cs_queue s @
       map (chunk_entry (ji_ownerInfoMap (cs_jobInfo s)) FREE 0 c) (filter (\<lambda>n. \<not> b ! nat n) ns)\<rparr>)"
  using assms
proof (induction ns arbitrary: s)
  case (Cons n ns)
  from Cons.prems have step: "init_chunk c n s = (Ret (), s\<lparr>cs_queue := cs_queue s @
       (if b ! nat n then [] else [chunk_entry (ji_ownerInfoMap (cs_jobInfo s)) FREE 0 c n])\<rparr>)"
    by (intro init_chunk_step) simp_all
  show ?case
    unfolding init_chunks.simps step and_then_Ret
    by (subst Cons.IH) (use Cons.prems in simp_all)
qed simp

lemma init_files_run:
  assumes "job_wf (cs_jobInfo s)" and "owners_known (cs_jobInfo s)"
    and "set cs \<subseteq> set (ji_fileidlist (cs_jobInfo s))"
  shows "init_files cs s =
    (Ret (), s\<lparr>cs_queue := cs_queue s @
       concat (map (\<lambda>c. map (chunk_entry (ji_ownerInfoMap (cs_jobInfo s)) FREE 0 c)
         (missing_chunks (cs_jobInfo s) c)) cs)\<rparr>)"
  using assms
proof (induction cs arbitrary: s)
  case (Cons c cs)
  let ?ji = "cs_jobInfo s"
  from Cons.prems obtain b infos where b: "sm_find (bitmap_map (ji_downloadInfo ?ji)) c = Some (Some b)"
    "sm_find (ti_fileMap (ji_torrentInfo ?ji)) c = Some infos" "infos \<noteq> []"
    "tfi_chunk_count (hd infos) = int (length b)"
    by (auto simp: job_wf_def)
  from Cons.prems b obtain os where os: "sm_find (ji_ownerInfoMap ?ji) c = Some os"
    "\<forall>p \<in> set os. length (fo_bitmap p) = length b"
    by (fastforce simp: owners_known_def)
  have "init_chunks c (map int [0..<length b]) s =
    (Ret (), s\<lparr>cs_queue := cs_queue s @
       map (chunk_entry (ji_ownerInfoMap ?ji) FREE 0 c) (missing_chunks ?ji c)\<rparr>)"
    using init_chunks_run [OF b(1) os(1,2)] b(1) by (simp add: missing_chunks_def)
  then show ?case
    using Cons b by (simp add: hd_conv_nth)
qed simp

lemma init_queue_run:
  assumes "job_wf (cs_jobInfo s)" and "owners_known (cs_jobInfo s)"
  shows "init_queue s =
    (Ret (), s\<lparr>cs_queue := concat (map (\<lambda>c. map (chunk_entry (ji_ownerInfoMap (cs_jobInfo s)) FREE 0 c)
         (missing_chunks (cs_jobInfo s) c)) (UniqueFileidList (cs_jobInfo s)))\<rparr>)"
  unfolding init_queue_def
  by (subst init_files_run) (use assms in \<open>simp_all add: UniqueFileidList_def\<close>)

section \<open>Lemmas: what the queue can hold\<close>

text \<open>The priority of a queued chunk tells its status and how many owners it was queued with.\<close>

definition entry_ok :: "chunk_info \<Rightarrow> bool" where
  "entry_ok c \<longleftrightarrow>
     (let p = base_priority (length (ci_clientLists c)) in
        ci_status c = FREE \<and> ci_priority c = p \<or>
        ci_status c = FAILED \<and> ci_priority c = p - 10 \<or>
        ci_status c = NOOWNER \<and> ci_priority c = p - 20)"

definition queue_inv :: "selector \<Rightarrow> bool" where
  "queue_inv s \<longleftrightarrow> (\<forall>c \<in> set (cs_queue s). entry_ok c)"

lemma get_priority_entry_ok:
  assumes "get_priority m (new_chunk_info\<lparr>ci_status := st, ci_chunk_num := n, ci_fileid := f\<rparr>) base = Ret c"
    and "st = FREE \<and> base = 0 \<or> st = FAILED \<and> base = - 10 \<or> st = NOOWNER \<and> base = - 20"
  shows "entry_ok c"
  using assms by (auto simp: get_priority_eq entry_ok_def Let_def split: option.splits if_splits)

lemma new_chunk_free:
  "new_chunk_info\<lparr>ci_chunk_num := n, ci_fileid := f\<rparr>
     = new_chunk_info\<lparr>ci_status := FREE, ci_chunk_num := n, ci_fileid := f\<rparr>"
  by (simp add: new_chunk_info_def)

lemma queue_inv_set_bitmap_map [simp]: "queue_inv (set_bitmap_map bm s) = queue_inv s"
  by (simp add: queue_inv_def set_bitmap_map_def)

lemma queue_inv_push: "queue_inv s \<Longrightarrow> entry_ok c \<Longrightarrow> queue_inv (s\<lparr>cs_queue := pq_push c (cs_queue s)\<rparr>)"
  by (auto simp: queue_inv_def pq_push_def)

lemma init_chunk_inv: "queue_inv s \<Longrightarrow> queue_inv (snd (init_chunk f n s))"
  by (auto simp: init_chunk_def new_chunk_free Let_def split: prod.splits option.splits outcome.splits
      intro!: queue_inv_push dest: get_priority_entry_ok)

lemma init_chunks_inv: "queue_inv s \<Longrightarrow> queue_inv (snd (init_chunks f ns s))"
  by (induction ns arbitrary: s) (auto intro!: and_then_inv [where P = queue_inv] init_chunk_inv)

lemma init_files_inv: "queue_inv s \<Longrightarrow> queue_inv (snd (init_files fs s))"
  by (induction fs arbitrary: s)
    (auto simp: check_def intro!: and_then_inv [where P = queue_inv] init_chunks_inv split: option.splits)

lemma init_queue_inv: "queue_inv (snd (init_queue s))"
  unfolding init_queue_def by (rule init_files_inv) (simp add: queue_inv_def)

lemma get_chunk_inv: "queue_inv s \<Longrightarrow> queue_inv (snd (get_chunk s))"
  by (auto simp: queue_inv_def get_chunk_def pq_pop_def split: option.splits
      dest: set_mp [OF set_remove1_subset])

lemma report_success_inv: "queue_inv s \<Longrightarrow> queue_inv (snd (report_success_chunk n f s))"
  by (auto simp: report_success_chunk_def Let_def split: prod.splits option.splits outcome.splits)

lemma report_chunk_inv:
  "queue_inv s \<Longrightarrow> st = FAILED \<and> base = - 10 \<or> st = NOOWNER \<and> base = - 20 \<Longrightarrow>
     queue_inv (snd (report_chunk st base n f s))"
  by (auto simp: report_chunk_def split: outcome.splits intro!: queue_inv_push dest: get_priority_entry_ok)

text \<open>
  The steps of the selector: its operations with any arguments and outcome, and any change the
  job makes to the data it shares with the selector.
\<close>

inductive selector_step :: "selector \<Rightarrow> selector \<Rightarrow> bool" where
  init: "selector_step s (snd (init_queue s))"
| get: "selector_step s (snd (get_chunk s))"
| success: "selector_step s (snd (report_success_chunk n f s))"
| failed: "selector_step s (snd (report_failed_chunk n f s))"
| no_owner: "selector_step s (snd (report_no_owner_chunk n f s))"
| job_data: "selector_step s (s\<lparr>cs_jobInfo := ji\<rparr>)"

lemma selector_step_inv: "selector_step s s' \<Longrightarrow> queue_inv s \<Longrightarrow> queue_inv s'"
  by (induction rule: selector_step.induct)
    (simp_all add: init_queue_inv get_chunk_inv report_success_inv report_failed_chunk_def
      report_no_owner_chunk_def report_chunk_inv priority_consts, simp add: queue_inv_def)

lemma selector_run_inv:
  "selector_step\<^sup>*\<^sup>* s s' \<Longrightarrow> cs_queue s = [] \<Longrightarrow> queue_inv s'"
  by (induction rule: rtranclp_induct) (auto simp: queue_inv_def dest: selector_step_inv)

lemma noowner_last:
  assumes "entry_ok c" "entry_ok d" "ci_status c = NOOWNER" "ci_priority d \<le> ci_priority c"
  shows "ci_status d = NOOWNER \<or> ci_status d = FAILED \<and> ci_clientLists d = []"
proof -
  have "ci_priority c \<le> - 1"
    using assms(1,3) base_priority_le [of "length (ci_clientLists c)"]
    by (auto simp: entry_ok_def Let_def)
  then have "ci_priority d \<le> - 1" using assms(4) by simp
  then show ?thesis
    using assms(2) base_priority_nonneg [of "length (ci_clientLists d)"]
      base_priority_pos [of "length (ci_clientLists d)"]
    by (cases "ci_clientLists d = []") (auto simp: entry_ok_def Let_def)
qed

section \<open>Lemmas: the filled queue\<close>

lemma missing_chunks_iff:
  "n \<in> set (missing_chunks ji f) \<longleftrightarrow>
     (\<exists>b. sm_find (bitmap_map (ji_downloadInfo ji)) f = Some (Some b) \<and> bs_test b n = Ret False)"
proof (cases "sm_find (bitmap_map (ji_downloadInfo ji)) f")
  case (Some p)
  then show ?thesis
  proof (cases p)
    fix b assume "p = Some b"
    have "n \<in> int ` {0..<length b} \<longleftrightarrow> 0 \<le> n \<and> n < int (length b)"
      by (auto simp: image_iff intro!: bexI [of _ "nat n"])
    with Some \<open>p = Some b\<close> show ?thesis
      by (auto simp: missing_chunks_def bs_test_Ret)
  qed (simp add: missing_chunks_def)
qed (simp add: missing_chunks_def)

lemma distinct_missing_chunks: "distinct (missing_chunks ji f)"
  by (auto simp: missing_chunks_def distinct_map inj_on_def split: option.splits)

definition fresh_queue :: "job_info \<Rightarrow> chunk_info list" where
  "fresh_queue ji = concat (map (\<lambda>c. map (chunk_entry (ji_ownerInfoMap ji) FREE 0 c) (missing_chunks ji c))
     (UniqueFileidList ji))"

definition queue_ids :: "chunk_info list \<Rightarrow> (string \<times> int) list" where
  "queue_ids q = map (\<lambda>c. (ci_fileid c, ci_chunk_num c)) q"

lemma fresh_queue_ids:
  "queue_ids (fresh_queue ji) = concat (map (\<lambda>c. map (Pair c) (missing_chunks ji c)) (UniqueFileidList ji))"
  by (simp add: queue_ids_def fresh_queue_def map_concat comp_def)

lemma distinct_pairs:
  "distinct cs \<Longrightarrow> (\<And>c. distinct (f c)) \<Longrightarrow> distinct (concat (map (\<lambda>c. map (Pair c) (f c)) cs))"
  by (induction cs) (auto simp: distinct_map inj_on_def)

lemma fresh_queue_distinct: "distinct (queue_ids (fresh_queue ji))"
  unfolding fresh_queue_ids
  by (rule distinct_pairs)
    (simp_all add: UniqueFileidList_def distinct_set_to_list distinct_missing_chunks)

lemma fresh_queue_set:
  "set (queue_ids (fresh_queue ji)) = {(f, n). f \<in> set (ji_fileidlist ji) \<and> n \<in> set (missing_chunks ji f)}"
  unfolding fresh_queue_ids by (auto simp: UniqueFileidList_def)

lemma fresh_queue_entry:
  assumes "c \<in> set (fresh_queue ji)"
  shows "\<exists>f n. f \<in> set (ji_fileidlist ji) \<and> c = chunk_entry (ji_ownerInfoMap ji) FREE 0 f n"
  using assms by (auto simp: fresh_queue_def UniqueFileidList_def)

section \<open>Properties\<close>

text \<open>
  C18: on a well-formed job whose owners' bitmaps have been received, \<open>init_queue\<close> does not fail
  and fills the queue with exactly the chunks that are not downloaded yet, each once, each free,
  with the owners that have it and the priority their number gives.
\<close>

theorem init_queue_complete:
  assumes "job_wf (cs_jobInfo s)" and "owners_known (cs_jobInfo s)"
  shows "\<exists>q. init_queue s = (Ret (), s\<lparr>cs_queue := q\<rparr>) \<and>
    distinct (queue_ids q) \<and>
    set (queue_ids q) =
      {(f, n). f \<in> set (ji_fileidlist (cs_jobInfo s)) \<and>
         (\<exists>b. sm_find (bitmap_map (ji_downloadInfo (cs_jobInfo s))) f = Some (Some b) \<and>
            bs_test b n = Ret False)} \<and>
    (\<forall>c \<in> set q. \<exists>os. sm_find (ji_ownerInfoMap (cs_jobInfo s)) (ci_fileid c) = Some os \<and>
       ci_status c = FREE \<and> ci_clientLists c = filter (has_chunk (ci_chunk_num c)) os \<and>
       ci_priority c = base_priority (length (ci_clientLists c)))"
proof (intro exI conjI)
  let ?ji = "cs_jobInfo s"
  let ?q = "fresh_queue ?ji"
  show "init_queue s = (Ret (), s\<lparr>cs_queue := ?q\<rparr>)"
    using init_queue_run [OF assms] by (simp add: fresh_queue_def)
  show "distinct (queue_ids ?q)" by (rule fresh_queue_distinct)
  show "set (queue_ids ?q) = {(f, n). f \<in> set (ji_fileidlist ?ji) \<and>
         (\<exists>b. sm_find (bitmap_map (ji_downloadInfo ?ji)) f = Some (Some b) \<and> bs_test b n = Ret False)}"
    unfolding fresh_queue_set missing_chunks_iff ..
  show "\<forall>c \<in> set ?q. \<exists>os. sm_find (ji_ownerInfoMap ?ji) (ci_fileid c) = Some os \<and>
       ci_status c = FREE \<and> ci_clientLists c = filter (has_chunk (ci_chunk_num c)) os \<and>
       ci_priority c = base_priority (length (ci_clientLists c))"
  proof
    fix c assume "c \<in> set ?q"
    then obtain f n where f: "f \<in> set (ji_fileidlist ?ji)" "c = chunk_entry (ji_ownerInfoMap ?ji) FREE 0 f n"
      using fresh_queue_entry by blast
    moreover from this assms(2) obtain os where "sm_find (ji_ownerInfoMap ?ji) f = Some os"
      unfolding owners_known_def by blast
    ultimately show "\<exists>os. sm_find (ji_ownerInfoMap ?ji) (ci_fileid c) = Some os \<and>
       ci_status c = FREE \<and> ci_clientLists c = filter (has_chunk (ci_chunk_num c)) os \<and>
       ci_priority c = base_priority (length (ci_clientLists c))"
      by (simp add: chunk_entry_def Let_def)
  qed
qed

text \<open>
  A job for the witnesses: the demo torrent, with one owner that has the first and third chunk
  of the first file and one that has all of the second.
\<close>

definition demo_owners :: "(string, file_owner list) smap" where
  "demo_owners =
     [(''a'', [(file_owner_of ''p1'' ''10.0.0.1'' 9025 40)\<lparr>fo_bitmap := [True, False, True]\<rparr>,
               (file_owner_of ''p2'' ''10.0.0.2'' 9025 100)\<lparr>fo_bitmap := [True, True, True]\<rparr>]),
      (''c'', [(file_owner_of ''p2'' ''10.0.0.2'' 9025 100)\<lparr>fo_bitmap := [True]\<rparr>])]"

definition demo_job :: job_info where
  "demo_job = (fst (job_info_of 0 0 demo_torrent ''/tmp/'' (needs_all demo_torrent) empty_disk))
     \<lparr>ji_ownerInfoMap := demo_owners\<rparr>"

definition demo_selector :: selector where
  "demo_selector = \<lparr>cs_jobInfo = demo_job, cs_queue = []\<rparr>"

lemma demo_job_base:
  "job_info_of 0 0 demo_torrent ''/tmp/'' (needs_all demo_torrent) empty_disk =
     (fst (job_info_of 0 0 demo_torrent ''/tmp/'' (needs_all demo_torrent) empty_disk),
      snd (job_info_of 0 0 demo_torrent ''/tmp/'' (needs_all demo_torrent) empty_disk))"
  by simp

lemma demo_job_data:
  "ji_fileidlist demo_job = [''a'', ''a'', ''c'']"
  "sm_find (bitmap_map (ji_downloadInfo demo_job)) ''a'' = Some (Some [False, False, False])"
  "sm_find (bitmap_map (ji_downloadInfo demo_job)) ''c'' = Some (Some [False])"
  "job_wf demo_job" "ji_ownerInfoMap demo_job = demo_owners"
  "ji_torrentInfo demo_job = torrent_info_of demo_torrent"
proof -
  note data = job_fold_data [OF demo_job_base [unfolded job_info_of_start]]
  show "ji_fileidlist demo_job = [''a'', ''a'', ''c'']"
    and "sm_find (bitmap_map (ji_downloadInfo demo_job)) ''a'' = Some (Some [False, False, False])"
    and "sm_find (bitmap_map (ji_downloadInfo demo_job)) ''c'' = Some (Some [False])"
    and "ji_torrentInfo demo_job = torrent_info_of demo_torrent"
    using data
    by (simp_all add: demo_job_def job_info_of_start)
      (simp_all add: demo_torrent_def demo_chunks_def needs_all_def needs_file_def identity_eq_def
        wanted_def bs_new_def numeral_eq_Suc)
  show "ji_ownerInfoMap demo_job = demo_owners" by (simp add: demo_job_def)
  have "job_wf (fst (job_info_of 0 0 demo_torrent ''/tmp/'' (needs_all demo_torrent) empty_disk))"
    using job_info_of_facts [OF demo_consistent demo_job_base] by simp
  then show "job_wf demo_job" by (simp add: demo_job_def job_wf_def)
qed

lemma demo_owners_known: "owners_known demo_job"
  by (simp add: owners_known_def demo_job_data) (simp add: demo_owners_def)

theorem init_queue_complete_witness:
  "\<exists>q. init_queue demo_selector = (Ret (), demo_selector\<lparr>cs_queue := q\<rparr>) \<and> distinct (queue_ids q) \<and>
     (''a'', 1) \<in> set (queue_ids q) \<and> (''b'', 0) \<notin> set (queue_ids q)"
proof -
  have "job_wf (cs_jobInfo demo_selector)" "owners_known (cs_jobInfo demo_selector)"
    by (simp_all add: demo_selector_def demo_job_data demo_owners_known)
  from init_queue_complete [OF this] obtain q where
    q: "init_queue demo_selector = (Ret (), demo_selector\<lparr>cs_queue := q\<rparr>)" "distinct (queue_ids q)"
    "set (queue_ids q) = {(f, n). f \<in> set (ji_fileidlist demo_job) \<and>
       (\<exists>b. sm_find (bitmap_map (ji_downloadInfo demo_job)) f = Some (Some b) \<and> bs_test b n = Ret False)}"
    by (auto simp: demo_selector_def)
  have "(''a'', 1) \<in> set (queue_ids q)" "(''b'', 0) \<notin> set (queue_ids q)"
    unfolding q(3) by (simp_all add: demo_job_data bs_test_def)
  with q(1,2) show ?thesis by blast
qed

text \<open>
  \<open>get_chunk\<close> takes a chunk of greatest priority out of the queue and nothing else, and gives
  null exactly when the queue is empty.
\<close>

theorem get_chunk_takes_greatest:
  shows "(case get_chunk s of
     (Some c, s') \<Rightarrow> mset (cs_queue s) = add_mset c (mset (cs_queue s')) \<and>
        (\<forall>d \<in># mset (cs_queue s'). \<not> chunk_cmp c d) \<and> cs_jobInfo s' = cs_jobInfo s
   | (None, s') \<Rightarrow> cs_queue s = [] \<and> s' = s)"
proof (cases "pq_top (cs_queue s)")
  case None
  then show ?thesis by (simp add: get_chunk_def)
next
  case (Some c)
  then have "cs_queue s \<noteq> []" by auto
  then show ?thesis
    using pq.elems_top_pop [OF Some] pq.rest_below_top [OF Some]
    by (auto simp: get_chunk_def Some chunk_cmp_def not_less)
qed

theorem get_chunk_takes_greatest_witness:
  "fst (get_chunk (demo_selector\<lparr>cs_queue := [chunk_entry demo_owners FREE 0 ''a'' 0,
      chunk_entry demo_owners FREE 0 ''a'' 1, chunk_entry demo_owners FAILED (-10) ''c'' 0]\<rparr>))
   = Some (chunk_entry demo_owners FREE 0 ''a'' 1)"
proof -
  let ?q = "[chunk_entry demo_owners FREE 0 ''a'' 0,
      chunk_entry demo_owners FREE 0 ''a'' 1, chunk_entry demo_owners FAILED (-10) ''c'' 0]"
  let ?s = "demo_selector\<lparr>cs_queue := ?q\<rparr>"
  have prios: "map ci_priority ?q = [18, 19, 9]"
    by (simp add: chunk_entry_def demo_owners_def has_chunk_def bs_test_def base_priority_def
        file_owner_of_def Let_def)
  from get_chunk_takes_greatest [of ?s] prios show ?thesis
    by (auto simp: get_chunk_def chunk_cmp_def split: option.splits prod.splits if_splits)
qed

text \<open>
  C22: whatever the history of the selector, once a chunk with status \<open>NOOWNER\<close> comes out of the
  queue, every chunk left in it is one that had no owner when it was queued or is \<open>NOOWNER\<close>
  itself: no free chunk and no failed chunk with an owner is left behind.
\<close>

theorem noowner_chunk_comes_last:
  assumes "selector_step\<^sup>*\<^sup>* s0 s" and "cs_queue s0 = []"
    and "get_chunk s = (Some c, s')" and "ci_status c = NOOWNER" and "d \<in> set (cs_queue s')"
  shows "ci_status d = NOOWNER \<or> ci_status d = FAILED \<and> ci_clientLists d = []"
proof -
  from assms(3) have top: "pq_top (cs_queue s) = Some c" and s': "cs_queue s' = pq_pop (cs_queue s)"
    by (auto simp: get_chunk_def split: if_splits)
  have "queue_inv s" using selector_run_inv assms(1,2) .
  moreover have "mset (cs_queue s) = add_mset c (mset (cs_queue s'))"
    unfolding s' by (rule pq.elems_top_pop [OF top])
  then have "set (cs_queue s) = insert c (set (cs_queue s'))"
    by (metis set_mset_add_mset_insert set_mset_mset)
  ultimately have "entry_ok c" "entry_ok d"
    using assms(5) by (auto simp: queue_inv_def)
  moreover have "ci_priority d \<le> ci_priority c"
    using pq.rest_below_top [OF top] assms(5) s' by simp
  ultimately show ?thesis using assms(4) by (intro noowner_last)
qed

lemma demo_report:
  assumes "n = 0 \<or> n = 1"
  shows "report_no_owner_chunk n ''a'' (demo_selector\<lparr>cs_queue := q\<rparr>) =
    (Ret (), demo_selector\<lparr>cs_queue := q @ [chunk_entry demo_owners NOOWNER (-20) ''a'' n]\<rparr>)"
proof -
  have "get_priority demo_owners
      (new_chunk_info\<lparr>ci_status := NOOWNER, ci_chunk_num := n, ci_fileid := ''a''\<rparr>) (-20)
      = Ret (chunk_entry demo_owners NOOWNER (-20) ''a'' n)"
    using assms by (intro get_priority_entry(2)) (auto simp: demo_owners_def)
  then show ?thesis
    by (simp add: report_no_owner_chunk_def report_chunk_def demo_selector_def demo_job_data
        priority_consts pq_push_def)
qed

theorem noowner_chunk_comes_last_witness:
  "\<exists>s c s' d. selector_step\<^sup>*\<^sup>* demo_selector s \<and> get_chunk s = (Some c, s') \<and>
     ci_status c = NOOWNER \<and> d \<in> set (cs_queue s') \<and>
     (ci_status d = NOOWNER \<or> ci_status d = FAILED \<and> ci_clientLists d = [])"
proof -
  let ?c = "\<lambda>n. chunk_entry demo_owners NOOWNER (-20) ''a'' n"
  let ?s = "demo_selector\<lparr>cs_queue := [?c 0, ?c 1]\<rparr>"
  have start: "demo_selector = demo_selector\<lparr>cs_queue := []\<rparr>" by (simp add: demo_selector_def)
  have "snd (report_no_owner_chunk 1 ''a'' (snd (report_no_owner_chunk 0 ''a'' demo_selector))) = ?s"
    by (subst start) (simp add: demo_report)
  then have run: "selector_step\<^sup>*\<^sup>* demo_selector ?s"
    by (metis selector_step.no_owner rtranclp.rtrancl_into_rtrancl rtranclp.rtrancl_refl)
  have "ci_priority (?c 0) = -2" "ci_priority (?c 1) = -1"
    by (simp_all add: chunk_entry_def demo_owners_def has_chunk_def bs_test_def base_priority_def
        file_owner_of_def Let_def)
  moreover from this have "?c 1 \<noteq> ?c 0" by (metis numeral_One numeral_eq_iff semiring_norm(85) neg_equal_iff_equal)
  ultimately have get: "get_chunk ?s = (Some (?c 1), ?s\<lparr>cs_queue := [?c 0]\<rparr>)"
    by (simp add: get_chunk_def pq_pop_def chunk_cmp_def)
  have "cs_queue demo_selector = []" by (simp add: demo_selector_def)
  from noowner_chunk_comes_last [OF run this get, of "?c 0"] run get show ?thesis
    by (intro exI [of _ ?s] exI [of _ "?c 1"] exI [of _ "?s\<lparr>cs_queue := [?c 0]\<rparr>"] exI [of _ "?c 0"])
      simp
qed

text \<open>
  An owner whose bitmap was never received, as \<open>RequestClients\<close> creates it and as it stays
  when the hand-shake with it fails, makes \<open>init_queue\<close> read its empty bitmap out of range at
  the first missing chunk.
\<close>

theorem owner_without_bitmap_breaks_init:
  assumes "UniqueFileidList (cs_jobInfo s) = c # cs"
    and "sm_find (ti_fileMap (ji_torrentInfo (cs_jobInfo s))) c = Some (i # infos)"
    and "0 < tfi_chunk_count i"
    and "sm_find (bitmap_map (ji_downloadInfo (cs_jobInfo s))) c = Some (Some b)"
    and "bs_test b 0 = Ret False"
    and "sm_find (ji_ownerInfoMap (cs_jobInfo s)) c = Some os"
    and "file_owner_of cid ip port pct \<in> set os"
  shows "fst (init_queue s) = Throw Undefined"
proof -
  let ?s = "s\<lparr>cs_queue := []\<rparr>"
  have "get_priority (ji_ownerInfoMap (cs_jobInfo s))
      (new_chunk_info\<lparr>ci_chunk_num := 0, ci_fileid := c\<rparr>) 0 = Throw Undefined"
    using assms(6,7) by (force simp: get_priority_eq new_chunk_info_def file_owner_of_def)
  then have chunk: "init_chunk c 0 ?s = (Throw Undefined, ?s)"
    using assms(4,5) by (simp add: init_chunk_def sm_get_def set_bitmap_map_def)
  obtain m where "nat (tfi_chunk_count i) = Suc m" using assms(3) by (metis gr0_conv_Suc zero_less_nat_eq)
  then have "init_chunks c (map int [0..<nat (tfi_chunk_count i)]) ?s = (Throw Undefined, ?s)"
    by (simp add: upt_conv_Cons chunk del: upt_Suc)
  then show ?thesis
    using assms(1,2) by (simp add: init_queue_def)
qed

theorem owner_without_bitmap_breaks_init_witness:
  "fst (init_queue (demo_selector\<lparr>cs_jobInfo := demo_job\<lparr>ji_ownerInfoMap :=
      [(''a'', [file_owner_of ''p1'' ''10.0.0.1'' 9025 40])]\<rparr>\<rparr>)) = Throw Undefined"
proof -
  let ?ji = "demo_job\<lparr>ji_ownerInfoMap := [(''a'', [file_owner_of ''p1'' ''10.0.0.1'' 9025 40])]\<rparr>"
  have unique: "UniqueFileidList ?ji = ''a'' # [''c'']"
    by (simp add: UniqueFileidList_def demo_job_data set_to_list_def)
  have files: "sm_find (ti_fileMap (ji_torrentInfo ?ji)) ''a'' =
      Some (torrent_file_info_of (to_file demo_torrent ! 0) # [torrent_file_info_of (to_file demo_torrent ! 1)])"
    by (simp add: demo_job_data torrent_info_of_def file_map_find Let_def) (simp add: demo_torrent_def)
  have count: "0 < tfi_chunk_count (torrent_file_info_of (to_file demo_torrent ! 0))"
    by (simp add: torrent_file_info_of_def demo_torrent_def demo_chunks_def)
  show ?thesis
    using owner_without_bitmap_breaks_init [of "demo_selector\<lparr>cs_jobInfo := ?ji\<rparr>", OF _ _ count]
      unique files by (simp add: demo_job_data bs_test_def)
qed

lemma report_success_facts:
  assumes "report_success_chunk n f s = (Ret (), s')"
  obtains b b' where "sm_find (bitmap_map (ji_downloadInfo (cs_jobInfo s))) f = Some (Some b)"
    and "bs_assign b n True = Ret b'"
    and "s' = set_bitmap_map (sm_set f (Some b') (bitmap_map (ji_downloadInfo (cs_jobInfo s)))) s"
    and "set (missing_chunks (cs_jobInfo s') f) = set (missing_chunks (cs_jobInfo s) f) - {n}"
    and "\<forall>g. g \<noteq> f \<longrightarrow> missing_chunks (cs_jobInfo s') g = missing_chunks (cs_jobInfo s) g"
proof -
  obtain b b' where b: "sm_find (bitmap_map (ji_downloadInfo (cs_jobInfo s))) f = Some (Some b)"
      "bs_assign b n True = Ret b'"
      "s' = set_bitmap_map (sm_set f (Some b') (bitmap_map (ji_downloadInfo (cs_jobInfo s)))) s"
    using assms
    by (auto simp: report_success_chunk_def sm_get_def Let_def set_bitmap_map_def
        split: option.splits outcome.splits)
  have maps: "bitmap_map (ji_downloadInfo (cs_jobInfo s')) =
      sm_set f (Some b') (bitmap_map (ji_downloadInfo (cs_jobInfo s)))"
    by (simp add: b(3) set_bitmap_map_def)
  have "set (missing_chunks (cs_jobInfo s') f) = set (missing_chunks (cs_jobInfo s) f) - {n}"
    using b(1) bs_assign_test [OF b(2)]
    by (auto simp: missing_chunks_iff maps sm_find_simps(1) split: if_splits)
  moreover have "missing_chunks (cs_jobInfo s') g = missing_chunks (cs_jobInfo s) g" if "g \<noteq> f" for g
    using that by (simp add: missing_chunks_def maps)
  ultimately show thesis using that b by blast
qed

text \<open>
  Reporting a chunk as downloaded sets exactly that bit: the chunk is no longer missing, and
  which other chunks are missing, of this and of every other file, does not change.
\<close>

theorem report_success_sets_one_bit:
  assumes "report_success_chunk n f s = (Ret (), s')"
  shows "0 \<le> n \<and> cs_queue s' = cs_queue s \<and>
    set (missing_chunks (cs_jobInfo s') f) = set (missing_chunks (cs_jobInfo s) f) - {n} \<and>
    (\<forall>g. g \<noteq> f \<longrightarrow> missing_chunks (cs_jobInfo s') g = missing_chunks (cs_jobInfo s) g)"
  by (rule report_success_facts [OF assms])
    (auto simp: bs_assign_def set_bitmap_map_def split: if_splits)

theorem report_success_sets_one_bit_witness:
  "set (missing_chunks (cs_jobInfo (snd (report_success_chunk 1 ''a'' demo_selector))) ''a'') = {0, 2}"
proof -
  have ok: "report_success_chunk 1 ''a'' demo_selector =
      (Ret (), snd (report_success_chunk 1 ''a'' demo_selector))"
    by (simp add: report_success_chunk_def sm_get_def demo_selector_def demo_job_data bs_assign_def)
  have "set (missing_chunks (cs_jobInfo demo_selector) ''a'') = {0, 1, 2}"
    by (auto simp: missing_chunks_def demo_selector_def demo_job_data less_Suc_eq numeral_eq_Suc)
  with report_success_sets_one_bit [OF ok] show ?thesis by auto
qed

end
