(* ===== verification/Verification.thy ===== *)
theory Verification
  imports ErrorCode
begin

text \<open>
  \<open>client/src/verification.cc\<close>: SHA-1 verification codes over one static engine.  The engine's
  state is the bytes it has absorbed since its last reset; \<open>H\<close> is the hexadecimal digest of a
  byte string (\<open>SHA1Engine\<close> and \<open>digestToHex\<close> are Poco's), and \<open>digest()\<close> resets the engine, as
  Poco documents.  A pair of pointers into a buffer is a pair of offsets.  \<open>mapped path\<close> is the
  content \<open>Poco::SharedMemory\<close> maps for a file, or nothing where its constructor throws.
\<close>

type_synonym engine = "byte list"

definition engine_update :: "byte list \<Rightarrow> engine \<Rightarrow> engine" where
  "engine_update bs e = e @ bs"

definition engine_reset :: "engine \<Rightarrow> engine" where
  "engine_reset e = []"

definition engine_digest :: "(byte list \<Rightarrow> string) \<Rightarrow> engine \<Rightarrow> string \<times> engine" where
  "engine_digest H e = (H e, [])"

definition slice :: "byte list \<Rightarrow> int \<Rightarrow> int \<Rightarrow> byte list" where
  "slice m b e = take (nat (e - b)) (drop (nat b) m)"

definition vc_without_lock ::
    "(byte list \<Rightarrow> string) \<Rightarrow> byte list \<Rightarrow> int \<Rightarrow> int \<Rightarrow> engine \<Rightarrow> (string, engine) result" where
  "vc_without_lock H m b e eng =
     check (e \<ge> b) eng (
       let eng = engine_reset eng;
           eng = engine_update (slice m b e) eng;
           (code, eng) = engine_digest H eng
       in (Ret code, eng))"

definition get_verification_code_range ::
    "(byte list \<Rightarrow> string) \<Rightarrow> byte list \<Rightarrow> int \<Rightarrow> int \<Rightarrow> engine \<Rightarrow> (string, engine) result" where
  "get_verification_code_range H m b e eng = vc_without_lock H m b e eng"

definition get_verification_code ::
    "(byte list \<Rightarrow> string) \<Rightarrow> byte list \<Rightarrow> engine \<Rightarrow> (string, engine) result" where
  "get_verification_code H content eng = vc_without_lock H content 0 (int (length content)) eng"

definition veritify_range ::
    "(byte list \<Rightarrow> string) \<Rightarrow> byte list \<Rightarrow> int \<Rightarrow> int \<Rightarrow> string \<Rightarrow> engine \<Rightarrow> (bool, engine) result" where
  "veritify_range H m b e vc eng =
     and_then (vc_without_lock H m b e eng) (\<lambda>code eng. (Ret (vc = code), eng))"

definition veritify ::
    "(byte list \<Rightarrow> string) \<Rightarrow> byte list \<Rightarrow> string \<Rightarrow> engine \<Rightarrow> (bool, engine) result" where
  "veritify H source vc eng =
     and_then (vc_without_lock H source 0 (int (length source)) eng)
       (\<lambda>code eng. (Ret (vc = code), eng))"

definition get_file_verification_code ::
    "(byte list \<Rightarrow> string) \<Rightarrow> (string \<Rightarrow> byte list option) \<Rightarrow> string \<Rightarrow> engine
      \<Rightarrow> (string, engine) result" where
  "get_file_verification_code H mapped fullpath eng =
     (case mapped fullpath of
        None \<Rightarrow> (Throw FileException, eng)
      | Some sm \<Rightarrow>
          let eng = engine_update sm eng; (code, eng) = engine_digest H eng in (Ret code, eng))"

definition calc_piece_verification_code ::
    "byte list \<Rightarrow> int \<Rightarrow> int \<Rightarrow> engine \<Rightarrow> retcode \<times> engine" where
  "calc_piece_verification_code m b e eng =
     (if e < b then (ERROR_VERIFY_INVALID_RANGE, eng)
      else (ERROR_OK, engine_update (slice m b e) eng))"

text \<open>
  The loop of \<open>get_file_checksum_list\<close>.  \<open>0 < c\<close> is asserted before the loop; it is repeated in
  the guard because the loop would not end without it.
\<close>

function checksum_loop ::
    "(byte list \<Rightarrow> string) \<Rightarrow> byte list \<Rightarrow> int \<Rightarrow> int \<Rightarrow> string list \<Rightarrow> engine
      \<Rightarrow> (string list, engine) result" where
  "checksum_loop H sm c start pList eng =
     (if 0 < c \<and> start + c < int (length sm) then
        and_then (vc_without_lock H sm start (start + c) eng) (\<lambda>code eng.
          checksum_loop H sm c (start + c) (pList @ [code]) eng)
      else
        and_then (vc_without_lock H sm start (int (length sm)) eng) (\<lambda>code eng.
          (Ret (pList @ [code]), eng)))"
  by pat_completeness auto
termination
  by (relation "measure (\<lambda>(H, sm, c, start, pList, eng). nat (int (length sm) - start))") auto

declare checksum_loop.simps [simp del]

definition get_file_checksum_list ::
    "(byte list \<Rightarrow> string) \<Rightarrow> (string \<Rightarrow> bool) \<Rightarrow> (string \<Rightarrow> byte list option) \<Rightarrow> string \<Rightarrow> int
      \<Rightarrow> string list \<Rightarrow> engine \<Rightarrow> (string list, engine) result" where
  "get_file_checksum_list H exists mapped file chunk_size pList eng =
     check (chunk_size > 0) eng (
     check (exists file) eng (
     case mapped file of
       None \<Rightarrow> (Throw FileException, eng)
     | Some sm \<Rightarrow> checksum_loop H sm chunk_size 0 pList eng))"

section \<open>Pieces of a file\<close>

text \<open>The pieces the checksums are meant to cover: full chunks and a non-empty rest.\<close>

function pieces :: "nat \<Rightarrow> byte list \<Rightarrow> byte list list" where
  "pieces c bs = (if 0 < c \<and> c < length bs then take c bs # pieces c (drop c bs) else [bs])"
  by pat_completeness auto
termination
  by (relation "measure (\<lambda>(c, bs). length bs)") auto

declare pieces.simps [simp del]

lemma concat_pieces: "concat (pieces c bs) = bs"
  by (induction c bs rule: pieces.induct) (subst pieces.simps, simp)

lemma pieces_not_Nil [simp]: "pieces c bs \<noteq> []"
  by (subst pieces.simps) simp

lemma length_butlast_pieces: "p \<in> set (butlast (pieces c bs)) \<Longrightarrow> length p = c"
proof (induction c bs rule: pieces.induct)
  case (1 c bs)
  then show ?case
    by (subst (asm) (2) pieces.simps) (auto split: if_splits)
qed

lemma last_pieces: "0 < c \<Longrightarrow> length (last (pieces c bs)) \<le> c \<and> (bs \<noteq> [] \<longrightarrow> last (pieces c bs) \<noteq> [])"
proof (induction c bs rule: pieces.induct)
  case (1 c bs)
  then show ?case
    by (subst (1 2) pieces.simps) auto
qed

lemma pieces_nth:
  "i < length (pieces c bs) \<Longrightarrow> pieces c bs ! i = take c (drop (i * c) bs) \<or>
     \<not> 0 < c"
proof (induction c bs arbitrary: i rule: pieces.induct)
  case (1 c bs)
  show ?case
  proof (cases "0 < c \<and> c < length bs")
    case True
    then have eq: "pieces c bs = take c bs # pieces c (drop c bs)"
      by (subst pieces.simps) simp
    show ?thesis
    proof (cases i)
      case (Suc j)
      with 1(1) [OF True, of j] 1(2) True show ?thesis
        by (simp add: eq add.commute)
    qed (simp add: eq)
  next
    case False
    then have "pieces c bs = [bs]" by (subst pieces.simps) simp
    with False 1(2) show ?thesis by auto
  qed
qed

lemma length_pieces: "0 < c \<Longrightarrow> length (pieces c bs) = max 1 ((length bs + c - 1) div c)"
proof (induction c bs rule: pieces.induct)
  case (1 c bs)
  show ?case
  proof (cases "c < length bs")
    case True
    then have "length bs + c - 1 = (length bs - c + c - 1) + c" by simp
    then have "(length bs + c - 1) div c = Suc ((length bs - c + c - 1) div c)"
      using 1(2) by (simp only: div_add_self2)
    moreover have "1 \<le> (length bs - c + c - 1) div c"
      using True 1(2) by (simp add: Suc_le_eq div_greater_zero_iff)
    ultimately show ?thesis
      using True 1 by (subst pieces.simps) simp
  next
    case False
    then have "(length bs + c - 1) div c \<le> 1"
      using 1(2) by (simp add: less_Suc_eq_le [symmetric] div_less_iff_less_mult)
    with False show ?thesis by (subst pieces.simps) simp
  qed
qed

lemma vc_without_lock_eq:
  "vc_without_lock H m b e eng =
     (if b \<le> e then (Ret (H (slice m b e)), []) else (Throw AssertionViolation, eng))"
  by (simp add: vc_without_lock_def engine_reset_def engine_update_def engine_digest_def check_def)

lemma slice_all [simp]: "slice m 0 (int (length m)) = m"
  by (simp add: slice_def)

lemma checksum_loop_pieces:
  "0 < c \<Longrightarrow> 0 \<le> start \<Longrightarrow> start \<le> int (length sm) \<Longrightarrow>
     checksum_loop H sm c start pList eng =
       (Ret (pList @ map H (pieces (nat c) (drop (nat start) sm))), [])"
proof (induction H sm c start pList eng rule: checksum_loop.induct)
  case (1 H sm c start pList eng)
  show ?case
  proof (cases "start + c < int (length sm)")
    case True
    then have "0 < nat c \<and> nat c < length (drop (nat start) sm)"
      using 1(2,3) by auto
    then have "pieces (nat c) (drop (nat start) sm) =
        slice sm start (start + c) # pieces (nat c) (drop (nat (start + c)) sm)"
      using 1(2,3) by (subst pieces.simps) (simp add: slice_def nat_add_distrib add.commute)
    with True 1 show ?thesis
      by (subst checksum_loop.simps) (simp add: vc_without_lock_eq)
  next
    case False
    then have "pieces (nat c) (drop (nat start) sm) = [slice sm start (int (length sm))]"
      using 1(2,3,4) by (subst pieces.simps) (auto simp: slice_def)
    with False 1 show ?thesis
      by (subst checksum_loop.simps) (simp add: vc_without_lock_eq)
  qed
qed

lemma get_file_checksum_list_eq:
  "get_file_checksum_list H exists mapped file c pList eng =
     (if c > 0 \<and> exists file then
        (case mapped file of None \<Rightarrow> (Throw FileException, eng)
         | Some sm \<Rightarrow> (Ret (pList @ map H (pieces (nat c) sm)), []))
      else (Throw AssertionViolation, eng))"
  by (auto simp: get_file_checksum_list_def check_def checksum_loop_pieces split: option.splits)

section \<open>Histories of calls\<close>

text \<open>
  The public operations share one static engine under a mutex.  A step is one of their calls,
  with any arguments and any outcome.  The private \<open>calc_piece_verification_code\<close>, which would
  leave bytes in the engine, is called nowhere in the sources and is not a step.
\<close>

inductive engine_step ::
    "(byte list \<Rightarrow> string) \<Rightarrow> (string \<Rightarrow> bool) \<Rightarrow> (string \<Rightarrow> byte list option) \<Rightarrow> engine \<Rightarrow> engine \<Rightarrow> bool"
  for H exists mapped where
  file_code: "engine_step H exists mapped e (snd (get_file_verification_code H mapped path e))"
| checksums: "engine_step H exists mapped e
    (snd (get_file_checksum_list H exists mapped path c pList e))"
| code_range: "engine_step H exists mapped e (snd (get_verification_code_range H m b n e))"
| code: "engine_step H exists mapped e (snd (get_verification_code H content e))"
| verify_range: "engine_step H exists mapped e (snd (veritify_range H m b n vc e))"
| verify: "engine_step H exists mapped e (snd (veritify H content vc e))"

lemma engine_step_clean: "engine_step H exists mapped e e' \<Longrightarrow> e = [] \<Longrightarrow> e' = []"
  by (induction rule: engine_step.induct)
    (auto simp: get_file_verification_code_def engine_digest_def get_file_checksum_list_eq
      get_verification_code_range_def get_verification_code_def veritify_range_def veritify_def
      vc_without_lock_eq split: option.splits)

lemma engine_run_clean: "(engine_step H exists mapped)\<^sup>*\<^sup>* e e' \<Longrightarrow> e = [] \<Longrightarrow> e' = []"
  by (induction rule: rtranclp_induct) (auto dest: engine_step_clean)

section \<open>Properties\<close>

text \<open>
  C24: \<open>get_file_verification_code\<close> never resets the shared engine, yet after any history of
  calls of the public operations, failed ones included, it gives the code of the file's
  content alone, the same that \<open>get_verification_code\<close> gives for that content.
\<close>

theorem file_code_independent_of_history:
  assumes "(engine_step H exists mapped)\<^sup>*\<^sup>* [] e" and "mapped path = Some content"
  shows "fst (get_file_verification_code H mapped path e) = Ret (H content) \<and>
    fst (get_verification_code H content e) = Ret (H content)"
  using engine_run_clean [OF assms(1)] assms(2)
  by (simp add: get_file_verification_code_def engine_update_def engine_digest_def
      get_verification_code_def vc_without_lock_eq)

theorem file_code_independent_of_history_witness:
  "fst (get_file_verification_code (\<lambda>bs. replicate (length bs) CHR ''x'')
     (\<lambda>_. Some [1, 2]) ''f''
     (snd (veritify (\<lambda>bs. replicate (length bs) CHR ''x'') [9] ''y'' []))) = Ret ''xx''"
proof -
  let ?H = "\<lambda>bs :: byte list. replicate (length bs) CHR ''x''"
  let ?m = "\<lambda>_ :: string. Some [1, 2] :: byte list option"
  have "(engine_step ?H (\<lambda>_. True) ?m)\<^sup>*\<^sup>* [] (snd (veritify ?H [9] ''y'' []))"
    by (rule r_into_rtranclp) (rule engine_step.verify)
  from file_code_independent_of_history [OF this, where path = "''f''" and content = "[1, 2]"]
  show ?thesis by simp
qed

text \<open>
  The checksum list of a file is the list of the codes of its pieces: their concatenation
  is the file, every piece but the last has exactly \<open>chunk_size\<close> bytes, the last has at most
  \<open>chunk_size\<close> and is empty only for an empty file.
\<close>

theorem checksum_list_covers_file:
  assumes "0 < chunk_size" and "exists file" and "mapped file = Some content"
  shows "\<exists>ps. get_file_checksum_list H exists mapped file chunk_size [] e = (Ret (map H ps), []) \<and>
    concat ps = content \<and> ps \<noteq> [] \<and>
    (\<forall>p \<in> set (butlast ps). int (length p) = chunk_size) \<and>
    int (length (last ps)) \<le> chunk_size \<and> (last ps = [] \<longrightarrow> content = [])"
proof (intro exI conjI)
  let ?ps = "pieces (nat chunk_size) content"
  show "get_file_checksum_list H exists mapped file chunk_size [] e = (Ret (map H ?ps), [])"
    using assms by (simp add: get_file_checksum_list_eq)
  show "concat ?ps = content" by (rule concat_pieces)
  show "\<forall>p \<in> set (butlast ?ps). int (length p) = chunk_size"
    using assms(1) by (auto dest: length_butlast_pieces)
  have "length (last ?ps) \<le> nat chunk_size \<and> (content \<noteq> [] \<longrightarrow> last ?ps \<noteq> [])"
    using assms(1) by (intro last_pieces) simp
  then show "int (length (last ?ps)) \<le> chunk_size" and "last ?ps = [] \<longrightarrow> content = []"
    using assms(1) by auto
qed simp

theorem checksum_list_covers_file_witness:
  "\<exists>ps. get_file_checksum_list (\<lambda>bs. replicate (length bs) CHR ''x'') (\<lambda>_. True) (\<lambda>_. Some [1, 2, 3]) ''f'' 2 [] [5]
      = (Ret (map (\<lambda>bs. replicate (length bs) CHR ''x'') ps), []) \<and> concat ps = [1, 2, 3 :: byte]"
  using checksum_list_covers_file [of 2 "\<lambda>_. True" "''f''" "\<lambda>_. Some [1, 2, 3]" "[1, 2, 3]"
      "\<lambda>bs. replicate (length bs) CHR ''x''" "[5]"]
  by auto

end
