(* ===== verification/ChunkTransfer.thy ===== *)
theory ChunkTransfer
  imports NetPack Verification JobInfo
begin

text \<open>
  \<open>client/src/download_task.cc\<close> and \<open>client/src/upload_task.cc\<close>: the two ends of the transfer
  of one chunk.  Other threads change the job's \<open>DownloadInfo\<close> while a task runs: each round of
  a transfer loop first takes one interference from a list, a function on the record, so the
  list is both what the other threads do and the number of rounds the task is given.  A loop
  that has not ended when the list is used up gives \<open>None\<close>.  A wait on a condition is the end
  of a round.

  \<open>H\<close> is the hash of the verification engine and \<open>junk\<close> the uninitialised length of
  \<open>NetPack::receiveFrom\<close>.
\<close>

type_synonym interference = "download_info \<Rightarrow> download_info"

section \<open>What a task works on\<close>

record task_state =
  ts_info :: download_info
  ts_sock :: sock
  ts_engine :: engine
  ts_disk :: disk

record download_task =
  dt_fileInfo :: torrent_file_info
  dt_clientid :: string
  dt_sock :: nat
  dt_chunk_pos :: int
  dt_check_sum :: string
  dt_file :: string
  dt_reported :: bool

text \<open>
  The constructor reads the peer's address for the task's name (\<open>peer\<close>) and the checksum of the
  chunk.
\<close>

definition download_task_of ::
    "string outcome \<Rightarrow> torrent_file_info \<Rightarrow> string \<Rightarrow> nat \<Rightarrow> int \<Rightarrow> string \<Rightarrow> download_task outcome" where
  "download_task_of peer info clientid sock chunk_pos file =
     (case peer of
        Throw e \<Rightarrow> Throw e
      | Ret _ \<Rightarrow>
          (case chunk_checksum info chunk_pos of
             Throw e \<Rightarrow> Throw e
           | Ret check_sum \<Rightarrow>
               Ret \<lparr>dt_fileInfo = info, dt_clientid = clientid, dt_sock = sock,
                 dt_chunk_pos = chunk_pos, dt_check_sum = check_sum, dt_file = file,
                 dt_reported = False\<rparr>))"

record upload_task =
  ut_file :: "string option"
  ut_offset :: u64
  ut_chunk_size :: int

definition upload_task_of ::
    "string outcome \<Rightarrow> string option \<Rightarrow> u64 \<Rightarrow> int \<Rightarrow> upload_task outcome" where
  "upload_task_of peer file offset n =
     (case peer of
        Throw e \<Rightarrow> Throw e
      | Ret _ \<Rightarrow> Ret \<lparr>ut_file = file, ut_offset = offset, ut_chunk_size = n\<rparr>)"

section \<open>Mapped files\<close>

text \<open>
  \<open>SharedMemory\<close> on an existing file maps all of it; a missing, refused or empty file cannot be
  mapped.  Access behind the end of the mapping is undefined.
\<close>

definition map_file :: "string \<Rightarrow> disk \<Rightarrow> byte list outcome" where
  "map_file path d =
     (if d_refused d path then Throw FileException
      else case d_files d path of
        None \<Rightarrow> Throw FileException
      | Some bs \<Rightarrow> if bs = [] then Throw FileException else Ret bs)"

definition splice :: "nat \<Rightarrow> byte list \<Rightarrow> byte list \<Rightarrow> byte list" where
  "splice off new bs = take off bs @ new @ drop (off + length new) bs"

definition write_mapped :: "string \<Rightarrow> u64 \<Rightarrow> byte list \<Rightarrow> disk \<Rightarrow> (unit, disk) result" where
  "write_mapped path off content d =
     (case map_file path d of
        Throw e \<Rightarrow> (Throw e, d)
      | Ret bs \<Rightarrow>
          if unat off + length content \<le> length bs
          then (Ret (), d\<lparr>d_files := (d_files d)(path \<mapsto> splice (unat off) content bs)\<rparr>)
          else (Throw Undefined, d))"

definition read_mapped :: "string \<Rightarrow> u64 \<Rightarrow> int \<Rightarrow> disk \<Rightarrow> byte list outcome" where
  "read_mapped path off n d =
     (case map_file path d of
        Throw e \<Rightarrow> Throw e
      | Ret bs \<Rightarrow>
          if n < 0 then Throw BadAlloc
          else if unat off + nat n \<le> length bs then Ret (take (nat n) (drop (unat off) bs))
          else Throw Undefined)"

section \<open>DownloadTask::runTask\<close>

fun receive_chunk ::
    "int \<Rightarrow> interference list \<Rightarrow> byte list \<Rightarrow> int \<Rightarrow> task_state
      \<Rightarrow> (byte list, task_state) result option" where
  "receive_chunk csize env buf nLeft s =
     (if \<not> int (length buf) < csize then Some (Ret buf, s)
      else case env of
        [] \<Rightarrow> None
      | f # env \<Rightarrow>
          let s = s\<lparr>ts_info := f (ts_info s)\<rparr>; di = ts_info s in
          if is_stopped di then
            Some (Throw (TaskError ''DownloadTask is stopped by setting is_stoped.''), s)
          else if is_job_removed di then
            Some (Throw (TaskError ''DownloadTask is stopped by setting is_job_removed.''), s)
          else if is_download_paused di then receive_chunk csize env buf nLeft s
          else if bytes_download_this_second di > download_speed_limit di
          then receive_chunk csize env buf nLeft s
          else let download_quota =
              to_i32 (uint (download_speed_limit di - bytes_download_this_second di)) in
            if download_quota \<le> 0 then receive_chunk csize env buf nLeft s
            else let expect_bytes = (if download_quota > nLeft then nLeft else download_quota) in
              (case receiveBytes expect_bytes (ts_sock s) of
                 (Throw e, sk) \<Rightarrow> Some (Throw e, s\<lparr>ts_sock := sk\<rparr>)
               | (Ret bs, sk) \<Rightarrow>
                   let s = s\<lparr>ts_sock := sk\<rparr>; n = int (length bs) in
                   if n \<le> 0 then
                     Some (Throw (TaskError ''receiveBytes in DownloadTask::runTask return n <= 0''), s)
                   else receive_chunk csize env (buf @ bs) (nLeft - n)
                     (s\<lparr>ts_info := di\<lparr>bytes_download_this_second :=
                        bytes_download_this_second di + word_of_int n\<rparr>\<rparr>)))"

declare receive_chunk.simps [simp del]

text \<open>The exchange of the request and the reply, before any content.\<close>

definition request_chunk ::
    "protobuf \<Rightarrow> int \<Rightarrow> download_task \<Rightarrow> sock \<Rightarrow> (unit, sock) result" where
  "request_chunk pb junk dt sk =
     (let req = UploadRequestMsg \<lparr>ur_clientid = dt_clientid dt,
            ur_fileid = tfi_fileid (dt_fileInfo dt), ur_chunknumber = dt_chunk_pos dt\<rparr>;
          pack = netpack_of pb PAYLOAD_UPLOAD_REQUEST req
      in and_then (sendBy pb pack sk) (\<lambda>ret sk.
        if ERROR_OK \<noteq> ret then (Throw (TaskError ''Error send upload request.''), sk)
        else let (r, (pack, sk)) = receiveFrom pb junk pack sk in
          (case r of
             Throw e \<Rightarrow> (Throw e, sk)
           | Ret ret \<Rightarrow>
               if ERROR_OK \<noteq> ret then (Throw (TaskError ''Error recv upload reply.''), sk)
               else case cast_upload_reply (np_message pb pack) of
                 None \<Rightarrow>
                   (Throw (TaskError ''Cannot cast recv message to UploadReply type.''), sk)
               | Some reply \<Rightarrow>
                   if int_field (up_returncode reply) \<noteq> retcode_value ERROR_OK then
                     (Throw (TaskError ''remote client cannot handle upload request''), sk)
                   else (Ret (), sk))))"

definition store_chunk ::
    "(byte list \<Rightarrow> string) \<Rightarrow> download_task \<Rightarrow> byte list \<Rightarrow> task_state \<Rightarrow> (unit, task_state) result" where
  "store_chunk H dt content s =
     (case get_verification_code H content (ts_engine s) of
        (Throw e, eng) \<Rightarrow> (Throw e, s\<lparr>ts_engine := eng\<rparr>)
      | (Ret content_check_sum, eng) \<Rightarrow>
          let s = s\<lparr>ts_engine := eng\<rparr>;
              offset = chunk_offset (dt_fileInfo dt) (dt_chunk_pos dt) in
          if content_check_sum \<noteq> dt_check_sum dt then
            (case offset of
               Throw e \<Rightarrow> (Throw e, s) | Ret _ \<Rightarrow> (Throw (TaskError ''verify failed''), s))
          else
            (case map_file (dt_file dt) (ts_disk s) of
               Throw e \<Rightarrow> (Throw e, s)
             | Ret _ \<Rightarrow>
                 (case offset of
                    Throw e \<Rightarrow> (Throw e, s)
                  | Ret off \<Rightarrow>
                      let (r, d) = write_mapped (dt_file dt) off content (ts_disk s)
                      in (r, s\<lparr>ts_disk := d\<rparr>))))"

definition download_run ::
    "protobuf \<Rightarrow> (byte list \<Rightarrow> string) \<Rightarrow> int \<Rightarrow> interference list \<Rightarrow> download_task \<Rightarrow> task_state
      \<Rightarrow> (unit, task_state) result option" where
  "download_run pb H junk env dt s =
     (case request_chunk pb junk dt (ts_sock s) of
        (Throw e, sk) \<Rightarrow> Some (Throw e, s\<lparr>ts_sock := sk\<rparr>)
      | (Ret _, sk) \<Rightarrow>
          let s = s\<lparr>ts_sock := sk\<rparr> in
          (case chunk_size (dt_fileInfo dt) (dt_chunk_pos dt) of
             Throw e \<Rightarrow> Some (Throw e, s)
           | Ret csize \<Rightarrow>
               if csize = -1 then Some (Throw AssertionViolation, s)
               else if csize < 0 then Some (Throw BadAlloc, s)
               else (case receive_chunk csize env [] csize s of
                  None \<Rightarrow> None
                | Some (Throw e, s) \<Rightarrow> Some (Throw e, s)
                | Some (Ret content, s) \<Rightarrow>
                    Some (check (int (length content) = csize) s (store_chunk H dt content s)))))"

section \<open>UploadTask::runTask\<close>

fun send_chunk ::
    "byte list \<Rightarrow> int \<Rightarrow> interference list \<Rightarrow> int \<Rightarrow> task_state \<Rightarrow> (int, task_state) result option" where
  "send_chunk content csize env nSend s =
     (if \<not> nSend < csize then Some (Ret nSend, s)
      else case env of
        [] \<Rightarrow> None
      | f # env \<Rightarrow>
          let s = s\<lparr>ts_info := f (ts_info s)\<rparr>; di = ts_info s in
          if is_stopped di then
            Some (Throw (TaskError ''UploadTask is stopped by setting is_stoped.''), s)
          else if is_job_removed di then
            Some (Throw (TaskError ''UploadTask is stopped by setting is_job_removed.''), s)
          else
            (case sendBytes (take (nat (csize - nSend)) (drop (nat nSend) content)) (ts_sock s) of
               (Throw e, sk) \<Rightarrow> Some (Throw e, s\<lparr>ts_sock := sk\<rparr>)
             | (Ret n, sk) \<Rightarrow>
                 let s = s\<lparr>ts_sock := sk\<rparr> in
                 if n \<le> 0 then Some (Throw (TaskError ''send bytes <= 0''), s)
                 else send_chunk content csize env (nSend + n)
                   (s\<lparr>ts_info := di\<lparr>bytes_upload_this_second :=
                      bytes_upload_this_second di + word_of_int n\<rparr>\<rparr>)))"

declare send_chunk.simps [simp del]

definition upload_run ::
    "(byte list \<Rightarrow> string) \<Rightarrow> interference list \<Rightarrow> upload_task \<Rightarrow> task_state
      \<Rightarrow> (unit, task_state) result option" where
  "upload_run H env ut s =
     (case ut_file ut of
        None \<Rightarrow> Some (Throw NullPointer, s)
      | Some path \<Rightarrow>
          (case read_mapped path (ut_offset ut) (ut_chunk_size ut) (ts_disk s) of
             Throw e \<Rightarrow> Some (Throw e, s)
           | Ret content \<Rightarrow>
               if int (length content) \<noteq> ut_chunk_size ut then Some (Throw AssertionViolation, s)
               else (case send_chunk content (ut_chunk_size ut) env 0 s of
                  None \<Rightarrow> None
                | Some (Throw e, s) \<Rightarrow> Some (Throw e, s)
                | Some (Ret nSend, s) \<Rightarrow>
                    if nSend \<noteq> ut_chunk_size ut
                    then Some (Throw (TaskError ''chunk_size differs from the bytes sent''), s)
                    else (case get_verification_code H content (ts_engine s) of
                       (Throw e, eng) \<Rightarrow> Some (Throw e, s\<lparr>ts_engine := eng\<rparr>)
                     | (Ret vc, eng) \<Rightarrow> Some (Ret (), s\<lparr>ts_engine := eng\<rparr>)))))"


section \<open>Lemmas: the receiving loop\<close>

lemma receive_chunk_done [simp]:
  "\<not> int (length buf) < n \<Longrightarrow> receive_chunk n env buf nLeft s = Some (Ret buf, s)"
  by (subst receive_chunk.simps) simp

lemma receive_chunk_Nil:
  "receive_chunk n [] buf nLeft s = (if \<not> int (length buf) < n then Some (Ret buf, s) else None)"
  by (subst receive_chunk.simps) simp

lemmas receive_chunk_Cons = receive_chunk.simps [where env = "f # env" for f env, simplified list.case]

text \<open>A round that gets as far as the socket.\<close>

definition open_quota :: "download_info \<Rightarrow> int" where
  "open_quota di =
     (if is_stopped di \<or> is_job_removed di \<or> is_download_paused di \<or>
         bytes_download_this_second di > download_speed_limit di then 0
      else to_i32 (uint (download_speed_limit di - bytes_download_this_second di)))"

lemma receive_chunk_round:
  assumes "int (length buf) < n" and "0 < open_quota (f (ts_info s))"
    and "receiveBytes (min (open_quota (f (ts_info s))) nLeft) (ts_sock s) = (Ret bs, sk)"
    and "bs \<noteq> []"
  shows "receive_chunk n (f # env) buf nLeft s =
    receive_chunk n env (buf @ bs) (nLeft - int (length bs))
      (s\<lparr>ts_sock := sk, ts_info := (f (ts_info s))\<lparr>bytes_download_this_second :=
         bytes_download_this_second (f (ts_info s)) + word_of_int (int (length bs))\<rparr>\<rparr>)"
  using assms
  by (subst receive_chunk.simps)
    (auto simp: open_quota_def Let_def min_def split: if_splits)

lemma receive_chunk_closed:
  assumes "int (length buf) < n" and "\<not> 0 < open_quota (f (ts_info s))"
  shows "receive_chunk n (f # env) buf nLeft s =
    (if is_stopped (f (ts_info s)) then
       Some (Throw (TaskError ''DownloadTask is stopped by setting is_stoped.''), s\<lparr>ts_info := f (ts_info s)\<rparr>)
     else if is_job_removed (f (ts_info s)) then
       Some (Throw (TaskError ''DownloadTask is stopped by setting is_job_removed.''), s\<lparr>ts_info := f (ts_info s)\<rparr>)
     else receive_chunk n env buf nLeft (s\<lparr>ts_info := f (ts_info s)\<rparr>))"
  using assms by (auto simp: receive_chunk_Cons open_quota_def Let_def split: if_splits)

text \<open>
  What the loop has done when it ends: the socket and the counters changed, nothing else, and the
  buffer grew by exactly the bytes taken from the socket.
\<close>

lemma receive_chunk_keeps:
  "receive_chunk n env buf nLeft s = Some (r, t) \<Longrightarrow> nLeft = n - int (length buf) \<Longrightarrow>
     ts_disk t = ts_disk s \<and> ts_engine t = ts_engine s \<and>
     (\<forall>content. r = Ret content \<longrightarrow>
        (\<exists>got. content = buf @ got \<and> rx (ts_sock s) = got @ rx (ts_sock t) \<and>
           (int (length buf) \<le> n \<longrightarrow> int (length content) = n)))"
proof (induction env arbitrary: buf nLeft s)
  case Nil
  then show ?case by (auto simp: receive_chunk_Nil split: if_splits)
next
  case (Cons f env)
  show ?case
  proof (cases "int (length buf) < n")
    case True
    show ?thesis
    proof (cases "0 < open_quota (f (ts_info s))")
      case quota: True
      obtain q sk where recv: "receiveBytes (min (open_quota (f (ts_info s))) nLeft) (ts_sock s) = (q, sk)"
        by fastforce
      show ?thesis
      proof (cases "\<exists>bs. q = Ret bs \<and> bs \<noteq> []")
        case True
        then obtain bs where bs: "q = Ret bs" "bs \<noteq> []" by blast
        note got = receiveBytes_Ret [OF recv [unfolded bs(1)]]
        have le: "int (length (buf @ bs)) \<le> n"
          using got Cons.prems(2) \<open>int (length buf) < n\<close> quota by (auto simp: min_def split: if_splits)
        from Cons.IH [OF Cons.prems(1) [unfolded receive_chunk_round
            [where f = f, OF \<open>int (length buf) < n\<close> quota recv [unfolded bs(1)] bs(2)]]] got le Cons.prems(2)
        show ?thesis by fastforce
      next
        case False
        with Cons.prems(1) True quota recv show ?thesis
          by (auto simp: receive_chunk_Cons open_quota_def Let_def min_def
              split: if_splits outcome.splits)
      qed
    next
      case False
      note step = receive_chunk_closed [where f = f, OF True False, of env nLeft]
      show ?thesis
        using Cons.prems True Cons.IH [of buf nLeft "s\<lparr>ts_info := f (ts_info s)\<rparr>"]
        unfolding step by (auto split: if_splits)
    qed
  qed (use Cons.prems in auto)
qed


section \<open>Lemmas: storing and sending\<close>

lemma length_splice: "off + length new \<le> length bs \<Longrightarrow> length (splice off new bs) = length bs"
  by (simp add: splice_def)

lemma nth_splice:
  "off + length new \<le> length bs \<Longrightarrow> i < length bs \<Longrightarrow>
     splice off new bs ! i = (if off \<le> i \<and> i < off + length new then new ! (i - off) else bs ! i)"
  by (auto simp: splice_def nth_append)

lemma slice_splice:
  "off + length new \<le> length bs \<Longrightarrow> take (length new) (drop off (splice off new bs)) = new"
  by (simp add: splice_def)

lemma write_mapped_result:
  "write_mapped path off content d = (r, d') \<Longrightarrow>
     (r \<noteq> Ret () \<longrightarrow> d' = d) \<and>
     (r = Ret () \<longrightarrow> (\<exists>bs. d_files d path = Some bs \<and> unat off + length content \<le> length bs \<and>
        d' = d\<lparr>d_files := (d_files d)(path \<mapsto> splice (unat off) content bs)\<rparr>))"
  by (auto simp: write_mapped_def map_file_def split: if_splits option.splits)

lemma store_chunk_result:
  assumes "store_chunk H dt content s = (r, t)"
  shows "ts_sock t = ts_sock s \<and> (r \<noteq> Ret () \<longrightarrow> ts_disk t = ts_disk s) \<and>
    (r = Ret () \<longrightarrow> H content = dt_check_sum dt \<and>
      (\<exists>off bs. chunk_offset (dt_fileInfo dt) (dt_chunk_pos dt) = Ret off \<and>
        d_files (ts_disk s) (dt_file dt) = Some bs \<and> unat off + length content \<le> length bs \<and>
        ts_disk t = (ts_disk s)\<lparr>d_files :=
          (d_files (ts_disk s))(dt_file dt \<mapsto> splice (unat off) content bs)\<rparr>))"
proof (cases "\<exists>off. H content = dt_check_sum dt \<and> map_file (dt_file dt) (ts_disk s) \<noteq> Throw FileException \<and>
    chunk_offset (dt_fileInfo dt) (dt_chunk_pos dt) = Ret off")
  case True
  then obtain off where off: "H content = dt_check_sum dt"
      "chunk_offset (dt_fileInfo dt) (dt_chunk_pos dt) = Ret off" by blast
  obtain r1 d1 where w: "write_mapped (dt_file dt) off content (ts_disk s) = (r1, d1)" by fastforce
  have "(\<exists>e. map_file (dt_file dt) (ts_disk s) = Throw e \<and> r = Throw e \<and> ts_disk t = ts_disk s) \<or>
      r = r1 \<and> ts_disk t = d1"
    and "ts_sock t = ts_sock s"
    using assms off w
    by (auto simp: store_chunk_def get_verification_code_def vc_without_lock_eq Let_def split: outcome.splits)
  with write_mapped_result [OF w] off show ?thesis by auto
next
  case False
  have "map_file (dt_file dt) (ts_disk s) = Throw e \<Longrightarrow> e = FileException" for e
    by (auto simp: map_file_def split: if_splits option.splits)
  with False assms show ?thesis
    by (auto simp: store_chunk_def get_verification_code_def vc_without_lock_eq Let_def
        split: outcome.splits if_splits)
qed

lemma request_chunk_prefix:
  assumes "request_chunk pb junk dt sk = (Ret u, sk')"
  shows "\<exists>before. rx sk = before @ rx sk'"
proof -
  from assms obtain pack sk1 pack' where send: "sendBy pb pack sk = (Ret ERROR_OK, sk1)"
    and recv: "receiveFrom pb junk pack sk1 = (Ret ERROR_OK, (pack', sk'))"
    by (auto simp: request_chunk_def Let_def and_then_eq_Ret
        split: if_splits prod.splits outcome.splits option.splits)
  have "rx sk1 = rx sk"
    using send
    by (auto simp: sendBy_def sendHeaderLength_def Let_def and_then_eq_Ret
        split: if_splits dest!: sendBytes_prefix)
  moreover have "\<exists>before. rx sk1 = before @ rx sk'"
    by (rule receiveFrom_OK [OF recv]) auto
  ultimately show ?thesis by simp
qed

lemma send_chunk_Nil:
  "send_chunk content n [] nSend s = (if \<not> nSend < n then Some (Ret nSend, s) else None)"
  by (subst send_chunk.simps) simp

lemmas send_chunk_Cons = send_chunk.simps [where env = "f # env" for f env, simplified list.case]

lemma send_chunk_result:
  "send_chunk content n env nSend s = Some (Ret k, t) \<Longrightarrow> int (length content) = n \<Longrightarrow>
     0 \<le> nSend \<Longrightarrow> nSend \<le> n \<Longrightarrow>
     k = n \<and> tx (ts_sock t) = tx (ts_sock s) @ drop (nat nSend) content \<and>
     rx (ts_sock t) = rx (ts_sock s)"
proof (induction env arbitrary: nSend s)
  case Nil
  then show ?case by (auto simp: send_chunk_Nil split: if_splits)
next
  case (Cons f env)
  show ?case
  proof (cases "nSend < n")
    case True
    let ?rest = "take (nat (n - nSend)) (drop (nat nSend) content)"
    have rest: "?rest = drop (nat nSend) content" using Cons.prems(2-4) by simp
    obtain j sk where send: "sendBytes ?rest (ts_sock s) = (Ret j, sk)" "0 < j"
      and more_rounds: "send_chunk content n env (nSend + j) (s\<lparr>ts_sock := sk, ts_info :=
        (f (ts_info s))\<lparr>bytes_upload_this_second :=
          bytes_upload_this_second (f (ts_info s)) + word_of_int j\<rparr>\<rparr>) = Some (Ret k, t)"
      using Cons.prems(1) True
      by (auto simp: send_chunk_Cons Let_def split: if_splits prod.splits outcome.splits)
    from sendBytes_prefix [OF send(1)[unfolded rest]] Cons.prems(2-4)
    have j: "j \<le> n - nSend" "tx sk = tx (ts_sock s) @ take (nat j) (drop (nat nSend) content)"
      "rx sk = rx (ts_sock s)" by auto
    have "take (nat j) (drop (nat nSend) content) @ drop (nat (nSend + j)) content =
        drop (nat nSend) content"
      using send(2) Cons.prems(3) by (simp add: nat_add_distrib add.commute flip: drop_drop)
    with Cons.IH [OF more_rounds] Cons.prems(2-4) send(2) j show ?thesis by simp
  next
    case False
    then have "send_chunk content n (f # env) nSend s = Some (Ret nSend, s)"
      by (subst send_chunk.simps) simp
    with Cons.prems False show ?thesis by simp
  qed
qed

lemma upload_run_result:
  assumes "upload_run H env ut s = Some (Ret (), t)"
  obtains path bs content where "ut_file ut = Some path" and "d_files (ts_disk s) path = Some bs"
    and "unat (ut_offset ut) + nat (ut_chunk_size ut) \<le> length bs" and "0 \<le> ut_chunk_size ut"
    and "content = take (nat (ut_chunk_size ut)) (drop (unat (ut_offset ut)) bs)"
    and "tx (ts_sock t) = tx (ts_sock s) @ content"
proof -
  from assms obtain path content k t1 where path: "ut_file ut = Some path"
    and content: "read_mapped path (ut_offset ut) (ut_chunk_size ut) (ts_disk s) = Ret content"
    and len: "int (length content) = ut_chunk_size ut"
    and send: "send_chunk content (ut_chunk_size ut) env 0 s = Some (Ret k, t1)"
    and sock: "ts_sock t = ts_sock t1"
    by (auto simp: upload_run_def split: option.splits outcome.splits if_splits prod.splits)
  from content obtain bs where "d_files (ts_disk s) path = Some bs"
      "unat (ut_offset ut) + nat (ut_chunk_size ut) \<le> length bs" "0 \<le> ut_chunk_size ut"
      "content = take (nat (ut_chunk_size ut)) (drop (unat (ut_offset ut)) bs)"
    by (auto simp: read_mapped_def map_file_def split: if_splits option.splits)
  moreover from send_chunk_result [OF send len] len sock
  have "tx (ts_sock t) = tx (ts_sock s) @ content" by simp
  ultimately show thesis using that path by blast
qed


lemma download_run_ended:
  assumes "download_run pb H junk env dt s = Some (r, t)"
  shows "ts_disk t = ts_disk s \<and> r \<noteq> Ret () \<or>
    (\<exists>sk n content s1. request_chunk pb junk dt (ts_sock s) = (Ret (), sk) \<and>
       chunk_size (dt_fileInfo dt) (dt_chunk_pos dt) = Ret n \<and> 0 \<le> n \<and>
       receive_chunk n env [] n (s\<lparr>ts_sock := sk\<rparr>) = Some (Ret content, s1) \<and>
       int (length content) = n \<and> store_chunk H dt content s1 = (r, t))"
proof (cases "request_chunk pb junk dt (ts_sock s)")
  case (Pair q sk)
  show ?thesis
  proof (cases q)
    case (Throw e)
    with Pair assms show ?thesis by (auto simp: download_run_def)
  next
    case (Ret u)
    show ?thesis
    proof (cases "\<exists>n. chunk_size (dt_fileInfo dt) (dt_chunk_pos dt) = Ret n \<and> 0 \<le> n")
      case True
      then obtain n where n: "chunk_size (dt_fileInfo dt) (dt_chunk_pos dt) = Ret n" "0 \<le> n" by blast
      with assms Pair Ret obtain q1 s1 where
        recv: "receive_chunk n env [] n (s\<lparr>ts_sock := sk\<rparr>) = Some (q1, s1)"
        by (auto simp: download_run_def Let_def split: option.splits)
      note kept = receive_chunk_keeps [OF recv, simplified]
      show ?thesis
      proof (cases q1)
        case (Throw e)
        with assms Pair Ret n recv kept show ?thesis by (auto simp: download_run_def Let_def)
      next
        case (Ret content)
        with kept n have "int (length content) = n" by simp
        with Ret assms Pair \<open>q = Ret u\<close> n recv show ?thesis
          by (auto simp: download_run_def Let_def)
      qed
    next
      case False
      with assms Pair Ret show ?thesis
        by (auto simp: download_run_def Let_def split: outcome.splits if_splits)
    qed
  qed
qed

section \<open>Properties\<close>

text \<open>
  C5: a download task changes the disk only with verified content.  When it succeeds, the bytes
  taken from the connection behind the reply are exactly one chunk long, have the torrent's
  checksum and replace exactly the chunk's range of the file; when it fails in any way, timeout,
  stop, wrong checksum or unwritable file, the disk is as before.
\<close>

theorem download_writes_verified_only:
  assumes "download_run pb H junk env dt s = Some (r, t)"
  shows "(r \<noteq> Ret () \<longrightarrow> ts_disk t = ts_disk s) \<and>
    (r = Ret () \<longrightarrow> (\<exists>before content off bs.
       rx (ts_sock s) = before @ content @ rx (ts_sock t) \<and>
       chunk_size (dt_fileInfo dt) (dt_chunk_pos dt) = Ret (int (length content)) \<and>
       H content = dt_check_sum dt \<and>
       chunk_offset (dt_fileInfo dt) (dt_chunk_pos dt) = Ret off \<and>
       d_files (ts_disk s) (dt_file dt) = Some bs \<and> unat off + length content \<le> length bs \<and>
       d_files (ts_disk t) = (d_files (ts_disk s))(dt_file dt \<mapsto> splice (unat off) content bs)))"
  using download_run_ended [OF assms]
proof (elim disjE exE conjE)
  fix sk n content s1
  assume req: "request_chunk pb junk dt (ts_sock s) = (Ret (), sk)"
    and n: "chunk_size (dt_fileInfo dt) (dt_chunk_pos dt) = Ret n" "0 \<le> n" "int (length content) = n"
    and recv: "receive_chunk n env [] n (s\<lparr>ts_sock := sk\<rparr>) = Some (Ret content, s1)"
    and store: "store_chunk H dt content s1 = (r, t)"
  obtain before where "rx (ts_sock s) = before @ rx sk" using request_chunk_prefix [OF req] by blast
  moreover have "ts_disk s1 = ts_disk s" "rx sk = content @ rx (ts_sock s1)"
    using receive_chunk_keeps [OF recv] by auto
  moreover note kept = this
  ultimately have data: "rx (ts_sock s) = before @ content @ rx (ts_sock s1)" by simp
  show ?thesis
  proof (cases "r = Ret ()")
    case True
    with store_chunk_result [OF store] obtain off bs where
      stored: "H content = dt_check_sum dt" "chunk_offset (dt_fileInfo dt) (dt_chunk_pos dt) = Ret off"
      "d_files (ts_disk s1) (dt_file dt) = Some bs" "unat off + length content \<le> length bs"
      "ts_disk t = (ts_disk s1)\<lparr>d_files :=
         (d_files (ts_disk s1))(dt_file dt \<mapsto> splice (unat off) content bs)\<rparr>"
      "ts_sock t = ts_sock s1" by blast
    then have "d_files (ts_disk t) = (d_files (ts_disk s))(dt_file dt \<mapsto> splice (unat off) content bs)"
      using kept(1) by simp
    moreover have "rx (ts_sock s) = before @ content @ rx (ts_sock t)"
      using data stored(6) by simp
    moreover have "chunk_size (dt_fileInfo dt) (dt_chunk_pos dt) = Ret (int (length content))"
      using n(1,3) by simp
    ultimately show ?thesis using True stored(1,2,4) stored(3) [unfolded kept(1)] by blast
  qed (use store_chunk_result [OF store] kept in simp)
qed auto

text \<open>
  C6: what an upload task that succeeds puts on the connection is what a download task takes from
  it: the chunk's bytes of the uploader's file, in whatever portions the two sides send and
  receive, with the bytes behind them left on the connection.
\<close>

theorem transfer_delivers_chunk:
  assumes "upload_run H env ut su = Some (Ret (), tu)"
    and "receive_chunk (ut_chunk_size ut) env' [] (ut_chunk_size ut) s = Some (Ret content, t)"
    and "rx (ts_sock s) = drop (length (tx (ts_sock su))) (tx (ts_sock tu)) @ behind"
  shows "\<exists>path bs. ut_file ut = Some path \<and> d_files (ts_disk su) path = Some bs \<and>
    content = take (nat (ut_chunk_size ut)) (drop (unat (ut_offset ut)) bs) \<and>
    int (length content) = ut_chunk_size ut \<and> rx (ts_sock t) = behind"
proof -
  from upload_run_result [OF assms(1)] obtain path bs sent where up: "ut_file ut = Some path"
    "d_files (ts_disk su) path = Some bs" "unat (ut_offset ut) + nat (ut_chunk_size ut) \<le> length bs"
    "0 \<le> ut_chunk_size ut" "sent = take (nat (ut_chunk_size ut)) (drop (unat (ut_offset ut)) bs)"
    "tx (ts_sock tu) = tx (ts_sock su) @ sent" by blast
  then have "int (length sent) = ut_chunk_size ut" by simp
  moreover from receive_chunk_keeps [OF assms(2)] up(4)
  have "rx (ts_sock s) = content @ rx (ts_sock t)" "int (length content) = ut_chunk_size ut" by auto
  ultimately have "content = sent" "rx (ts_sock t) = behind"
    using assms(3) up(6) by (simp_all add: append_eq_append_conv)
  with up \<open>int (length content) = ut_chunk_size ut\<close> show ?thesis by blast
qed

text \<open>Interference that stops nothing, and rounds in which the limit leaves room.\<close>

definition benign :: "interference \<Rightarrow> bool" where
  "benign f \<longleftrightarrow> (\<forall>di. \<not> is_stopped (f di) \<and> \<not> is_job_removed (f di))"

definition lets_through :: "interference \<Rightarrow> bool" where
  "lets_through f \<longleftrightarrow> (\<forall>di. 0 < open_quota (f di))"

lemma receiveBytes_some:
  assumes "0 < q" and "rx s \<noteq> []" and "IoFail \<notin> set (rx_ev s)"
  shows "\<exists>bs sk. receiveBytes q s = (Ret bs, sk) \<and> bs \<noteq> [] \<and> int (length bs) \<le> q \<and>
    rx s = bs @ rx sk \<and> IoFail \<notin> set (rx_ev sk)"
  using assms
  by (auto simp: receiveBytes_def Let_def min_def split: list.splits io.splits)

lemma receive_chunk_returns:
  assumes "\<forall>f \<in> set env. benign f" and "0 \<le> nLeft" and "nLeft = n - int (length buf)"
    and "nat nLeft \<le> length (filter lets_through env)" and "nat nLeft \<le> length (rx (ts_sock s))"
    and "IoFail \<notin> set (rx_ev (ts_sock s))"
  shows "\<exists>content t. receive_chunk n env buf nLeft s = Some (Ret content, t)"
  using assms
proof (induction env arbitrary: buf nLeft s)
  case Nil
  then show ?case by (simp add: receive_chunk_Nil)
next
  case (Cons f env)
  show ?case
  proof (cases "int (length buf) < n")
    case True
    show ?thesis
    proof (cases "0 < open_quota (f (ts_info s))")
      case quota: True
      have "0 < min (open_quota (f (ts_info s))) nLeft" using quota True Cons.prems(3) by simp
      moreover have "rx (ts_sock s) \<noteq> []" using Cons.prems(3,5) True by auto
      ultimately obtain bs sk where
        recv: "receiveBytes (min (open_quota (f (ts_info s))) nLeft) (ts_sock s) = (Ret bs, sk)"
        and bs: "bs \<noteq> []" "int (length bs) \<le> nLeft" "rx (ts_sock s) = bs @ rx sk"
          "IoFail \<notin> set (rx_ev sk)"
        using receiveBytes_some Cons.prems(6) by fastforce
      then have "nat (nLeft - int (length bs)) < nat nLeft" by (cases bs) auto
      then have shorter: "nat (nLeft - int (length bs)) \<le> length (filter lets_through env)"
      proof -
        have "nat nLeft \<le> Suc (length (filter lets_through env))"
          using Cons.prems(4) by (simp split: if_splits)
        with \<open>nat (nLeft - int (length bs)) < nat nLeft\<close> show ?thesis by linarith
      qed
      have "\<exists>content t. receive_chunk n env (buf @ bs) (nLeft - int (length bs)) s' =
          Some (Ret content, t)" if "ts_sock s' = sk" for s'
        by (rule Cons.IH) (use Cons.prems(1-3,5) bs shorter that in \<open>auto\<close>)
      then show ?thesis
        unfolding receive_chunk_round [where f = f, OF True quota recv bs(1)] by simp
    next
      case False
      then have "\<not> lets_through f" by (auto simp: lets_through_def)
      moreover have "\<not> is_stopped (f (ts_info s))" "\<not> is_job_removed (f (ts_info s))"
        using Cons.prems(1) by (auto simp: benign_def)
      ultimately show ?thesis
        unfolding receive_chunk_closed [where f = f, OF True False]
        using Cons.prems by (auto intro!: Cons.IH)
    qed
  qed simp
qed

text \<open>
  C21: the download of a chunk ends: with a chunk's worth of rounds in which the speed limit leaves
  room, among any rounds in which the task waits for a pause or the limit, and a peer that sends
  the chunk, the receiving loop returns the content, however the network cuts it up.
\<close>

theorem download_loop_ends:
  assumes "\<forall>f \<in> set env. benign f" and "0 \<le> n"
    and "nat n \<le> length (filter lets_through env)" and "nat n \<le> length (rx (ts_sock s))"
    and "IoFail \<notin> set (rx_ev (ts_sock s))"
  shows "\<exists>t. receive_chunk n env [] n s = Some (Ret (take (nat n) (rx (ts_sock s))), t)"
proof -
  from receive_chunk_returns [of env n n "[]" s] assms obtain content t where
    run: "receive_chunk n env [] n s = Some (Ret content, t)" by auto
  from receive_chunk_keeps [OF run] assms(2)
  have "rx (ts_sock s) = content @ rx (ts_sock t)" "int (length content) = n" by auto
  with run show ?thesis by auto
qed

text \<open>
  With the limit \<open>2 ^ 31\<close> bytes per second the quota, converted to \<open>int\<close>, is negative while
  nothing has been received: the loop spins without ever reading from the connection, for any
  number of rounds.
\<close>

theorem large_limit_never_receives:
  assumes "\<forall>f \<in> set env. \<forall>di. f di = di" and "0 < n"
    and "\<not> is_stopped (ts_info s)" and "\<not> is_job_removed (ts_info s)"
    and "bytes_download_this_second (ts_info s) = 0"
    and "download_speed_limit (ts_info s) = 2 ^ 31"
  shows "receive_chunk n env [] n s = None"
proof -
  have "to_i32 (uint (2 ^ 31 :: u64)) = - (2 ^ 31)"
    by code_simp
  then have "open_quota (ts_info s) \<le> 0"
    using assms(5,6) by (simp add: open_quota_def)
  then show ?thesis
    using assms(1)
  proof (induction env)
    case (Cons f env)
    then have "\<not> 0 < open_quota (f (ts_info s))" "f (ts_info s) = ts_info s" by simp_all
    with Cons assms(2-4) show ?case
      by (subst receive_chunk_closed) auto
  qed (use assms(2) in \<open>simp add: receive_chunk_Nil\<close>)
qed


lemma to_i32_le: "0 \<le> x \<Longrightarrow> to_i32 x \<le> x"
proof -
  assume "0 \<le> x"
  have "to_i32 x \<le> take_bit 32 x"
    by (simp add: to_i32_def signed_take_bit_eq_take_bit_minus)
  also have "\<dots> \<le> x" using \<open>0 \<le> x\<close> by (simp add: take_bit_int_less_eq_self_iff)
  finally show ?thesis .
qed

lemma add_below_limit:
  fixes b l :: u64
  assumes "b \<le> l" and "0 \<le> n" and "n \<le> uint (l - b)"
  shows "b + word_of_int n \<le> l"
proof -
  have "uint (l - b) = uint l - uint b" using assms(1) by (simp add: uint_sub_if' word_le_def)
  then have n: "uint b + n \<le> uint l" using assms(3) by simp
  then have "uint b + n < 2 ^ 64" using uint_lt2p [of l] by simp
  moreover have "b + word_of_int n = word_of_int (uint b + n)" by simp
  ultimately have "uint (b + word_of_int n) = uint b + n"
    using assms(2) by (simp add: uint_word_of_int_eq take_bit_int_eq_self del: of_int_add)
  with n show ?thesis by (simp add: word_le_def)
qed


section \<open>Witnesses\<close>

definition running_info :: download_info where
  "running_info = (download_info_init 0 0)\<lparr>is_stopped := False, is_download_paused := False\<rparr>"

definition demo_reply :: message where
  "demo_reply = UploadReplyMsg \<lparr>up_returncode = Some 0\<rparr>"

definition demo_pb :: protobuf where
  "demo_pb = sample_pb [demo_reply]"

definition demo_hash :: "byte list \<Rightarrow> string" where
  "demo_hash bs = ''h2''"

definition demo_task :: download_task where
  "demo_task = \<lparr>dt_fileInfo = torrent_file_info_of (last (to_file demo_torrent)), dt_clientid = ''me'',
     dt_sock = 0, dt_chunk_pos = 0, dt_check_sum = ''h2'', dt_file = ''/tmp/d/y'', dt_reported = False\<rparr>"

definition demo_state :: "byte list \<Rightarrow> task_state" where
  "demo_state bs = \<lparr>ts_info = running_info, ts_sock = idle_sock bs, ts_engine = [],
     ts_disk = empty_disk\<lparr>d_files := [''/tmp/d/y'' \<mapsto> [0]]\<rparr>\<rparr>"

definition demo_reply_pack :: netpack where
  "demo_reply_pack = netpack_of demo_pb PAYLOAD_UPLOAD_REPLY demo_reply"

lemma demo_reply_codec:
  "header_codec demo_pb (np_header demo_reply_pack) \<and> header_fits demo_pb (np_header demo_reply_pack)
   \<and> np_wf demo_reply_pack"
proof (intro conjI)
  show "np_wf demo_reply_pack"
    unfolding demo_reply_pack_def by (rule np_wf_netpack_of) (simp add: demo_pb_def sample_pb_def)
qed (simp_all add: header_codec_def header_fits_def demo_reply_pack_def demo_pb_def netpack_of_def
    Let_def demo_reply_def payload_defs, simp_all add: sample_defs)

lemma demo_request:
  "\<exists>sk. request_chunk demo_pb 0 demo_task (idle_sock (frame demo_pb demo_reply_pack @ bs)) = (Ret (), sk) \<and>
     rx sk = bs \<and> rx_ev sk = []"
proof -
  let ?req = "netpack_of demo_pb PAYLOAD_UPLOAD_REQUEST (UploadRequestMsg \<lparr>ur_clientid = ''me'',
    ur_fileid = tfi_fileid (dt_fileInfo demo_task), ur_chunknumber = 0\<rparr>)"
  let ?s = "idle_sock (frame demo_pb demo_reply_pack @ bs)"
  have "header_codec demo_pb (np_header ?req)"
    by (simp add: header_codec_def demo_pb_def netpack_of_def Let_def demo_reply_def payload_defs,
        simp add: sample_defs)
  from sendBy_frame [OF this, of ?s]
  have send: "sendBy demo_pb ?req ?s = (Ret ERROR_OK, ?s\<lparr>tx := frame demo_pb ?req\<rparr>)"
    by (simp add: idle_sock_def)
  have recv: "receiveFrom demo_pb 0 ?req (?s\<lparr>tx := frame demo_pb ?req\<rparr>) =
      (Ret ERROR_OK, (demo_reply_pack, ?s\<lparr>tx := frame demo_pb ?req, rx := bs\<rparr>))"
    using receiveFrom_frame [of demo_pb demo_reply_pack "?s\<lparr>tx := frame demo_pb ?req\<rparr>" bs 0 ?req]
      demo_reply_codec by (simp add: idle_sock_def)
  have "cast_upload_reply (np_message demo_pb demo_reply_pack) = Some \<lparr>up_returncode = Some 0\<rparr>"
    by (simp add: np_message_def demo_reply_pack_def demo_pb_def sample_pb_def demo_reply_def)
  with send recv show ?thesis
    by (simp add: request_chunk_def demo_task_def Let_def idle_sock_def)
qed


lemma open_quota_running: "open_quota running_info = 2 ^ 30"
proof -
  have "to_i32 (uint (2 ^ 30 :: u64)) = 2 ^ 30" by code_simp
  then show ?thesis by (simp add: open_quota_def running_info_def download_info_init_def)
qed

lemma demo_chunk:
  "chunk_size (torrent_file_info_of (last (to_file demo_torrent))) 0 = Ret 1"
  "chunk_offset (torrent_file_info_of (last (to_file demo_torrent))) 0 = Ret 0"
  by (simp_all add: chunk_size_def chunk_offset_def chunk_get_def torrent_file_info_of_def
      demo_torrent_def)

lemma demo_download:
  "\<exists>t. download_run demo_pb demo_hash 0 [\<lambda>_. running_info] demo_task
      (demo_state (frame demo_pb demo_reply_pack @ [7])) = Some (Ret (), t)"
proof -
  obtain sk where req: "request_chunk demo_pb 0 demo_task
      (idle_sock (frame demo_pb demo_reply_pack @ [7])) = (Ret (), sk)" "rx sk = [7]" "rx_ev sk = []"
    using demo_request by blast
  have "receiveBytes 1 sk = (Ret [7], sk\<lparr>rx := []\<rparr>)"
    using receiveBytes_exact [of sk 1 "[7]" "[]"] req by simp
  then show ?thesis
    using req(1) receive_chunk_round [where f = "\<lambda>_. running_info" and n = 1 and buf = "[]"
        and nLeft = 1 and env = "[]" and bs = "[7]" and s = "demo_state []\<lparr>ts_sock := sk\<rparr>"]
    by (simp add: download_run_def demo_state_def demo_task_def demo_chunk open_quota_running
        store_chunk_def get_verification_code_def vc_without_lock_eq demo_hash_def
        map_file_def write_mapped_def empty_disk_def)
qed

theorem download_writes_verified_only_witness:
  "\<exists>t bs. download_run demo_pb demo_hash 0 [\<lambda>_. running_info] demo_task
      (demo_state (frame demo_pb demo_reply_pack @ [7])) = Some (Ret (), t) \<and>
    d_files (ts_disk t) ''/tmp/d/y'' = Some bs \<and> length bs = 1"
proof -
  obtain t where t: "download_run demo_pb demo_hash 0 [\<lambda>_. running_info] demo_task
      (demo_state (frame demo_pb demo_reply_pack @ [7])) = Some (Ret (), t)"
    using demo_download by blast
  from download_writes_verified_only [OF t]
  have "\<exists>bs. d_files (ts_disk t) ''/tmp/d/y'' = Some bs \<and> length bs = 1"
    by (auto simp: demo_state_def demo_task_def demo_chunk length_splice)
  with t show ?thesis by blast
qed

definition demo_upload :: upload_task where
  "demo_upload = \<lparr>ut_file = Some ''f'', ut_offset = 1, ut_chunk_size = 2\<rparr>"

definition demo_upload_state :: task_state where
  "demo_upload_state = \<lparr>ts_info = running_info, ts_sock = (idle_sock [])\<lparr>tx_ev := [Io 1]\<rparr>, ts_engine = [],
     ts_disk = empty_disk\<lparr>d_files := [''f'' \<mapsto> [1, 2, 3, 4]]\<rparr>\<rparr>"

lemma demo_upload_runs:
  "\<exists>tu. upload_run demo_hash [id, id] demo_upload demo_upload_state = Some (Ret (), tu) \<and>
     tx (ts_sock tu) = [2, 3]"
  by (simp add: upload_run_def demo_upload_def demo_upload_state_def read_mapped_def map_file_def
      empty_disk_def send_chunk.simps sendBytes_def idle_sock_def running_info_def
      download_info_init_def get_verification_code_def vc_without_lock_eq)

theorem transfer_delivers_chunk_witness:
  "\<exists>content t. receive_chunk 2 [\<lambda>_. running_info, \<lambda>_. running_info] [] 2
     (demo_state [2, 3, 9]\<lparr>ts_sock := (idle_sock [2, 3, 9])\<lparr>rx_ev := [Io 1]\<rparr>\<rparr>) = Some (Ret content, t)
     \<and> content = [2, 3] \<and> rx (ts_sock t) = [9]"
proof -
  let ?s = "demo_state [2, 3, 9]\<lparr>ts_sock := (idle_sock [2, 3, 9])\<lparr>rx_ev := [Io 1]\<rparr>\<rparr>"
  obtain tu where tu: "upload_run demo_hash [id, id] demo_upload demo_upload_state = Some (Ret (), tu)"
    "tx (ts_sock tu) = [2, 3]" using demo_upload_runs by blast
  have "lets_through (\<lambda>_. running_info)" by (simp add: lets_through_def open_quota_running)
  then obtain content t where run: "receive_chunk 2 [\<lambda>_. running_info, \<lambda>_. running_info] [] 2 ?s =
      Some (Ret content, t)"
    using receive_chunk_returns [of "[\<lambda>_. running_info, \<lambda>_. running_info]" 2 2 "[]" ?s]
    by (auto simp: benign_def running_info_def download_info_init_def idle_sock_def demo_state_def)
  have "ut_chunk_size demo_upload = 2" by (simp add: demo_upload_def)
  from transfer_delivers_chunk [OF tu(1), unfolded this, OF run, of "[9]"]
  show ?thesis
    using run tu(2)
    by (auto simp: demo_upload_def demo_upload_state_def idle_sock_def)
qed

theorem download_loop_ends_witness:
  "\<exists>t. receive_chunk 1 [\<lambda>di. running_info\<lparr>is_download_paused := True\<rparr>, \<lambda>_. running_info] [] 1
     (demo_state [7, 8]) = Some (Ret [7], t)"
proof -
  let ?p = "\<lambda>di :: download_info. running_info\<lparr>is_download_paused := True\<rparr>"
  have "lets_through (\<lambda>_. running_info)" by (simp add: lets_through_def open_quota_running)
  moreover have "benign ?p" "benign (\<lambda>_. running_info)"
    by (simp_all add: benign_def running_info_def download_info_init_def)
  ultimately show ?thesis
    using download_loop_ends [of "[?p, \<lambda>_. running_info]" 1 "demo_state [7, 8]"]
    by (simp add: demo_state_def idle_sock_def Suc_le_eq)
qed

theorem large_limit_never_receives_witness:
  "receive_chunk 1 (replicate 100 id) [] 1
     (demo_state [7]\<lparr>ts_info := running_info\<lparr>download_speed_limit := 2 ^ 31\<rparr>\<rparr>) = None"
  by (rule large_limit_never_receives)
    (simp_all add: running_info_def download_info_init_def)


end
