(* ===== verification/Job.thy ===== *)
theory Job
  imports ClientLink ChunkSelector ChunkTransfer
begin

text \<open>
  \<open>client/src/job.cc\<close>: a download job.  Its state is the selector with the job's data, the
  client's socket manager, the tasks it has started that have not ended, whether \<open>run\<close> is
  active, and the disk.  The task manager reports a task that fails first to \<open>onFailed\<close> and, like
  one that succeeds, then to \<open>onFinished\<close>.

  Whatever other threads do while the job waits (tasks that end, the user, other jobs) is the
  next element of a list: a change of the state and whether the wait is then woken or, where it
  has a time limit, timed out.  A wait with no element left gives \<open>None\<close>, the job is still
  waiting.  A timed \<open>Condition::wait\<close> throws \<open>TimeoutException\<close> when it times out.
\<close>

record job =
  jb_cs :: selector
  jb_sockManager :: sock_manager
  jb_tasks :: "download_task list"
  jb_is_running :: bool
  jb_disk :: disk

abbreviation jobInfo :: "job \<Rightarrow> job_info" where
  "jobInfo j \<equiv> cs_jobInfo (jb_cs j)"

datatype others = Woken (acts: "job \<Rightarrow> job") | TimedOut (acts: "job \<Rightarrow> job")

definition set_jobInfo :: "job_info \<Rightarrow> job \<Rightarrow> job" where
  "set_jobInfo ji j = j\<lparr>jb_cs := (jb_cs j)\<lparr>cs_jobInfo := ji\<rparr>\<rparr>"

text \<open>The constructor: no task is made yet, and the observers of the tasks' ends are registered.\<close>

definition new_job :: "job_info \<Rightarrow> sock_manager \<Rightarrow> disk \<Rightarrow> job" where
  "new_job info m d = \<lparr>jb_cs = \<lparr>cs_jobInfo = info, cs_queue = []\<rparr>, jb_sockManager = m, jb_tasks = [],
     jb_is_running = False, jb_disk = d\<rparr>"

text \<open>Calls on the parts of a job.\<close>

definition on_cs :: "(selector \<Rightarrow> ('a, selector) result) \<Rightarrow> job \<Rightarrow> ('a, job) result" where
  "on_cs f j = (let (r, cs) = f (jb_cs j) in (r, j\<lparr>jb_cs := cs\<rparr>))"

definition on_sm :: "(sock_manager \<Rightarrow> ('a, sock_manager) result) \<Rightarrow> job \<Rightarrow> ('a, job) result" where
  "on_sm f j = (let (r, sm) = f (jb_sockManager j) in (r, j\<lparr>jb_sockManager := sm\<rparr>))"

section \<open>Bitmaps on the wire\<close>

definition convert_bitmap_to_transport_format ::
    "bitset option \<Rightarrow> client_file_info \<Rightarrow> client_file_info outcome" where
  "convert_bitmap_to_transport_format bitmap info =
     (case bitmap of
        None \<Rightarrow> Throw AssertionViolation
      | Some b \<Rightarrow>
          Ret (info\<lparr>fi_filebitcount := Some (to_i32 (int (length b))),
                 fi_filebit := fi_filebit info @ bs_to_blocks b\<rparr>))"

definition conver_transport_format_bitmap :: "client_file_info \<Rightarrow> bitset outcome" where
  "conver_transport_format_bitmap info =
     (if int_field (fi_filebitcount info) < 0 then Throw BadAlloc
      else Ret (bs_resize (nat (int_field (fi_filebitcount info))) (bs_of_blocks (fi_filebit info))))"

section \<open>The end of a task\<close>

text \<open>
  The manager drops a task when it has ended.  \<open>failed\<close> says which observer is called before
  \<open>onFinished\<close>.
\<close>

definition onFinished :: "download_task \<Rightarrow> job \<Rightarrow> (unit, job) result" where
  "onFinished t j =
     and_then (if dt_reported t then (Ret (), j)
               else on_cs (report_success_chunk (dt_chunk_pos t) (tfi_fileid (dt_fileInfo t))) j)
       (\<lambda>_ j. on_sm (return_sock (dt_clientid t) (Some (dt_sock t))) j)"

definition onFailed :: "download_task \<Rightarrow> job \<Rightarrow> (download_task, job) result" where
  "onFailed t j =
     and_then (on_cs (report_failed_chunk (dt_chunk_pos t) (tfi_fileid (dt_fileInfo t))) j)
       (\<lambda>_ j. (Ret (t\<lparr>dt_reported := True\<rparr>), j))"

definition task_end :: "bool \<Rightarrow> download_task \<Rightarrow> job \<Rightarrow> (unit, job) result" where
  "task_end failed t j =
     (let j = j\<lparr>jb_tasks := remove1 t (jb_tasks j)\<rparr>
      in and_then (if failed then onFailed t j else (Ret t, j)) (\<lambda>t j. onFinished t j))"

section \<open>Owners of a file\<close>

definition job_request_clients :: "app \<Rightarrow> string \<Rightarrow> job \<Rightarrow> (retcode, job) result" where
  "job_request_clients ap fileid j =
     (case sm_find (percentage_map (ji_downloadInfo (jobInfo j))) fileid of
        None \<Rightarrow> (Throw AssertionViolation, j)
      | Some percentage \<Rightarrow>
          let (infoPtrList, infoMap) = sm_get [] fileid (ji_ownerInfoMap (jobInfo j));
              j = set_jobInfo ((jobInfo j)\<lparr>ji_ownerInfoMap := infoMap\<rparr>) j
          in and_then
            (on_sm (RequestClients ap (tracker_address (ji_torrentInfo (jobInfo j))) fileid percentage 20
              (map fo_clientid infoPtrList)) j) (\<lambda>(ret, res) j.
              if ret \<noteq> ERROR_OK then (Ret ret, j)
              else if length res = 0 then (Ret ERROR_FILE_NO_OWNER_ONLINE, j)
              else (Ret ret, set_jobInfo
                ((jobInfo j)\<lparr>ji_ownerInfoMap := sm_set fileid res (ji_ownerInfoMap (jobInfo j))\<rparr>) j)))"

text \<open>\<open>info->bitmap_ptr\<close> of the first owner with the clientid.\<close>

definition set_owner_bitmap :: "nat \<Rightarrow> bitset \<Rightarrow> string \<Rightarrow> job \<Rightarrow> job" where
  "set_owner_bitmap i b fileid j =
     (case sm_find (ji_ownerInfoMap (jobInfo j)) fileid of
        None \<Rightarrow> j
      | Some os \<Rightarrow> set_jobInfo ((jobInfo j)\<lparr>ji_ownerInfoMap :=
          sm_set fileid (os[i := (os ! i)\<lparr>fo_bitmap := b\<rparr>]) (ji_ownerInfoMap (jobInfo j))\<rparr>) j)"

definition self_info :: "app \<Rightarrow> string \<Rightarrow> job \<Rightarrow> (shake_hand_msg, job) result" where
  "self_info ap fileid j =
     (case sm_find (percentage_map (ji_downloadInfo (jobInfo j))) fileid of
        None \<Rightarrow> (Throw AssertionViolation, j)
      | Some percentage \<Rightarrow>
          let (bitmap, bm) = sm_get None fileid (bitmap_map (ji_downloadInfo (jobInfo j)));
              j = j\<lparr>jb_cs := set_bitmap_map bm (jb_cs j)\<rparr>;
              info = empty_file_info\<lparr>fi_fileid := Some fileid, fi_hasfile := Some 1,
                fi_percentage := Some percentage\<rparr>
          in (map_outcome (\<lambda>info. empty_shake_hand\<lparr>sh_clientid := Some (ap_clientid ap),
                 sh_info := Some info\<rparr>) (convert_bitmap_to_transport_format bitmap info), j))"

definition job_shake_hand :: "app \<Rightarrow> string \<Rightarrow> string \<Rightarrow> job \<Rightarrow> (retcode, job) result" where
  "job_shake_hand ap fileid clientid j =
     and_then (self_info ap fileid j) (\<lambda>self j.
     and_then (on_sm (client_shake_hand ap self (empty_shake_hand\<lparr>sh_clientid := Some clientid\<rparr>)) j)
       (\<lambda>(ret, peer) j.
       if ret \<noteq> ERROR_OK then (Ret ret, j)
       else if int_field (fi_hasfile (info_field peer)) = 0 then (Ret ERROR_PEER_FILE_NOT_FOUND, j)
       else case sm_find (ji_ownerInfoMap (jobInfo j)) fileid of
           None \<Rightarrow> (Throw AssertionViolation, j)
         | Some infoPtrList \<Rightarrow>
             (case find_if (\<lambda>o'. fo_clientid o' = clientid) infoPtrList of
                None \<Rightarrow> (Throw AssertionViolation, j)
              | Some i \<Rightarrow>
                  (case conver_transport_format_bitmap (info_field peer) of
                     Throw e \<Rightarrow> (Throw e, j)
                   | Ret b \<Rightarrow>
                       let j = set_owner_bitmap i b fileid j
                       in check (int_field (fi_filebitcount (info_field peer)) = int (length b)) j
                         (Ret ERROR_OK, j)))))"

definition meet_owner :: "app \<Rightarrow> string \<Rightarrow> file_owner \<Rightarrow> job \<Rightarrow> (unit, job) result" where
  "meet_owner ap fileid p j =
     and_then
       (if \<not> is_connected (fo_clientid p) (jb_sockManager j)
        then on_sm (connect_client (ap_resolve ap) (fo_clientid p) (fo_ip p) (fo_message_port p)) j
        else (Ret ERROR_OK, j))
       (\<lambda>_ j. and_then (job_shake_hand ap fileid (fo_clientid p) j) (\<lambda>_ j. (Ret (), j)))"

fun meet_owners :: "app \<Rightarrow> string \<Rightarrow> file_owner list \<Rightarrow> job \<Rightarrow> (unit, job) result" where
  "meet_owners ap fileid [] j = (Ret (), j)"
| "meet_owners ap fileid (p # ps) j =
     and_then (meet_owner ap fileid p j) (\<lambda>_ j. meet_owners ap fileid ps j)"

definition reinit_file_owner_info :: "app \<Rightarrow> string \<Rightarrow> job \<Rightarrow> (unit, job) result" where
  "reinit_file_owner_info ap fileid j =
     and_then (job_request_clients ap fileid j) (\<lambda>ret j.
       if ret = ERROR_FILE_NO_OWNER_ONLINE then (Ret (), j)
       else if ret \<noteq> ERROR_OK then (Ret (), j)
       else let (infoList, infoMap) = sm_get [] fileid (ji_ownerInfoMap (jobInfo j));
                j = set_jobInfo ((jobInfo j)\<lparr>ji_ownerInfoMap := infoMap\<rparr>) j
            in meet_owners ap fileid infoList j)"


section \<open>Starting the download of a chunk\<close>

text \<open>\<open>min_element\<close>: the index of the first of the smallest elements.\<close>

fun min_index :: "rat list \<Rightarrow> nat" where
  "min_index [] = 0"
| "min_index [x] = 0"
| "min_index (x # y # xs) =
     (let i = min_index (y # xs) in if (y # xs) ! i < x then Suc i else 0)"

definition choose_owner :: "file_owner list \<Rightarrow> job \<Rightarrow> string" where
  "choose_owner clientLists j =
     (let payloads = map (\<lambda>o'. get_payload_percentage (fo_clientid o') (jb_sockManager j)) clientLists
      in fo_clientid (clientLists ! min_index payloads))"

fun wait_for_sock :: "string \<Rightarrow> others list \<Rightarrow> job \<Rightarrow> ((nat, job) result \<times> others list) option" where
  "wait_for_sock clientid env j =
     (case on_sm (get_idle_client_sock clientid) j of
        (Throw e, j) \<Rightarrow> Some ((Throw e, j), env)
      | (Ret (Some h), j) \<Rightarrow> Some ((Ret h, j), env)
      | (Ret None, j) \<Rightarrow>
          (case get_sock_idel_condition clientid (jb_sockManager j) of
             (Throw e, _) \<Rightarrow> Some ((Throw e, j), env)
           | (Ret _, _) \<Rightarrow>
               (case env of [] \<Rightarrow> None | f # env \<Rightarrow> wait_for_sock clientid env (acts f j))))"

declare wait_for_sock.simps [simp del]

definition pool_capacity :: nat where
  "pool_capacity = 4"

fun wait_for_thread :: "others list \<Rightarrow> job \<Rightarrow> (job \<times> others list) option" where
  "wait_for_thread env j =
     (if length (jb_tasks j) < pool_capacity then Some (j, env)
      else case env of [] \<Rightarrow> None | f # env \<Rightarrow> wait_for_thread env (acts f j))"

declare wait_for_thread.simps [simp del]

text \<open>
  A Poco exception while the task is made is caught and logged; \<open>Undefined\<close> is not an exception.
\<close>

definition start_task ::
    "torrent_file_info \<Rightarrow> string option \<Rightarrow> string \<Rightarrow> nat \<Rightarrow> int \<Rightarrow> others list \<Rightarrow> job
      \<Rightarrow> ((unit, job) result \<times> others list) option" where
  "start_task fileInfo file peer_clientid h chunk_pos env j =
     (case file of
        None \<Rightarrow> Some ((Ret (), j), env)
      | Some path \<Rightarrow>
          (case wait_for_thread env j of
             None \<Rightarrow> None
           | Some (j, env) \<Rightarrow>
               (case download_task_of (peerAddress h (jb_sockManager j)) fileInfo peer_clientid h
                   chunk_pos path of
                  Ret t \<Rightarrow> Some ((Ret (), j\<lparr>jb_tasks := jb_tasks j @ [t]\<rparr>), env)
                | Throw Undefined \<Rightarrow> Some ((Throw Undefined, j), env)
                | Throw e \<Rightarrow> Some ((Ret (), j), env))))"

definition download_chunk ::
    "chunk_info \<Rightarrow> others list \<Rightarrow> job \<Rightarrow> ((unit, job) result \<times> others list) option" where
  "download_chunk chunk_info env j =
     (let peer_clientid = choose_owner (ci_clientLists chunk_info) j
      in case wait_for_sock peer_clientid env j of
        None \<Rightarrow> None
      | Some ((Throw e, j), env) \<Rightarrow> Some ((Throw e, j), env)
      | Some ((Ret h, j), env) \<Rightarrow>
          let fileid = ci_fileid chunk_info in
          (case get_one_file_of_same_fileid (ji_torrentInfo (jobInfo j)) fileid of
             Throw e \<Rightarrow> Some ((Throw e, j), env)
           | Ret fileInfo \<Rightarrow>
               let (has, lf) = has_local_file fileid (tf_relativepath (tfi_file fileInfo))
                     (tf_filename (tfi_file fileInfo)) (ji_localFileInfo (jobInfo j));
                   j = set_jobInfo ((jobInfo j)\<lparr>ji_localFileInfo := lf\<rparr>) j
               in if \<not> has then Some ((Throw AssertionViolation, j), env)
                  else start_task fileInfo (get_file fileid lf) peer_clientid h
                    (ci_chunk_num chunk_info) env j))"

section \<open>Job::run\<close>

datatype round_end = Again | Leave

text \<open>One turn of the \<open>while(1)\<close> loop.\<close>

definition job_round :: "app \<Rightarrow> others list \<Rightarrow> job \<Rightarrow> ((round_end, job) result \<times> others list) option" where
  "job_round ap env j =
     (if is_job_removed (ji_downloadInfo (jobInfo j)) then Some ((Ret Leave, j), env)
      else if is_stopped (ji_downloadInfo (jobInfo j)) then
        (case env of [] \<Rightarrow> None | f # env \<Rightarrow> Some ((Ret Again, acts f j), env))
      else if is_download_paused (ji_downloadInfo (jobInfo j)) then
        (case env of
           [] \<Rightarrow> None
         | Woken f # env \<Rightarrow> Some ((Ret Again, f j), env)
         | TimedOut f # env \<Rightarrow> Some ((Throw TimeoutException, f j), env))
      else
        let (c, cs) = get_chunk (jb_cs j); j = j\<lparr>jb_cs := cs\<rparr> in
        (case c of
           None \<Rightarrow> Some ((Ret Leave, j), env)
         | Some chunk_info \<Rightarrow>
             (case (if ci_status chunk_info = NOOWNER
                    then reinit_file_owner_info ap (ci_fileid chunk_info) j else (Ret (), j)) of
                (Throw e, j) \<Rightarrow> Some ((Throw e, j), env)
              | (Ret _, j) \<Rightarrow>
                  if length (ci_clientLists chunk_info) = 0 then
                    Some (and_then
                      (on_cs (report_no_owner_chunk (ci_chunk_num chunk_info) (ci_fileid chunk_info)) j)
                      (\<lambda>_ j. (Ret Again, j)), env)
                  else
                    (case download_chunk chunk_info env j of
                       None \<Rightarrow> None
                     | Some ((Throw e, j), env) \<Rightarrow> Some ((Throw e, j), env)
                     | Some ((Ret _, j), env) \<Rightarrow> Some ((Ret Again, j), env)))))"

fun find_owners :: "app \<Rightarrow> string list \<Rightarrow> job \<Rightarrow> (unit, job) result" where
  "find_owners ap [] j = (Ret (), j)"
| "find_owners ap (fileid # fs) j =
     (if sm_find (ji_ownerInfoMap (jobInfo j)) fileid \<noteq> None then find_owners ap fs j
      else and_then (reinit_file_owner_info ap fileid j) (\<lambda>_ j. find_owners ap fs j))"

text \<open>What \<open>run\<close> does before the loop.\<close>

definition job_start_run :: "app \<Rightarrow> job \<Rightarrow> (unit, job) result" where
  "job_start_run ap j =
     (let j = j\<lparr>jb_is_running := True\<rparr>
      in and_then (find_owners ap (fileidlist (jb_cs j)) j) (\<lambda>_ j. on_cs init_queue j))"

text \<open>The loop, given at most as many turns as the first argument.\<close>

fun job_loop :: "nat \<Rightarrow> app \<Rightarrow> others list \<Rightarrow> job \<Rightarrow> ((unit, job) result \<times> others list) option" where
  "job_loop 0 ap env j = None"
| "job_loop (Suc n) ap env j =
     (case job_round ap env j of
        None \<Rightarrow> None
      | Some ((Throw e, j), env) \<Rightarrow> Some ((Throw e, j), env)
      | Some ((Ret Leave, j), env) \<Rightarrow> Some ((Ret (), j), env)
      | Some ((Ret Again, j), env) \<Rightarrow> job_loop n ap env j)"

text \<open>
  What \<open>run\<close> does behind the loop: wait for the tasks (their ends are in \<open>env\<close>) and copy the file
  downloaded for a fileid to the other places the torrent has it.
\<close>

fun join_all :: "others list \<Rightarrow> job \<Rightarrow> (job \<times> others list) option" where
  "join_all env j =
     (if jb_tasks j = [] then Some (j, env)
      else case env of [] \<Rightarrow> None | f # env \<Rightarrow> join_all env (acts f j))"

declare join_all.simps [simp del]

definition parent_dir :: "string \<Rightarrow> string" where
  "parent_dir path = rev (dropWhile (\<lambda>c. c \<noteq> CHR ''/'') (rev path))"

definition copyTo :: "string \<Rightarrow> string \<Rightarrow> disk \<Rightarrow> (unit, disk) result" where
  "copyTo source target d =
     (case d_files d source of
        None \<Rightarrow> (Throw FileException, d)
      | Some bs \<Rightarrow>
          if d_refused d source \<or> d_refused d target then (Throw FileException, d)
          else (Ret (), d\<lparr>d_files := (d_files d)(target \<mapsto> bs)\<rparr>))"

fun copy_all :: "string \<Rightarrow> string list \<Rightarrow> disk \<Rightarrow> (unit, disk) result" where
  "copy_all source [] d = (Ret (), d)"
| "copy_all source (p # ps) d =
     and_then (createDirectories (parent_dir p) d) (\<lambda>_ d.
     and_then (copyTo source p d) (\<lambda>_ d. copy_all source ps d))"

fun copy_same_files :: "(string \<times> string list) list \<Rightarrow> disk \<Rightarrow> (unit, disk) result" where
  "copy_same_files [] d = (Ret (), d)"
| "copy_same_files ((fileid, paths) # fs) d =
     (case paths of
        [] \<Rightarrow> (Throw Undefined, d)
      | source # rest \<Rightarrow> and_then (copy_all source rest d) (\<lambda>_ d. copy_same_files fs d))"

definition job_finish :: "others list \<Rightarrow> job \<Rightarrow> ((unit, job) result \<times> others list) option" where
  "job_finish env j =
     (case join_all env j of
        None \<Rightarrow> None
      | Some (j, env) \<Rightarrow>
          (case copy_same_files (lf_same_files (ji_localFileInfo (jobInfo j))) (jb_disk j) of
             (Throw e, d) \<Rightarrow> Some ((Throw e, j\<lparr>jb_disk := d\<rparr>), env)
           | (Ret _, d) \<Rightarrow> Some ((Ret (), j\<lparr>jb_disk := d, jb_is_running := False\<rparr>), env)))"

definition job_run :: "nat \<Rightarrow> app \<Rightarrow> others list \<Rightarrow> job \<Rightarrow> ((unit, job) result \<times> others list) option" where
  "job_run fuel ap env j =
     (case job_start_run ap j of
        (Throw e, j) \<Rightarrow> Some ((Throw e, j), env)
      | (Ret _, j) \<Rightarrow>
          (case job_loop fuel ap env j of
             None \<Rightarrow> None
           | Some ((Throw e, j), env) \<Rightarrow> Some ((Throw e, j), env)
           | Some ((Ret _, j), env) \<Rightarrow> job_finish env j))"


section \<open>Lemmas: what finding owners changes\<close>

text \<open>Everything that decides which chunks there are, where they stand and where they are stored.\<close>

definition same_chunks :: "job \<Rightarrow> job \<Rightarrow> bool" where
  "same_chunks j j' \<longleftrightarrow>
     ji_fileidlist (jobInfo j') = ji_fileidlist (jobInfo j) \<and>
     ji_torrentInfo (jobInfo j') = ji_torrentInfo (jobInfo j) \<and>
     percentage_map (ji_downloadInfo (jobInfo j')) = percentage_map (ji_downloadInfo (jobInfo j)) \<and>
     (\<forall>c b. sm_find (bitmap_map (ji_downloadInfo (jobInfo j'))) c = Some (Some b) \<longleftrightarrow>
        sm_find (bitmap_map (ji_downloadInfo (jobInfo j))) c = Some (Some b)) \<and>
     is_job_removed (ji_downloadInfo (jobInfo j')) = is_job_removed (ji_downloadInfo (jobInfo j)) \<and>
     cs_queue (jb_cs j') = cs_queue (jb_cs j) \<and> jb_tasks j' = jb_tasks j \<and> jb_disk j' = jb_disk j \<and>
     lf_files (ji_localFileInfo (jobInfo j')) = lf_files (ji_localFileInfo (jobInfo j)) \<and>
     file_places (ji_localFileInfo (jobInfo j')) = file_places (ji_localFileInfo (jobInfo j))"

definition conns_alive :: "sock_manager \<Rightarrow> bool" where
  "conns_alive m \<longleftrightarrow>
     (\<forall>cn \<in> set (lm_socks m). \<not> cn_lost cn) \<and>
     (\<forall>s. Some (True, s) \<notin> set (lm_connects m))"

lemma conns_alive_maps [simp]:
  "conns_alive (m\<lparr>lm_client_sock_map := x\<rparr>) = conns_alive m"
  "conns_alive (m\<lparr>lm_condition_map := y\<rparr>) = conns_alive m"
  by (simp_all add: conns_alive_def)

definition pool_good :: "sock_manager \<Rightarrow> bool" where
  "pool_good m \<longleftrightarrow> pool_inv m \<and> conns_alive m"

lemma same_chunks_refl [simp]: "same_chunks j j"
  by (simp add: same_chunks_def)

lemma same_chunks_trans: "same_chunks a b \<Longrightarrow> same_chunks b c \<Longrightarrow> same_chunks a c"
  by (simp add: same_chunks_def)

text \<open>A call that keeps both the chunks and the pool.\<close>

definition quiet :: "job \<Rightarrow> ('a, job) result \<Rightarrow> bool" where
  "quiet j r \<longleftrightarrow> same_chunks j (snd r) \<and>
     (pool_good (jb_sockManager j) \<longrightarrow> pool_good (jb_sockManager (snd r)))"

lemma quiet_refl [simp]: "quiet j (x, j)"
  by (simp add: quiet_def)

lemma quiet_and_then:
  "quiet j r \<Longrightarrow> (\<And>x s. r = (Ret x, s) \<Longrightarrow> quiet s (f x s)) \<Longrightarrow> quiet j (and_then r f)"
  by (cases r; cases "fst r") (auto simp: quiet_def intro: same_chunks_trans)

lemma quiet_check: "quiet j k \<Longrightarrow> quiet j (check b j k)"
  by (simp add: check_def)

lemma quiet_on_sm:
  assumes "pool_good (jb_sockManager j) \<Longrightarrow> pool_good (snd (f (jb_sockManager j)))"
  shows "quiet j (on_sm f j)"
  using assms by (auto simp: quiet_def on_sm_def same_chunks_def split: prod.splits)

lemma quiet_set_owners:
  "quiet j (x, set_jobInfo ((jobInfo j)\<lparr>ji_ownerInfoMap := m\<rparr>) j)"
  by (simp add: quiet_def same_chunks_def set_jobInfo_def)

lemma on_conn_alive: "conns_alive m \<Longrightarrow> conns_alive (snd (on_conn h f m))"
  by (auto simp: on_conn_def conns_alive_def split: prod.splits
      dest!: set_update_subset_insert [THEN subsetD])

lemma make_connection_alive: "conns_alive m \<Longrightarrow> conns_alive (snd (make_connection sa m))"
  by (auto simp: make_connection_def conns_alive_def split: list.splits option.splits)

lemma push_sock_alive [simp]: "conns_alive (push_sock c e m) = conns_alive m"
  by (simp add: push_sock_eq conns_alive_def)

lemma get_idle_alive: "conns_alive m \<Longrightarrow> conns_alive (snd (get_idle_client_sock c m))"
  by (auto simp: get_idle_client_sock_def split_def Let_def make_connection_alive
      split: option.splits outcome.splits)

lemma return_sock_alive: "conns_alive m \<Longrightarrow> conns_alive (snd (return_sock c h m))"
  by (auto simp: return_sock_def Let_def split: option.splits outcome.splits)

lemma make_connection_to_alive: "conns_alive m \<Longrightarrow> conns_alive (snd (make_connection_to rs ip port m))"
  by (auto simp: make_connection_to_def split_def Let_def make_connection_alive split: outcome.splits)

lemma connect_client_alive: "conns_alive m \<Longrightarrow> conns_alive (snd (connect_client rs c ip port m))"
  unfolding connect_client_def
  by (auto simp: Let_def intro!: and_then_inv [where P = conns_alive] make_connection_to_alive
      split: option.splits)

lemma handle_reply_alive:
  "conns_alive m \<Longrightarrow> conns_alive (snd (handle_reply_message ap cast code h msg t m))"
  unfolding handle_reply_message_def Let_def reply_err_def
  by (auto intro!: and_then_inv [where P = conns_alive] on_conn_alive split: option.splits outcome.splits)

lemma RequestClients_alive: "conns_alive m \<Longrightarrow> conns_alive (snd (RequestClients ap addr f p n os m))"
  unfolding RequestClients_def check_def
  by (auto intro!: and_then_inv [where P = conns_alive] handle_reply_alive split: option.splits)

lemma shake_hand_on_alive: "conns_alive m \<Longrightarrow> conns_alive (snd (shake_hand_on ap self peer h m))"
  unfolding shake_hand_on_def
  by (auto intro!: and_then_inv [where P = conns_alive] on_conn_alive split: option.splits)

lemma client_shake_hand_alive: "conns_alive m \<Longrightarrow> conns_alive (snd (client_shake_hand ap self peer m))"
  unfolding client_shake_hand_def check_def Let_def
  by (auto simp: split_def intro!: and_then_inv [where P = conns_alive] get_idle_alive
      return_sock_alive shake_hand_on_alive split: option.splits outcome.splits)

lemmas pool_good_calls =
  pool_inv_get_idle pool_inv_return_sock pool_inv_connect_client client_shake_hand_inv
  get_idle_alive return_sock_alive connect_client_alive RequestClients_alive client_shake_hand_alive

lemma pool_good_RequestClients:
  "pool_good m \<Longrightarrow> pool_good (snd (RequestClients ap addr f p n os m))"
  using keeps_pool_inv [OF RequestClients_keeps] by (simp add: pool_good_def RequestClients_alive)

lemma quiet_from:
  "same_chunks j j' \<Longrightarrow> jb_sockManager j' = jb_sockManager j \<Longrightarrow> quiet j' r \<Longrightarrow> quiet j r"
  by (auto simp: quiet_def intro: same_chunks_trans)

lemma same_chunks_owners [simp]: "same_chunks j (set_jobInfo ((jobInfo j)\<lparr>ji_ownerInfoMap := m\<rparr>) j)"
  by (simp add: same_chunks_def set_jobInfo_def)

lemma jb_sockManager_set_jobInfo [simp]: "jb_sockManager (set_jobInfo ji j) = jb_sockManager j"
  by (simp add: set_jobInfo_def)

lemma quiet_request_clients: "quiet j (job_request_clients ap f j)"
proof (cases "sm_find (percentage_map (ji_downloadInfo (jobInfo j))) f")
  case (Some p)
  show ?thesis
    unfolding job_request_clients_def Let_def split_def Some option.case
    by (rule quiet_from, rule same_chunks_owners, simp, rule quiet_and_then)
      (auto intro!: quiet_on_sm quiet_set_owners simp: pool_good_RequestClients)
qed (simp add: job_request_clients_def)

lemma quiet_self_info: "quiet j (self_info ap f j)"
proof (cases "sm_find (percentage_map (ji_downloadInfo (jobInfo j))) f")
  case (Some p)
  have "same_chunks j (j\<lparr>jb_cs := set_bitmap_map (snd (sm_get None f
      (bitmap_map (ji_downloadInfo (jobInfo j))))) (jb_cs j)\<rparr>)"
    by (auto simp: same_chunks_def set_bitmap_map_def sm_get_def sm.find_set split: option.splits)
  with Some show ?thesis
    by (simp add: self_info_def Let_def split_def quiet_def)
qed (simp add: self_info_def)

lemma quiet_set_owner_bitmap: "quiet j (x, set_owner_bitmap i b f j)"
  by (auto simp: set_owner_bitmap_def quiet_set_owners split: option.splits)

lemma quiet_job_shake_hand: "quiet j (job_shake_hand ap f c j)"
  unfolding job_shake_hand_def
proof (rule quiet_and_then [OF quiet_self_info], rule quiet_and_then)
  fix self j
  show "quiet j (on_sm (client_shake_hand ap self (empty_shake_hand\<lparr>sh_clientid := Some c\<rparr>)) j)"
    by (rule quiet_on_sm) (simp add: pool_good_def pool_good_calls)
qed (auto simp: Let_def check_def intro: quiet_set_owner_bitmap split: option.splits outcome.splits)

lemma quiet_meet_owner: "quiet j (meet_owner ap f p j)"
  unfolding meet_owner_def
proof (rule quiet_and_then)
  show "quiet j (if \<not> is_connected (fo_clientid p) (jb_sockManager j)
      then on_sm (connect_client (ap_resolve ap) (fo_clientid p) (fo_ip p) (fo_message_port p)) j
      else (Ret ERROR_OK, j))"
    by (auto intro!: quiet_on_sm simp: pool_good_def pool_good_calls)
qed (auto intro!: quiet_and_then quiet_job_shake_hand)

lemma quiet_meet_owners: "quiet j (meet_owners ap f ps j)"
  by (induction ps arbitrary: j) (auto intro!: quiet_and_then quiet_meet_owner)

lemma quiet_reinit: "quiet j (reinit_file_owner_info ap f j)"
  unfolding reinit_file_owner_info_def
proof (rule quiet_and_then [OF quiet_request_clients])
  fix ret j
  show "quiet j (if ret = ERROR_FILE_NO_OWNER_ONLINE then (Ret (), j)
       else if ret \<noteq> ERROR_OK then (Ret (), j)
       else let (infoList, infoMap) = sm_get [] f (ji_ownerInfoMap (jobInfo j));
                j = set_jobInfo ((jobInfo j)\<lparr>ji_ownerInfoMap := infoMap\<rparr>) j
            in meet_owners ap f infoList j)"
    by (simp add: Let_def split_def)
      (auto intro: quiet_from [OF same_chunks_owners _ quiet_meet_owners])
qed


section \<open>Where the chunks are\<close>

text \<open>
  The chunks a job still has to fetch, and the invariant of its books: each of them is exactly
  once in the queue, in a running task or in \<open>hand\<close>, the chunk the loop is just handling.
\<close>

definition open_set :: "job \<Rightarrow> (string \<times> int) set" where
  "open_set j = {(f, n). f \<in> set (ji_fileidlist (jobInfo j)) \<and> n \<in> set (missing_chunks (jobInfo j) f)}"

definition task_id :: "download_task \<Rightarrow> string \<times> int" where
  "task_id t = (tfi_fileid (dt_fileInfo t), dt_chunk_pos t)"

definition chunk_id :: "chunk_info \<Rightarrow> string \<times> int" where
  "chunk_id c = (ci_fileid c, ci_chunk_num c)"

definition accounting :: "(string \<times> int) list \<Rightarrow> job \<Rightarrow> bool" where
  "accounting hand j \<longleftrightarrow>
     mset (hand @ map chunk_id (cs_queue (jb_cs j)) @ map task_id (jb_tasks j)) = mset_set (open_set j)"

definition file_map_named :: "torrent_info \<Rightarrow> bool" where
  "file_map_named ti \<longleftrightarrow>
     (\<forall>c infos. sm_find (ti_fileMap ti) c = Some infos \<longrightarrow> (\<forall>i \<in> set infos. tfi_fileid i = c))"

definition sound :: "(string \<times> int) list \<Rightarrow> job \<Rightarrow> bool" where
  "sound hand j \<longleftrightarrow> accounting hand j \<and> job_wf (jobInfo j) \<and>
     file_map_named (ji_torrentInfo (jobInfo j)) \<and> pool_good (jb_sockManager j)"

lemma finite_open_set: "finite (open_set j)"
proof -
  have "open_set j = (SIGMA f : set (ji_fileidlist (jobInfo j)). set (missing_chunks (jobInfo j) f))"
    by (auto simp: open_set_def)
  then show ?thesis by simp
qed

lemma mset_eq_mset_set:
  assumes "finite A"
  shows "mset xs = mset_set A \<longleftrightarrow> distinct xs \<and> set xs = A"
proof
  assume eq: "mset xs = mset_set A"
  then have "set xs = A" using assms by (metis finite_set_mset_mset_set set_mset_mset)
  moreover have "distinct xs"
    unfolding distinct_count_atmost_1 eq using assms \<open>set xs = A\<close> by simp
  ultimately show "distinct xs \<and> set xs = A" by simp
qed (auto simp: mset_set_set)

lemma accounting_iff:
  "accounting hand j \<longleftrightarrow>
     distinct (hand @ map chunk_id (cs_queue (jb_cs j)) @ map task_id (jb_tasks j)) \<and>
     set (hand @ map chunk_id (cs_queue (jb_cs j)) @ map task_id (jb_tasks j)) = open_set j"
  unfolding accounting_def by (rule mset_eq_mset_set [OF finite_open_set])

lemma file_map_named_torrent: "file_map_named (torrent_info_of t)"
  by (auto simp: file_map_named_def torrent_info_of_def file_map_find torrent_file_info_of_def Let_def
      split: if_splits)

lemma same_chunks_open: "same_chunks j j' \<Longrightarrow> open_set j' = open_set j"
  by (auto simp: same_chunks_def open_set_def missing_chunks_iff)

lemma same_chunks_wf:
  assumes "same_chunks j j'" and "job_wf (jobInfo j)"
  shows "job_wf (jobInfo j')"
  unfolding job_wf_def
proof
  fix c assume "c \<in> set (ji_fileidlist (jobInfo j'))"
  with assms obtain b infos where
    "sm_find (bitmap_map (ji_downloadInfo (jobInfo j))) c = Some (Some b)"
    "sm_find (ti_fileMap (ji_torrentInfo (jobInfo j))) c = Some infos \<and> infos \<noteq> [] \<and>
        tfi_chunk_count (hd infos) = int (length b) \<and>
        tfi_chunk_count (hd infos) = int (length (tf_chunk (tfi_file (hd infos)))) \<and>
        sm_find (percentage_map (ji_downloadInfo (jobInfo j))) c \<noteq> None"
    unfolding same_chunks_def job_wf_def by metis
  with assms(1) show "\<exists>b infos. sm_find (bitmap_map (ji_downloadInfo (jobInfo j'))) c = Some (Some b) \<and>
        sm_find (ti_fileMap (ji_torrentInfo (jobInfo j'))) c = Some infos \<and> infos \<noteq> [] \<and>
        tfi_chunk_count (hd infos) = int (length b) \<and>
        tfi_chunk_count (hd infos) = int (length (tf_chunk (tfi_file (hd infos)))) \<and>
        sm_find (percentage_map (ji_downloadInfo (jobInfo j'))) c \<noteq> None"
    unfolding same_chunks_def by auto
qed

lemma sound_same_chunks:
  "sound hand j \<Longrightarrow> same_chunks j j' \<Longrightarrow> pool_good (jb_sockManager j') \<Longrightarrow> sound hand j'"
  unfolding sound_def accounting_def
  by (simp add: same_chunks_open same_chunks_wf) (simp add: same_chunks_def)

lemma sound_quiet: "sound hand j \<Longrightarrow> quiet j (r, j') \<Longrightarrow> sound hand j'"
  by (rule sound_same_chunks) (auto simp: quiet_def sound_def)

text \<open>A chunk moves between the queue, the hand and the tasks.\<close>

lemma open_set_queue [simp]: "open_set (j\<lparr>jb_cs := (jb_cs j)\<lparr>cs_queue := q\<rparr>\<rparr>) = open_set j"
  by (simp add: open_set_def)

lemma open_set_tasks [simp]: "open_set (j\<lparr>jb_tasks := ts\<rparr>) = open_set j"
  by (simp add: open_set_def)

lemma sound_move:
  assumes "sound hand j"
    and "mset (hand' @ map chunk_id q @ map task_id ts) =
      mset (hand @ map chunk_id (cs_queue (jb_cs j)) @ map task_id (jb_tasks j))"
  shows "sound hand' (j\<lparr>jb_cs := (jb_cs j)\<lparr>cs_queue := q\<rparr>, jb_tasks := ts\<rparr>)"
  using assms unfolding sound_def accounting_def by (simp add: open_set_def)

lemma sound_get_chunk:
  assumes "sound [] j" and "get_chunk (jb_cs j) = (Some c, cs)"
  shows "sound [chunk_id c] (j\<lparr>jb_cs := cs\<rparr>)"
proof -
  have top: "pq_top (cs_queue (jb_cs j)) = Some c" and cs: "cs = (jb_cs j)\<lparr>cs_queue := pq_pop (cs_queue (jb_cs j))\<rparr>"
    using assms(2) by (auto simp: get_chunk_def split: if_splits)
  have "mset (cs_queue (jb_cs j)) = add_mset c (mset (pq_pop (cs_queue (jb_cs j))))"
    by (rule pq.elems_top_pop [OF top])
  then have "mset ([chunk_id c] @ map chunk_id (pq_pop (cs_queue (jb_cs j))) @ map task_id (jb_tasks j)) =
      mset ([] @ map chunk_id (cs_queue (jb_cs j)) @ map task_id (jb_tasks j))"
    by (simp flip: mset_map) (metis image_mset_add_mset mset_map)
  from sound_move [OF assms(1) this] show ?thesis unfolding cs by simp
qed

lemma report_chunk_result:
  assumes "report_chunk st base n f s = (Ret (), s')"
  shows "\<exists>c. chunk_id c = (f, n) \<and> s' = s\<lparr>cs_queue := cs_queue s @ [c]\<rparr>"
proof -
  from assms obtain c where
    prio: "get_priority (ji_ownerInfoMap (cs_jobInfo s))
      (new_chunk_info\<lparr>ci_status := st, ci_chunk_num := n, ci_fileid := f\<rparr>) base = Ret c"
    and s': "s' = s\<lparr>cs_queue := cs_queue s @ [c]\<rparr>"
    by (auto simp: report_chunk_def pq_push_def split: outcome.splits)
  have "chunk_id c = (f, n)"
    using prio by (auto simp: get_priority_eq chunk_id_def split: option.splits if_splits)
  with s' show ?thesis by blast
qed

lemma sound_report:
  assumes "sound ((f, n) # hand) j" and "on_cs (report_chunk st base n f) j = (Ret (), j')"
  shows "sound hand j'"
proof -
  obtain c where c: "chunk_id c = (f, n)" "j' = j\<lparr>jb_cs := (jb_cs j)\<lparr>cs_queue := cs_queue (jb_cs j) @ [c]\<rparr>\<rparr>"
    using assms(2) report_chunk_result by (auto simp: on_cs_def split: prod.splits) metis
  from sound_move [OF assms(1), of hand "cs_queue (jb_cs j) @ [c]" "jb_tasks j"] c
  show ?thesis by simp
qed


section \<open>Lemmas: a turn of the loop\<close>

text \<open>Others that keep the books: ends of tasks, new connections, the user.\<close>

definition harmless :: "others \<Rightarrow> bool" where
  "harmless f \<longleftrightarrow>
     (\<forall>hand j. sound hand j \<longrightarrow> sound hand (acts f j) \<and>
        length (lm_socks (jb_sockManager j)) \<le> length (lm_socks (jb_sockManager (acts f j))))"

lemma sound_sockManager:
  "sound hand j \<Longrightarrow> pool_good m \<Longrightarrow> sound hand (j\<lparr>jb_sockManager := m\<rparr>)"
  by (erule sound_same_chunks) (simp_all add: same_chunks_def)

lemma sound_wait_for_sock:
  "sound hand j \<Longrightarrow> \<forall>f \<in> set env. harmless f \<Longrightarrow>
     wait_for_sock c env j = Some ((Ret h, j'), env') \<Longrightarrow>
     sound hand j' \<and> h < length (lm_socks (jb_sockManager j')) \<and> set env' \<subseteq> set env"
proof (induction env arbitrary: j)
  case Nil
  obtain r m where get: "get_idle_client_sock c (jb_sockManager j) = (r, m)" by fastforce
  have good: "pool_good m"
    using Nil.prems(1) get pool_inv_get_idle [of "jb_sockManager j" c]
      get_idle_alive [of "jb_sockManager j" c] by (simp add: sound_def pool_good_def)
  from Nil.prems(3) get have r: "r = Ret (Some h)" "j' = j\<lparr>jb_sockManager := m\<rparr>"
    by (auto simp: wait_for_sock.simps [of c "[]"] on_sm_def split: outcome.splits option.splits prod.splits)
  have "(c, h) \<in> lent m"
    using get_idle_lends [of "jb_sockManager j" c h m] Nil.prems(1) get r by (simp add: sound_def pool_good_def)
  then have "h < length (lm_socks m)"
    using lent_belongs belongs_less good unfolding pool_good_def by blast
  with r good Nil.prems(1) Nil.prems(3) show ?case
    by (auto simp: sound_sockManager wait_for_sock.simps [of c "[]"] on_sm_def
        split: outcome.splits option.splits prod.splits)
next
  case (Cons f env)
  obtain r m where get: "get_idle_client_sock c (jb_sockManager j) = (r, m)" by fastforce
  have good: "pool_good m"
    using Cons.prems(1) get pool_inv_get_idle [of "jb_sockManager j" c]
      get_idle_alive [of "jb_sockManager j" c] by (simp add: sound_def pool_good_def)
  have sound: "sound hand (j\<lparr>jb_sockManager := m\<rparr>)" using sound_sockManager Cons.prems(1) good .
  show ?case
  proof (cases "r = Ret None")
    case True
    with Cons.prems(3) get have
      "wait_for_sock c env (acts f (j\<lparr>jb_sockManager := m\<rparr>)) = Some ((Ret h, j'), env')"
      by (subst (asm) wait_for_sock.simps) (auto simp: on_sm_def split: outcome.splits option.splits prod.splits)
    moreover have "sound hand (acts f (j\<lparr>jb_sockManager := m\<rparr>))"
      using Cons.prems(2) sound by (simp add: harmless_def)
    ultimately show ?thesis using Cons.IH Cons.prems(2) by fastforce
  next
    case False
    with Cons.prems(3) get have r: "r = Ret (Some h)" "j' = j\<lparr>jb_sockManager := m\<rparr>" "env' = f # env"
      by (auto simp: wait_for_sock.simps [of c "f # env"] on_sm_def
          split: outcome.splits option.splits prod.splits)
    have "(c, h) \<in> lent m"
      using get_idle_lends [of "jb_sockManager j" c h m] Cons.prems(1) get r
      by (simp add: sound_def pool_good_def)
    then have "h < length (lm_socks m)"
      using lent_belongs belongs_less good unfolding pool_good_def by blast
    with r sound show ?thesis by simp
  qed
qed

lemma sound_wait_for_thread:
  "sound hand j \<Longrightarrow> \<forall>f \<in> set env. harmless f \<Longrightarrow> h < length (lm_socks (jb_sockManager j)) \<Longrightarrow>
     wait_for_thread env j = Some (j', env') \<Longrightarrow>
     sound hand j' \<and> h < length (lm_socks (jb_sockManager j')) \<and> set env' \<subseteq> set env"
proof (induction env arbitrary: j)
  case Nil
  then show ?case by (subst (asm) wait_for_thread.simps) (auto split: if_splits)
next
  case (Cons f env)
  show ?case
  proof (cases "length (jb_tasks j) < pool_capacity")
    case False
    then have run: "wait_for_thread env (acts f j) = Some (j', env')"
      using Cons.prems(4) by (subst (asm) wait_for_thread.simps) simp
    have "harmless f" using Cons.prems(2) by simp
    then have "sound hand (acts f j)" "h < length (lm_socks (jb_sockManager (acts f j)))"
      using Cons.prems(1,3) unfolding harmless_def by fastforce+
    from Cons.IH [OF this(1) _ this(2) run] Cons.prems(2) show ?thesis by auto
  qed (use Cons.prems in \<open>auto simp: wait_for_thread.simps [of "f # env"]\<close>)
qed

text \<open>An open chunk of a sound job has a checksum, and a fileid its file.\<close>

lemma open_chunk_file:
  assumes "sound hand j" and "(f, n) \<in> open_set j"
  shows "\<exists>info. get_one_file_of_same_fileid (ji_torrentInfo (jobInfo j)) f = Ret info \<and>
    tfi_fileid info = f \<and> (\<exists>cksum. chunk_checksum info n = Ret cksum)"
proof -
  have wf: "job_wf (jobInfo j)" and named: "file_map_named (ji_torrentInfo (jobInfo j))"
    using assms(1) by (simp_all add: sound_def)
  from assms(2) obtain b where f: "f \<in> set (ji_fileidlist (jobInfo j))"
    and b: "sm_find (bitmap_map (ji_downloadInfo (jobInfo j))) f = Some (Some b)" "bs_test b n = Ret False"
    by (auto simp: open_set_def missing_chunks_iff)
  from wf f b(1) obtain infos where infos: "sm_find (ti_fileMap (ji_torrentInfo (jobInfo j))) f = Some infos"
      "infos \<noteq> []" "tfi_chunk_count (hd infos) = int (length b)"
      "tfi_chunk_count (hd infos) = int (length (tf_chunk (tfi_file (hd infos))))"
    unfolding job_wf_def by fastforce
  have "tfi_fileid (hd infos) = f" using named infos(1,2) by (auto simp: file_map_named_def)
  moreover have "\<exists>cksum. chunk_checksum (hd infos) n = Ret cksum"
    using b(2) infos(3,4) by (auto simp: chunk_checksum_def chunk_get_def bs_test_Ret)
  ultimately show ?thesis
    using infos(1,2) by (intro exI [of _ "hd infos"])
      (cases infos; simp add: get_one_file_of_same_fileid_def)
qed

lemma alive_peerAddress:
  "pool_good m \<Longrightarrow> h < length (lm_socks m) \<Longrightarrow> \<exists>sa. peerAddress h m = Ret sa"
  by (auto simp: peerAddress_def pool_good_def conns_alive_def)

lemma sound_start_task:
  assumes "sound [(tfi_fileid info, n)] j" and "\<forall>f \<in> set env. harmless f"
    and "h < length (lm_socks (jb_sockManager j))" and "chunk_checksum info n = Ret cksum"
    and "file \<noteq> None" and "start_task info file c h n env j = Some ((Ret (), j'), env')"
  shows "sound [] j' \<and> set env' \<subseteq> set env"
proof -
  obtain path where path: "file = Some path" using assms(5) by blast
  with assms(6) obtain j1 where wait: "wait_for_thread env j = Some (j1, env')"
    by (auto simp: start_task_def split: option.splits outcome.splits exn.splits)
  from sound_wait_for_thread [OF assms(1-3) wait] have j1: "sound [(tfi_fileid info, n)] j1"
    "h < length (lm_socks (jb_sockManager j1))" "set env' \<subseteq> set env" by simp_all
  then obtain sa where "peerAddress h (jb_sockManager j1) = Ret sa"
    using alive_peerAddress unfolding sound_def by blast
  then obtain t where t: "download_task_of (peerAddress h (jb_sockManager j1)) info c h n path = Ret t"
      "task_id t = (tfi_fileid info, n)"
    using assms(4) by (auto simp: download_task_of_def task_id_def)
  with assms(6) path wait have "j' = j1\<lparr>jb_tasks := jb_tasks j1 @ [t]\<rparr>"
    by (simp add: start_task_def)
  with sound_move [OF j1(1), of "[]" "cs_queue (jb_cs j1)" "jb_tasks j1 @ [t]"] t(2) j1(3)
  show ?thesis by simp
qed


lemma has_local_file_get:
  "has_local_file f rel name lf = (True, lf') \<Longrightarrow> get_file f lf' \<noteq> None"
  by (auto simp: has_local_file_def get_file_def Let_def split: option.splits prod.splits)

lemma has_local_file_files: "has_local_file f rel name lf = (r, lf') \<Longrightarrow> lf_files lf' = lf_files lf"
  by (auto simp: has_local_file_def Let_def split: option.splits prod.splits)

lemma same_chunks_local [simp]:
  "same_chunks j (set_jobInfo ((jobInfo j)\<lparr>ji_localFileInfo := lf\<rparr>) j) \<longleftrightarrow>
     lf_files lf = lf_files (ji_localFileInfo (jobInfo j)) \<and>
     file_places lf = file_places (ji_localFileInfo (jobInfo j))"
  by (auto simp: same_chunks_def set_jobInfo_def)

lemma sound_open: "sound (i # hand) j \<Longrightarrow> i \<in> open_set j"
  unfolding sound_def accounting_iff by auto

lemma sound_download_chunk:
  assumes "sound [chunk_id c] j" and "\<forall>f \<in> set env. harmless f"
    and "download_chunk c env j = Some ((Ret (), j'), env')"
  shows "sound [] j' \<and> set env' \<subseteq> set env"
proof -
  let ?peer = "choose_owner (ci_clientLists c) j"
  obtain h j1 env1 where wait: "wait_for_sock ?peer env j = Some ((Ret h, j1), env1)"
    using assms(3) by (auto simp: download_chunk_def Let_def split: option.splits outcome.splits prod.splits)
  from sound_wait_for_sock [OF assms(1,2) wait] have j1: "sound [chunk_id c] j1"
    "h < length (lm_socks (jb_sockManager j1))" "set env1 \<subseteq> set env" by simp_all
  from open_chunk_file [OF j1(1)] sound_open [OF j1(1)] obtain info cksum where
    info: "get_one_file_of_same_fileid (ji_torrentInfo (jobInfo j1)) (ci_fileid c) = Ret info"
      "tfi_fileid info = ci_fileid c" "chunk_checksum info (ci_chunk_num c) = Ret cksum"
    unfolding chunk_id_def by blast
  obtain has lf where local: "has_local_file (ci_fileid c) (tf_relativepath (tfi_file info))
      (tf_filename (tfi_file info)) (ji_localFileInfo (jobInfo j1)) = (has, lf)" by fastforce
  define j2 where "j2 = set_jobInfo ((jobInfo j1)\<lparr>ji_localFileInfo := lf\<rparr>) j1"
  from assms(3) wait info local have has: "has = True"
    and start: "start_task info (get_file (ci_fileid c) lf) ?peer h (ci_chunk_num c) env1 j2
      = Some ((Ret (), j'), env')"
    by (auto simp: download_chunk_def Let_def j2_def split: if_splits)
  have "sound [chunk_id c] j2"
    using j1(1) by (rule sound_same_chunks) (use j1(1) has_local_file_files [OF local] has_local_file_places [OF local] in \<open>auto simp: j2_def sound_def\<close>)
  then have "sound [(tfi_fileid info, ci_chunk_num c)] j2" by (simp add: chunk_id_def info(2))
  moreover have "h < length (lm_socks (jb_sockManager j2))" using j1(2) by (simp add: j2_def)
  moreover have "\<forall>f \<in> set env1. harmless f" using assms(2) j1(3) by blast
  ultimately have "sound [] j' \<and> set env' \<subseteq> set env1"
    using sound_start_task start info(3) has_local_file_get local has by metis
  with j1(3) show ?thesis by blast
qed

lemma sound_round:
  assumes "sound [] j" and "\<forall>f \<in> set env. harmless f"
    and "job_round ap env j = Some ((Ret e, j'), env')"
  shows "sound [] j' \<and> set env' \<subseteq> set env \<and>
    (e = Leave \<longrightarrow> is_job_removed (ji_downloadInfo (jobInfo j')) \<or> cs_queue (jb_cs j') = [])"
proof (cases "is_job_removed (ji_downloadInfo (jobInfo j)) \<or> is_stopped (ji_downloadInfo (jobInfo j)) \<or>
    is_download_paused (ji_downloadInfo (jobInfo j))")
  case True
  with assms show ?thesis
    by (auto simp: job_round_def harmless_def split: if_splits list.splits others.splits)
next
  case False
  obtain c cs where get: "get_chunk (jb_cs j) = (c, cs)" by fastforce
  show ?thesis
  proof (cases c)
    case None
    with get have "cs = jb_cs j" "cs_queue (jb_cs j) = []" by (auto simp: get_chunk_def split: if_splits)
    with None False get assms show ?thesis by (auto simp: job_round_def)
  next
    case (Some chunk_info)
    let ?j = "j\<lparr>jb_cs := cs\<rparr>"
    let ?found = "if ci_status chunk_info = NOOWNER
      then reinit_file_owner_info ap (ci_fileid chunk_info) ?j else (Ret (), ?j)"
    obtain r j1 where found: "?found = (r, j1)" by fastforce
    have quiet: "quiet ?j (r, j1)"
      using quiet_reinit [of ?j ap "ci_fileid chunk_info"] found by (auto split: if_splits)
    have s1: "sound [chunk_id chunk_info] j1"
      by (rule sound_quiet [OF sound_get_chunk [OF assms(1) get [unfolded Some]] quiet])
    show ?thesis
    proof (cases "length (ci_clientLists chunk_info) = 0")
      case True
      with False get Some found assms(3) have e: "e = Again" "env' = env"
        and "on_cs (report_no_owner_chunk (ci_chunk_num chunk_info) (ci_fileid chunk_info)) j1 = (Ret (), j')"
        by (auto simp: job_round_def and_then_eq_Ret split: outcome.splits)
      from sound_report [OF s1 [unfolded chunk_id_def] this(3) [unfolded report_no_owner_chunk_def [abs_def]]]
      show ?thesis using e by simp
    next
      case nonempty: False
      with False get Some found assms(3) have e: "e = Again"
        and "download_chunk chunk_info env j1 = Some ((Ret (), j'), env')"
        by (auto simp: job_round_def split: outcome.splits option.splits)
      from sound_download_chunk [OF s1 assms(2) this(2)] e show ?thesis by simp
    qed
  qed
qed

lemma sound_loop:
  "sound [] j \<Longrightarrow> \<forall>f \<in> set env. harmless f \<Longrightarrow> job_loop n ap env j = Some ((Ret (), j'), env') \<Longrightarrow>
     sound [] j' \<and> set env' \<subseteq> set env \<and>
     (is_job_removed (ji_downloadInfo (jobInfo j')) \<or> cs_queue (jb_cs j') = [])"
proof (induction n arbitrary: env j)
  case (Suc n)
  then obtain e j1 env1 where round: "job_round ap env j = Some ((Ret e, j1), env1)"
    by (auto split: option.splits prod.splits outcome.splits)
  from sound_round [OF Suc.prems(1,2) round] have s1: "sound [] j1" "set env1 \<subseteq> set env"
    "e = Leave \<longrightarrow> is_job_removed (ji_downloadInfo (jobInfo j1)) \<or> cs_queue (jb_cs j1) = []" by simp_all
  show ?case
  proof (cases e)
    case Again
    have "\<forall>f \<in> set env1. harmless f" using Suc.prems(2) s1(2) by blast
    with Suc.IH [OF s1(1)] Suc.prems(3) round Again s1(2) show ?thesis by fastforce
  next
    case Leave
    with Suc.prems(3) round s1 show ?thesis by auto
  qed
qed simp


section \<open>Lemmas: the end of a task\<close>

lemma bs_assign_length: "bs_assign b n v = Ret b' \<Longrightarrow> length b' = length b"
  by (auto simp: bs_assign_def split: if_splits)

lemma job_wf_report_success:
  assumes "job_wf (cs_jobInfo s)" and "report_success_chunk n f s = (Ret (), s')"
  shows "job_wf (cs_jobInfo s')"
proof -
  obtain b b' where b: "sm_find (bitmap_map (ji_downloadInfo (cs_jobInfo s))) f = Some (Some b)"
    and b': "bs_assign b n True = Ret b'"
    and s': "s' = set_bitmap_map (sm_set f (Some b') (bitmap_map (ji_downloadInfo (cs_jobInfo s)))) s"
    using report_success_facts [OF assms(2)] by metis
  show ?thesis
    unfolding job_wf_def
  proof
    fix c assume "c \<in> set (ji_fileidlist (cs_jobInfo s'))"
    then have "c \<in> set (ji_fileidlist (cs_jobInfo s))" by (simp add: s' set_bitmap_map_def)
    with assms(1) obtain d infos where d: "sm_find (bitmap_map (ji_downloadInfo (cs_jobInfo s))) c = Some (Some d)"
      and infos: "sm_find (ti_fileMap (ji_torrentInfo (cs_jobInfo s))) c = Some infos \<and> infos \<noteq> [] \<and>
        tfi_chunk_count (hd infos) = int (length d) \<and>
        tfi_chunk_count (hd infos) = int (length (tf_chunk (tfi_file (hd infos)))) \<and>
        sm_find (percentage_map (ji_downloadInfo (cs_jobInfo s))) c \<noteq> None"
      unfolding job_wf_def by blast
    let ?d = "if c = f then b' else d"
    have "sm_find (bitmap_map (ji_downloadInfo (cs_jobInfo s'))) c = Some (Some ?d)"
      using d by (simp add: s' set_bitmap_map_def sm.find_set)
    moreover have "length ?d = length d" using b d bs_assign_length [OF b'] by auto
    ultimately show "\<exists>b infos. sm_find (bitmap_map (ji_downloadInfo (cs_jobInfo s'))) c = Some (Some b) \<and>
        sm_find (ti_fileMap (ji_torrentInfo (cs_jobInfo s'))) c = Some infos \<and> infos \<noteq> [] \<and>
        tfi_chunk_count (hd infos) = int (length b) \<and>
        tfi_chunk_count (hd infos) = int (length (tf_chunk (tfi_file (hd infos)))) \<and>
        sm_find (percentage_map (ji_downloadInfo (cs_jobInfo s'))) c \<noteq> None"
      using infos by (intro exI [of _ ?d] exI [of _ infos]) (simp add: s' set_bitmap_map_def)
  qed
qed

lemma sound_success:
  assumes "sound hand j" and "t \<in> set (jb_tasks j)"
    and "report_success_chunk (dt_chunk_pos t) (tfi_fileid (dt_fileInfo t)) (jb_cs j) = (Ret (), cs)"
  shows "sound hand (j\<lparr>jb_cs := cs, jb_tasks := remove1 t (jb_tasks j)\<rparr>)"
proof -
  let ?i = "task_id t"
  let ?j = "j\<lparr>jb_cs := cs, jb_tasks := remove1 t (jb_tasks j)\<rparr>"
  have i: "?i \<in> open_set j" using assms(1,2) unfolding sound_def accounting_iff by auto
  obtain bm where cs: "cs = set_bitmap_map bm (jb_cs j)"
    and missing: "set (missing_chunks (cs_jobInfo cs) (fst ?i)) = set (missing_chunks (jobInfo j) (fst ?i)) - {snd ?i}"
      "\<forall>g. g \<noteq> fst ?i \<longrightarrow> missing_chunks (cs_jobInfo cs) g = missing_chunks (jobInfo j) g"
    by (rule report_success_facts [OF assms(3)]) (auto simp: task_id_def)
  have same: "ji_fileidlist (cs_jobInfo cs) = ji_fileidlist (jobInfo j)"
      "ji_torrentInfo (cs_jobInfo cs) = ji_torrentInfo (jobInfo j)" "cs_queue cs = cs_queue (jb_cs j)"
    by (simp_all add: cs set_bitmap_map_def)
  have "x \<in> open_set ?j \<longleftrightarrow> x \<in> open_set j - {?i}" for x
    using missing same(1) by (cases x; cases "fst x = fst ?i") (auto simp: open_set_def prod_eq_iff)
  then have open': "open_set ?j = open_set j - {?i}" by blast
  have "mset_set (open_set j) = add_mset ?i (mset_set (open_set ?j))"
    unfolding open' by (rule mset_set.remove [OF finite_open_set i])
  moreover have "mset (map task_id (jb_tasks j)) = add_mset ?i (mset (map task_id (remove1 t (jb_tasks j))))"
    using assms(2) by (simp add: image_mset_Diff)
  ultimately have "accounting hand ?j"
    using assms(1) by (simp add: sound_def accounting_def same(3))
  then show ?thesis
    using assms(1) job_wf_report_success [OF _ assms(3)] same(2) by (simp add: sound_def)
qed

lemma return_sock_socks: "lm_socks (snd (return_sock c h m)) = lm_socks m"
  by (auto simp: return_sock_def Let_def split: option.splits outcome.splits)

lemma pool_good_return: "pool_good m \<Longrightarrow> pool_good (snd (return_sock c (Some h) m))"
  by (simp add: pool_good_def pool_good_calls)

lemma sound_task_end:
  assumes "sound hand j" and "t \<in> set (jb_tasks j)" and "\<not> dt_reported t"
    and "task_end failed t j = (Ret (), j')"
  shows "sound hand j' \<and> lm_socks (jb_sockManager j') = lm_socks (jb_sockManager j)"
proof -
  let ?f = "tfi_fileid (dt_fileInfo t)" and ?n = "dt_chunk_pos t"
  obtain j1 where ended: "sound hand j1" "jb_sockManager j1 = jb_sockManager j"
    and put: "on_sm (return_sock (dt_clientid t) (Some (dt_sock t))) j1 = (Ret (), j')"
  proof (cases failed)
    case False
    with assms(3,4) obtain cs where report: "report_success_chunk ?n ?f (jb_cs j) = (Ret (), cs)"
      and "on_sm (return_sock (dt_clientid t) (Some (dt_sock t)))
        (j\<lparr>jb_tasks := remove1 t (jb_tasks j), jb_cs := cs\<rparr>) = (Ret (), j')"
      by (auto simp: task_end_def onFinished_def and_then_eq_Ret on_cs_def Let_def split: prod.splits)
    moreover have "j\<lparr>jb_tasks := remove1 t (jb_tasks j), jb_cs := cs\<rparr> =
        j\<lparr>jb_cs := cs, jb_tasks := remove1 t (jb_tasks j)\<rparr>" by simp
    ultimately show ?thesis
      using that [OF sound_success [OF assms(1,2) report]] by simp
  next
    case True
    let ?j = "j\<lparr>jb_tasks := remove1 t (jb_tasks j)\<rparr>"
    have "mset ((?f, ?n) # map task_id (remove1 t (jb_tasks j))) = mset (map task_id (jb_tasks j))"
      using assms(2) by (simp add: image_mset_Diff task_id_def)
    then have start: "sound ((?f, ?n) # hand) ?j"
      using sound_move [OF assms(1), of "(?f, ?n) # hand" "cs_queue (jb_cs j)" "remove1 t (jb_tasks j)"]
      by simp
    from True assms(4) obtain j1 where
      report: "on_cs (report_failed_chunk ?n ?f) ?j = (Ret (), j1)"
      and put: "on_sm (return_sock (dt_clientid t) (Some (dt_sock t))) j1 = (Ret (), j')"
      by (auto simp: task_end_def onFailed_def onFinished_def and_then_eq_Ret Let_def)
    have "sound hand j1"
      using sound_report [OF start report [unfolded report_failed_chunk_def [abs_def]]] .
    moreover have "jb_sockManager j1 = jb_sockManager j"
      using report by (auto simp: on_cs_def split: prod.splits)
    ultimately show ?thesis using that put by blast
  qed
  from put ended(2) have "j' = j1\<lparr>jb_sockManager := snd (return_sock (dt_clientid t) (Some (dt_sock t)) (jb_sockManager j))\<rparr>"
    by (auto simp: on_sm_def split: prod.splits)
  moreover have "pool_good (jb_sockManager j)" using assms(1) by (simp add: sound_def)
  ultimately show ?thesis
    using ended by (simp add: sound_sockManager pool_good_return return_sock_socks)
qed


section \<open>Lemmas: before the loop\<close>

lemma init_chunk_ids:
  assumes "init_chunk f n s = (Ret (), s')"
  shows "\<exists>b q. sm_find (bitmap_map (ji_downloadInfo (cs_jobInfo s))) f = Some (Some b) \<and>
    0 \<le> n \<and> n < int (length b) \<and> s' = s\<lparr>cs_queue := cs_queue s @ q\<rparr> \<and>
    map chunk_id q = (if b ! nat n then [] else [(f, n)])"
proof -
  from assms obtain b where b: "sm_find (bitmap_map (ji_downloadInfo (cs_jobInfo s))) f = Some (Some b)"
    by (auto simp: init_chunk_def sm_get_def Let_def split: option.splits)
  with assms have n: "0 \<le> n" "n < int (length b)"
    by (auto simp: init_chunk_def sm_get_def bs_test_def split: if_splits)
  show ?thesis
  proof (cases "b ! nat n")
    case True
    with assms b n have "s' = s" by (simp add: init_chunk_def sm_get_def bs_test_def)
    with b n True show ?thesis by (auto intro: exI [of _ "[]"])
  next
    case False
    with assms b n obtain c where
      c: "get_priority (ji_ownerInfoMap (cs_jobInfo s)) (new_chunk_info\<lparr>ci_chunk_num := n, ci_fileid := f\<rparr>) 0 = Ret c"
      and s': "s' = s\<lparr>cs_queue := cs_queue s @ [c]\<rparr>"
      by (auto simp: init_chunk_def sm_get_def bs_test_def pq_push_def split: outcome.splits)
    have "chunk_id c = (f, n)"
      using c by (auto simp: get_priority_eq chunk_id_def split: option.splits if_splits)
    with b n False s' show ?thesis by (auto intro: exI [of _ "[c]"])
  qed
qed

lemma init_chunks_ids:
  "init_chunks f ns s = (Ret (), s') \<Longrightarrow>
     sm_find (bitmap_map (ji_downloadInfo (cs_jobInfo s))) f = Some (Some b) \<Longrightarrow>
     \<exists>q. s' = s\<lparr>cs_queue := cs_queue s @ q\<rparr> \<and> map chunk_id q = map (Pair f) (filter (\<lambda>n. \<not> b ! nat n) ns)"
proof (induction ns arbitrary: s)
  case (Cons n ns)
  from Cons.prems(1) obtain s1 where step: "init_chunk f n s = (Ret (), s1)"
    and rest: "init_chunks f ns s1 = (Ret (), s')" by (auto simp: and_then_eq_Ret)
  from init_chunk_ids [OF step] Cons.prems(2) obtain q1 where
    s1: "s1 = s\<lparr>cs_queue := cs_queue s @ q1\<rparr>" "map chunk_id q1 = (if b ! nat n then [] else [(f, n)])"
    by auto
  from Cons.IH [OF rest] Cons.prems(2) s1(1) obtain q2 where
    "s' = s1\<lparr>cs_queue := cs_queue s1 @ q2\<rparr>" "map chunk_id q2 = map (Pair f) (filter (\<lambda>n. \<not> b ! nat n) ns)"
    by auto
  with s1 show ?case by (intro exI [of _ "q1 @ q2"]) auto
qed simp

lemma init_files_ids:
  "init_files fs s = (Ret (), s') \<Longrightarrow> job_wf (cs_jobInfo s) \<Longrightarrow>
     set fs \<subseteq> set (ji_fileidlist (cs_jobInfo s)) \<Longrightarrow>
     \<exists>q. s' = s\<lparr>cs_queue := cs_queue s @ q\<rparr> \<and>
       map chunk_id q = concat (map (\<lambda>f. map (Pair f) (missing_chunks (cs_jobInfo s) f)) fs)"
proof (induction fs arbitrary: s)
  case (Cons f fs)
  from Cons.prems(2,3) obtain b infos where b: "sm_find (bitmap_map (ji_downloadInfo (cs_jobInfo s))) f = Some (Some b)"
    and infos: "sm_find (ti_fileMap (ji_torrentInfo (cs_jobInfo s))) f = Some infos" "infos \<noteq> []"
      "tfi_chunk_count (hd infos) = int (length b)"
    unfolding job_wf_def by fastforce
  with Cons.prems(1) obtain s1 where
    step: "init_chunks f (map int [0..<length b]) s = (Ret (), s1)" and rest: "init_files fs s1 = (Ret (), s')"
    by (auto simp: check_eq_Ret and_then_eq_Ret hd_conv_nth)
  from init_chunks_ids [OF step b] obtain q1 where
    s1: "s1 = s\<lparr>cs_queue := cs_queue s @ q1\<rparr>" "map chunk_id q1 = map (Pair f) (missing_chunks (cs_jobInfo s) f)"
    using b by (auto simp: missing_chunks_def)
  from Cons.IH [OF rest] Cons.prems(2,3) s1(1) obtain q2 where
    "s' = s1\<lparr>cs_queue := cs_queue s1 @ q2\<rparr>"
    "map chunk_id q2 = concat (map (\<lambda>f. map (Pair f) (missing_chunks (cs_jobInfo s) f)) fs)" by auto
  with s1 show ?case by (intro exI [of _ "q1 @ q2"]) auto
qed simp

lemma quiet_find_owners: "quiet j (find_owners ap fs j)"
  by (induction fs arbitrary: j) (auto intro!: quiet_and_then quiet_reinit)

definition ready :: "job \<Rightarrow> bool" where
  "ready j \<longleftrightarrow> jb_tasks j = [] \<and> job_wf (jobInfo j) \<and> file_map_named (ji_torrentInfo (jobInfo j)) \<and>
     pool_good (jb_sockManager j)"

lemma sound_start_run:
  assumes "ready j" and "job_start_run ap j = (Ret (), j')"
  shows "sound [] j'"
proof -
  from assms(2) obtain j1 where
    find: "find_owners ap (fileidlist (jb_cs j)) (j\<lparr>jb_is_running := True\<rparr>) = (Ret (), j1)"
    and init: "on_cs init_queue j1 = (Ret (), j')"
    by (auto simp: job_start_run_def and_then_eq_Ret)
  have quiet: "quiet (j\<lparr>jb_is_running := True\<rparr>) (Ret (), j1)" using quiet_find_owners find by metis
  have r1: "jb_tasks j1 = []" "job_wf (jobInfo j1)" "file_map_named (ji_torrentInfo (jobInfo j1))"
      "pool_good (jb_sockManager j1)"
    using quiet assms(1) same_chunks_wf [of "j\<lparr>jb_is_running := True\<rparr>" j1]
    by (simp_all add: quiet_def ready_def same_chunks_def)
  obtain cs where cs: "init_queue (jb_cs j1) = (Ret (), cs)" "j' = j1\<lparr>jb_cs := cs\<rparr>"
    using init by (auto simp: on_cs_def split: prod.splits)
  from init_files_ids [OF cs(1) [unfolded init_queue_def]] r1(2) obtain q where
    q: "cs = (jb_cs j1)\<lparr>cs_queue := q\<rparr>" "map chunk_id q = queue_ids (fresh_queue (jobInfo j1))"
    unfolding fresh_queue_ids by (auto simp: UniqueFileidList_def)
  have "accounting [] j'"
    unfolding accounting_iff
    using fresh_queue_distinct [of "jobInfo j1"] fresh_queue_set [of "jobInfo j1"] r1(1) cs(2) q
    by (simp add: open_set_def)
  with r1 cs(2) q show ?thesis by (simp add: sound_def)
qed


section \<open>Lemmas: copies\<close>

lemma copy_all_result:
  "copy_all src ps d = (Ret (), d') \<Longrightarrow> src \<notin> set ps \<Longrightarrow>
     (\<forall>p \<in> set ps. d_files d' p = d_files d src) \<and> (\<forall>p. p \<notin> set ps \<longrightarrow> d_files d' p = d_files d p)"
proof (induction ps arbitrary: d)
  case (Cons p ps)
  then obtain d1 where copy: "copyTo src p d = (Ret (), d1)" and rest: "copy_all src ps d1 = (Ret (), d')"
    by (auto simp: and_then_eq_Ret createDirectories_def split: if_splits)
  then have d1: "d_files d1 = (d_files d)(p := d_files d src)"
    by (auto simp: copyTo_def split: option.splits if_splits)
  from Cons.IH [OF rest] Cons.prems(2) d1 show ?case by auto
qed simp

lemma copy_same_files_result:
  "copy_same_files m d = (Ret (), d') \<Longrightarrow> distinct (concat (map snd m)) \<Longrightarrow>
     (\<forall>(f, ps) \<in> set m. \<forall>p \<in> set ps. d_files d' p = d_files d (hd ps)) \<and>
     (\<forall>p. p \<notin> set (concat (map snd m)) \<longrightarrow> d_files d' p = d_files d p)"
proof (induction m arbitrary: d)
  case (Cons x m)
  then obtain f src ps where x: "x = (f, src # ps)"
    by (cases x; cases "snd x") auto
  with Cons.prems(1) obtain d1 where copy: "copy_all src ps d = (Ret (), d1)"
    and rest: "copy_same_files m d1 = (Ret (), d')" by (auto simp: and_then_eq_Ret)
  have d1: "(\<forall>p \<in> set ps. d_files d1 p = d_files d src) \<and> (\<forall>p. p \<notin> set ps \<longrightarrow> d_files d1 p = d_files d p)"
    using copy_all_result [OF copy] Cons.prems(2) x by simp
  have IH: "(\<forall>(f, ps) \<in> set m. \<forall>p \<in> set ps. d_files d' p = d_files d1 (hd ps)) \<and>
      (\<forall>p. p \<notin> set (concat (map snd m)) \<longrightarrow> d_files d' p = d_files d1 p)"
    using Cons.IH [OF rest] Cons.prems(2) by simp
  have apart: "\<forall>p \<in> set (src # ps). p \<notin> set (concat (map snd m))"
    using Cons.prems(2) x by auto
  have "d_files d' p = d_files d src" if "p \<in> set (src # ps)" for p
    using IH apart d1 that Cons.prems(2) x by (cases "p = src") auto
  moreover have "d_files d1 (hd qs) = d_files d (hd qs)" if "(g, qs) \<in> set m" "q \<in> set qs" for g qs q
  proof -
    have "hd qs \<in> set (concat (map snd m))" using that by (cases qs) force+
    then show ?thesis using d1 apart by auto
  qed
  moreover have "d_files d1 p = d_files d p" if "p \<notin> set (concat (map snd (x # m)))" for p
    using that d1 x by simp
  ultimately show ?case using IH x by (fastforce simp del: set_concat)
qed simp

section \<open>Properties\<close>

text \<open>
  C10: the books of a job: from a well-formed job, whatever the threads around it do in its waits as
  long as they keep the books and no connection is lost, when the loop is left every chunk that is
  still missing is accounted for exactly once, in the queue or in one running task; and unless the
  job was removed the queue is empty, so each missing chunk is being fetched by exactly one task.
\<close>

theorem loop_accounts_for_chunks:
  assumes "ready j" and "\<forall>f \<in> set env. harmless f"
    and "job_start_run ap j = (Ret (), j0)" and "job_loop n ap env j0 = Some ((Ret (), j'), env')"
  shows "distinct (map chunk_id (cs_queue (jb_cs j')) @ map task_id (jb_tasks j')) \<and>
    set (map chunk_id (cs_queue (jb_cs j')) @ map task_id (jb_tasks j')) = open_set j' \<and>
    (is_job_removed (ji_downloadInfo (jobInfo j')) \<or> set (map task_id (jb_tasks j')) = open_set j')"
proof -
  from sound_loop [OF sound_start_run [OF assms(1,3)] assms(2,4)]
  have "accounting [] j'" and "is_job_removed (ji_downloadInfo (jobInfo j')) \<or> cs_queue (jb_cs j') = []"
    by (simp_all add: sound_def)
  then show ?thesis unfolding accounting_iff by auto
qed


text \<open>
  A file's bitmap survives the way to a peer: what \<open>conver_transport_format_bitmap\<close> makes of a
  \<open>FileInfo\<close> filled by \<open>convert_bitmap_to_transport_format\<close> is the bitmap, for every length.
\<close>

theorem bitmap_transport_roundtrip:
  assumes "convert_bitmap_to_transport_format (Some b) info = Ret info'"
    and "fi_filebit info = []" and "length b < 2 ^ 31"
  shows "conver_transport_format_bitmap info' = Ret b \<and> int_field (fi_filebitcount info') = int (length b)"
proof -
  have "to_i32 (int (length b)) = int (length b)" using assms(3) by simp
  with assms(1,2) show ?thesis
    by (auto simp: convert_bitmap_to_transport_format_def conver_transport_format_bitmap_def
        bs_blocks_roundtrip)
qed

text \<open>
  A pause that lasts longer than the wait kills the job: \<open>Condition::wait\<close> with a time limit
  throws when it times out, \<open>run\<close> does not catch it, and the job stays marked as running, with
  its chunks still queued, so it can never be started again.
\<close>

theorem pause_timeout_ends_run:
  assumes "is_download_paused (ji_downloadInfo (jobInfo j))"
    and "\<not> is_job_removed (ji_downloadInfo (jobInfo j))" and "\<not> is_stopped (ji_downloadInfo (jobInfo j))"
    and "jb_is_running (acts f j) = jb_is_running j" and "jb_is_running j"
  shows "\<exists>j'. job_loop (Suc n) ap (TimedOut (acts f) # env) j = Some ((Throw TimeoutException, j'), env) \<and>
    jb_is_running j'"
  using assms by (simp add: job_round_def)

text \<open>
  A task that fails after the loop was left is forgotten: its chunk goes back to the queue,
  which nobody reads any more, and \<open>run\<close> ends as if the job were finished with the chunk missing.
\<close>

theorem late_failure_is_forgotten:
  assumes "accounting [] j" and "jb_tasks j = [t]" and "\<not> dt_reported t"
    and "task_end True t j = (Ret (), j1)"
    and "job_finish [Woken (\<lambda>j. snd (task_end True t j))] j = Some ((Ret (), j'), [])"
  shows "\<not> jb_is_running j' \<and> jb_tasks j' = [] \<and>
    task_id t \<in> set (map chunk_id (cs_queue (jb_cs j'))) \<and> task_id t \<in> open_set j'"
proof -
  let ?f = "tfi_fileid (dt_fileInfo t)" and ?n = "dt_chunk_pos t"
  have i: "task_id t \<in> open_set j" using assms(1,2) unfolding accounting_iff by auto
  obtain j2 where report: "on_cs (report_failed_chunk ?n ?f) (j\<lparr>jb_tasks := []\<rparr>) = (Ret (), j2)"
    and put: "on_sm (return_sock (dt_clientid t) (Some (dt_sock t))) j2 = (Ret (), j1)"
    using assms(2,4) by (auto simp: task_end_def onFailed_def onFinished_def and_then_eq_Ret Let_def)
  obtain c where c: "chunk_id c = (?f, ?n)"
    "j2 = j\<lparr>jb_tasks := [], jb_cs := (jb_cs j)\<lparr>cs_queue := cs_queue (jb_cs j) @ [c]\<rparr>\<rparr>"
    using report report_chunk_result unfolding report_failed_chunk_def [abs_def]
    by (auto simp: on_cs_def split: prod.splits) metis
  have j1: "jb_tasks j1 = []" "jb_cs j1 = jb_cs j2"
    using put c(2) by (auto simp: on_sm_def split: prod.splits)
  have "join_all [Woken (\<lambda>j. snd (task_end True t j))] j = Some (j1, [])"
    using assms(2,4) j1(1) by (simp add: join_all.simps)
  with assms(5) have "jb_tasks j' = []" "\<not> jb_is_running j'" "jb_cs j' = jb_cs j1"
    using j1(1) by (auto simp: job_finish_def split: prod.splits outcome.splits)
  with c j1 i show ?thesis by (auto simp: task_id_def open_set_def)
qed

text \<open>
  A task that cannot be made, because the address of its socket cannot be read any more, loses
  its chunk and its socket: the exception is caught and logged, the loop goes on, and the chunk is
  in no queue and no task although it is missing.
\<close>

theorem failed_start_loses_chunk:
  assumes "accounting [] j" and "get_chunk (jb_cs j) = (Some c, cs)" and "ci_status c = FREE"
    and "\<not> is_job_removed (ji_downloadInfo (jobInfo j))" and "\<not> is_stopped (ji_downloadInfo (jobInfo j))"
    and "\<not> is_download_paused (ji_downloadInfo (jobInfo j))" and "ci_clientLists c \<noteq> []"
    and "job_round ap [] j = Some ((Ret Again, j'), [])"
    and "\<forall>h. peerAddress h (jb_sockManager j') = Throw NetException"
  shows "chunk_id c \<in> open_set j \<and> open_set j' = open_set j \<and> jb_tasks j' = jb_tasks j \<and>
    chunk_id c \<notin> set (map chunk_id (cs_queue (jb_cs j')) @ map task_id (jb_tasks j'))"
proof -
  let ?j = "j\<lparr>jb_cs := cs\<rparr>"
  from assms(2-8) have dl: "download_chunk c [] ?j = Some ((Ret (), j'), [])"
    by (auto simp: job_round_def split: option.splits outcome.splits)
  let ?peer = "choose_owner (ci_clientLists c) ?j"
  from dl obtain h m where sock: "wait_for_sock ?peer [] ?j = Some ((Ret h, ?j\<lparr>jb_sockManager := m\<rparr>), [])"
    by (auto simp: download_chunk_def Let_def wait_for_sock.simps [of _ "[]"] on_sm_def
        split: option.splits outcome.splits prod.splits)
  with dl obtain info lf where
    start: "start_task info (get_file (ci_fileid c) lf) ?peer h (ci_chunk_num c) []
      (set_jobInfo ((jobInfo ?j)\<lparr>ji_localFileInfo := lf\<rparr>) (?j\<lparr>jb_sockManager := m\<rparr>)) = Some ((Ret (), j'), [])"
    by (auto simp: download_chunk_def Let_def split: option.splits outcome.splits prod.splits if_splits)
  let ?j2 = "set_jobInfo ((jobInfo ?j)\<lparr>ji_localFileInfo := lf\<rparr>) (?j\<lparr>jb_sockManager := m\<rparr>)"
  have "jb_sockManager j' = m"
    using start by (auto simp: start_task_def wait_for_thread.simps [of "[]"] set_jobInfo_def
        split: option.splits outcome.splits exn.splits if_splits)
  with assms(9) have "peerAddress h m = Throw NetException" by simp
  then have j': "j' = ?j2"
    using start by (auto simp: start_task_def wait_for_thread.simps [of "[]"] download_task_of_def
        split: option.splits if_splits)
  have top: "pq_top (cs_queue (jb_cs j)) = Some c" and cs: "cs = (jb_cs j)\<lparr>cs_queue := pq_pop (cs_queue (jb_cs j))\<rparr>"
    using assms(2) by (auto simp: get_chunk_def split: if_splits)
  have rest: "mset (cs_queue (jb_cs j)) = add_mset c (mset (pq_pop (cs_queue (jb_cs j))))"
    by (rule pq.elems_top_pop [OF top])
  then have "mset (map chunk_id (cs_queue (jb_cs j))) =
      mset (chunk_id c # map chunk_id (pq_pop (cs_queue (jb_cs j))))" by simp
  then have "mset (map chunk_id (cs_queue (jb_cs j)) @ map task_id (jb_tasks j)) =
      mset (chunk_id c # map chunk_id (pq_pop (cs_queue (jb_cs j))) @ map task_id (jb_tasks j))" by simp
  with assms(1) have "mset (chunk_id c # map chunk_id (pq_pop (cs_queue (jb_cs j))) @ map task_id (jb_tasks j))
      = mset_set (open_set j)" by (simp add: accounting_def)
  then have "distinct (chunk_id c # map chunk_id (pq_pop (cs_queue (jb_cs j))) @ map task_id (jb_tasks j))"
    and "chunk_id c \<in> open_set j"
    unfolding mset_eq_mset_set [OF finite_open_set] by auto
  moreover have "open_set j' = open_set j"
    unfolding j' by (simp add: open_set_def set_jobInfo_def cs missing_chunks_def)
  ultimately show ?thesis unfolding j' by (simp add: set_jobInfo_def cs)
qed


text \<open>
  When \<open>run\<close> has ended, every place the torrent has a file in holds the content of the place it
  was downloaded to, where no place is listed twice; no other file has changed since the tasks
  ended.
\<close>

theorem finished_job_has_all_copies:
  assumes "job_finish env j = Some ((Ret (), j'), env')" and "jb_tasks j = []"
    and "distinct (concat (map snd (lf_same_files (ji_localFileInfo (jobInfo j)))))"
  shows "(\<forall>(f, ps) \<in> set (lf_same_files (ji_localFileInfo (jobInfo j'))). \<forall>p \<in> set ps.
      d_files (jb_disk j') p = d_files (jb_disk j) (hd ps)) \<and>
    (\<forall>p. p \<notin> set (concat (map snd (lf_same_files (ji_localFileInfo (jobInfo j'))))) \<longrightarrow>
      d_files (jb_disk j') p = d_files (jb_disk j) p) \<and> \<not> jb_is_running j'"
proof -
  have "join_all env j = Some (j, env)" using assms(2) by (simp add: join_all.simps)
  with assms(1) obtain d where
    copy: "copy_same_files (lf_same_files (ji_localFileInfo (jobInfo j))) (jb_disk j) = (Ret (), d)"
    and j': "j' = j\<lparr>jb_disk := d, jb_is_running := False\<rparr>"
    by (auto simp: job_finish_def split: prod.splits outcome.splits)
  from copy_same_files_result [OF copy assms(3)] show ?thesis unfolding j' by simp
qed


section \<open>Witnesses\<close>

text \<open>One file of one chunk, owned by a connected client.\<close>

definition small_file :: torrent_file where
  "small_file = \<lparr>tf_checksum = ''c'', tf_relativepath = ''d/'', tf_filename = ''y'', tf_size = 1,
     tf_chunk = [\<lparr>ck_checksum = ''h2'', ck_size = 1\<rparr>]\<rparr>"

definition small_info :: torrent_info where
  "small_info = torrent_info_of (demo_torrent\<lparr>to_file := [small_file]\<rparr>)"

definition small_owner :: file_owner where
  "small_owner = (file_owner_of ''A'' ''1.1.1.1'' 9025 100)\<lparr>fo_bitmap := [True]\<rparr>"

definition small_job_info :: job_info where
  "small_job_info = \<lparr>ji_fileidlist = [''c''],
     ji_localFileInfo = \<lparr>lf_top_path = ''/tmp/'', lf_files = [(''c'', ''/tmp/d/y'')],
       lf_same_files = [(''c'', [''/tmp/d/y'', ''/tmp/e/y''])]\<rparr>,
     ji_ownerInfoMap = [(''c'', [small_owner])],
     ji_downloadInfo = running_info\<lparr>percentage_map := [(''c'', 0)], bitmap_map := [(''c'', Some [False])]\<rparr>,
     ji_torrentInfo = small_info\<rparr>"

definition small_job :: job where
  "small_job = \<lparr>jb_cs = \<lparr>cs_jobInfo = small_job_info, cs_queue = []\<rparr>, jb_sockManager = demo_pool,
     jb_tasks = [], jb_is_running = False,
     jb_disk = empty_disk\<lparr>d_files := [''/tmp/d/y'' \<mapsto> [7]]\<rparr>\<rparr>"

definition small_chunk :: chunk_info where
  "small_chunk = chunk_entry [(''c'', [small_owner])] FREE 0 ''c'' 0"

definition small_task :: download_task where
  "small_task = \<lparr>dt_fileInfo = torrent_file_info_of small_file, dt_clientid = ''A'', dt_sock = 0,
     dt_chunk_pos = 0, dt_check_sum = ''h2'', dt_file = ''/tmp/d/y'', dt_reported = False\<rparr>"

lemma small_fields [simp]:
  "ji_fileidlist small_job_info = [''c'']"
  "bitmap_map (ji_downloadInfo small_job_info) = [(''c'', Some [False])]"
  "percentage_map (ji_downloadInfo small_job_info) = [(''c'', 0)]"
  "ji_ownerInfoMap small_job_info = [(''c'', [small_owner])]"
  "ji_torrentInfo small_job_info = small_info"
  "\<not> is_job_removed (ji_downloadInfo small_job_info)" "\<not> is_stopped (ji_downloadInfo small_job_info)"
  "\<not> is_download_paused (ji_downloadInfo small_job_info)"
  by (simp_all add: small_job_info_def running_info_def download_info_init_def)

lemma small_map: "ti_fileMap small_info = [(''c'', [torrent_file_info_of small_file])]"
  by (simp add: small_info_def torrent_info_of_def file_map_add_def sm_get_def small_file_def)

lemma small_wf: "job_wf small_job_info" "file_map_named small_info"
  by (simp_all add: job_wf_def small_map torrent_file_info_of_def small_file_def file_map_named_def)

lemma small_pool: "pool_good demo_pool"
  using pool_reachable_inv [OF demo_pool_reachable]
  by (simp add: pool_good_def conns_alive_def demo_pool_eq)

lemma small_ready: "ready small_job"
  by (simp add: ready_def small_job_def small_wf small_pool)

lemma small_missing: "missing_chunks small_job_info ''c'' = [0]"
  by (simp add: missing_chunks_def)

lemma small_entry:
  "get_priority [(''c'', [small_owner])] (new_chunk_info\<lparr>ci_chunk_num := 0, ci_fileid := ''c''\<rparr>) 0
     = Ret small_chunk"
  unfolding small_chunk_def by (rule get_priority_entry(1)) (auto simp: small_owner_def)

lemma small_chunk_fields [simp]:
  "ci_status small_chunk = FREE" "ci_fileid small_chunk = ''c''" "ci_chunk_num small_chunk = 0"
  "ci_clientLists small_chunk = [small_owner]" "fo_clientid small_owner = ''A''"
  by (simp_all add: small_chunk_def) (simp_all add: chunk_entry_def has_chunk_def small_owner_def
      bs_test_def file_owner_of_def Let_def)

definition started :: job where
  "started = small_job\<lparr>jb_is_running := True, jb_cs := \<lparr>cs_jobInfo = small_job_info, cs_queue = [small_chunk]\<rparr>\<rparr>"

lemma small_start: "job_start_run demo_app small_job = (Ret (), started)"
proof -
  have "init_queue \<lparr>cs_jobInfo = small_job_info, cs_queue = []\<rparr> =
      (Ret (), \<lparr>cs_jobInfo = small_job_info, cs_queue = [small_chunk]\<rparr>)"
    by (subst init_queue_run)
      (simp_all add: small_wf owners_known_def small_owner_def UniqueFileidList_def set_to_list_def
        small_missing small_chunk_def)
  then show ?thesis
    by (simp add: job_start_run_def small_job_def fileidlist_def on_cs_def started_def)
qed

definition lent_pool :: sock_manager where
  "lent_pool = demo_pool\<lparr>lm_client_sock_map := [(''A'', [(Some 0, USED)])]\<rparr>"

definition fetching :: job where
  "fetching = started\<lparr>jb_cs := \<lparr>cs_jobInfo = small_job_info, cs_queue = []\<rparr>,
     jb_sockManager := lent_pool, jb_tasks := [small_task]\<rparr>"

lemma small_lend: "get_idle_client_sock ''A'' demo_pool = (Ret (Some 0), lent_pool)"
  by (simp add: get_idle_client_sock_def demo_pool_eq lent_pool_def)

lemma small_get: "get_chunk \<lparr>cs_jobInfo = small_job_info, cs_queue = [small_chunk]\<rparr>
    = (Some small_chunk, \<lparr>cs_jobInfo = small_job_info, cs_queue = []\<rparr>)"
  by (simp add: get_chunk_def pq_pop_def)

lemma small_local:
  "has_local_file ''c'' ''d/'' ''y'' (ji_localFileInfo small_job_info) = (True, ji_localFileInfo small_job_info)"
  "get_file ''c'' (ji_localFileInfo small_job_info) = Some ''/tmp/d/y''"
  by (simp_all add: small_job_info_def has_local_file_def sm_get_def get_file_def)

definition picked :: job where
  "picked = started\<lparr>jb_cs := \<lparr>cs_jobInfo = small_job_info, cs_queue = []\<rparr>\<rparr>"

lemma small_wait:
  "wait_for_sock ''A'' env picked = Some ((Ret 0, picked\<lparr>jb_sockManager := lent_pool\<rparr>), env)"
  by (simp add: wait_for_sock.simps [of _ env] on_sm_def picked_def started_def small_job_def small_lend)

lemma small_start_task:
  "start_task (torrent_file_info_of small_file) (Some ''/tmp/d/y'') ''A'' 0 0 env
     (picked\<lparr>jb_sockManager := lent_pool\<rparr>) = Some ((Ret (), fetching), env)"
proof -
  have "download_task_of (peerAddress 0 lent_pool) (torrent_file_info_of small_file) ''A'' 0 0 ''/tmp/d/y''
      = Ret small_task"
    by (simp add: peerAddress_def lent_pool_def demo_pool_eq download_task_of_def small_task_def)
      (simp add: chunk_checksum_def chunk_get_def torrent_file_info_of_def small_file_def)
  then show ?thesis
    by (simp add: start_task_def wait_for_thread.simps [of env] pool_capacity_def picked_def started_def
        small_job_def fetching_def)
qed

lemma small_download: "download_chunk small_chunk env picked = Some ((Ret (), fetching), env)"
proof -
  let ?j = "picked\<lparr>jb_sockManager := lent_pool\<rparr>"
  have info: "get_one_file_of_same_fileid (ji_torrentInfo (jobInfo ?j)) ''c'' = Ret (torrent_file_info_of small_file)"
    by (simp add: picked_def get_one_file_of_same_fileid_def small_map)
  have names: "tf_relativepath (tfi_file (torrent_file_info_of small_file)) = ''d/''"
    "tf_filename (tfi_file (torrent_file_info_of small_file)) = ''y''"
    by (simp_all add: torrent_file_info_of_def small_file_def)
  have job: "jobInfo ?j = small_job_info" "set_jobInfo small_job_info ?j = ?j"
    by (simp_all add: picked_def set_jobInfo_def)
  have peer: "choose_owner (ci_clientLists small_chunk) picked = ''A''" by (simp add: choose_owner_def)
  show ?thesis
    unfolding download_chunk_def Let_def peer small_wait
    using info job by (simp add: names small_local small_start_task)
qed

lemma small_round: "job_round demo_app env started = Some ((Ret Again, fetching), env)"
proof -
  have cs: "jb_cs started = \<lparr>cs_jobInfo = small_job_info, cs_queue = [small_chunk]\<rparr>"
    by (simp add: started_def)
  show ?thesis
    unfolding job_round_def cs small_get Let_def prod.case option.case picked_def [symmetric]
    by (simp add: small_download)
qed

lemma small_loop: "job_loop 2 demo_app env started = Some ((Ret (), fetching), env)"
proof -
  have "job_round demo_app env fetching = Some ((Ret Leave, fetching), env)"
    by (simp add: job_round_def fetching_def started_def small_job_def get_chunk_def)
  then show ?thesis by (simp add: numeral_2_eq_2 small_round)
qed

theorem loop_accounts_for_chunks_witness:
  "job_loop 2 demo_app [] started = Some ((Ret (), fetching), []) \<and> open_set fetching = {(''c'', 0)} \<and>
   set (map task_id (jb_tasks fetching)) = open_set fetching"
proof -
  have "\<not> is_job_removed (ji_downloadInfo (jobInfo fetching))"
    by (simp add: fetching_def)
  with loop_accounts_for_chunks [OF small_ready _ small_start small_loop [of "[]"]]
  have "set (map task_id (jb_tasks fetching)) = open_set fetching" by simp
  moreover have "open_set fetching = {(''c'', 0)}"
    by (auto simp: open_set_def fetching_def small_missing)
  ultimately show ?thesis using small_loop by simp
qed

lemma fetching_sound: "sound [] fetching"
  using sound_loop [OF sound_start_run [OF small_ready small_start] _ small_loop [of "[]"]] by simp

lemma fetching_fields [simp]:
  "jb_cs fetching = \<lparr>cs_jobInfo = small_job_info, cs_queue = []\<rparr>" "jb_tasks fetching = [small_task]"
  "jb_sockManager fetching = lent_pool" "jb_is_running fetching"
  by (simp_all add: fetching_def started_def)

lemma small_task_fields [simp]:
  "tfi_fileid (dt_fileInfo small_task) = ''c''" "dt_chunk_pos small_task = 0" "dt_clientid small_task = ''A''"
  "dt_sock small_task = 0" "\<not> dt_reported small_task" "task_id small_task = (''c'', 0)"
  by (simp_all add: small_task_def task_id_def torrent_file_info_of_def small_file_def)

definition back_pool :: sock_manager where
  "back_pool = demo_pool\<lparr>lm_condition_map := [(''A'', 1)]\<rparr>"

lemma small_give_back: "return_sock ''A'' (Some 0) lent_pool = (Ret (), back_pool)"
  by (simp add: return_sock_def lent_pool_def back_pool_def demo_pool_eq)

definition ended :: job where
  "ended = fetching\<lparr>jb_tasks := [], jb_cs := set_bitmap_map [(''c'', Some [True])] (jb_cs fetching),
     jb_sockManager := back_pool\<rparr>"

lemma small_success: "task_end False small_task fetching = (Ret (), ended)"
  by (simp add: task_end_def onFinished_def on_cs_def on_sm_def report_success_chunk_def sm_get_def
      bs_assign_def set_bitmap_map_def small_give_back ended_def)


theorem bitmap_transport_roundtrip_witness:
  "\<exists>info. convert_bitmap_to_transport_format (Some [True, False, True]) empty_file_info = Ret info \<and>
     conver_transport_format_bitmap info = Ret [True, False, True]"
  using bitmap_transport_roundtrip [of "[True, False, True]" empty_file_info]
  by (simp add: convert_bitmap_to_transport_format_def empty_file_info_def)

theorem pause_timeout_ends_run_witness:
  "\<exists>j'. job_loop 1 demo_app [TimedOut id]
     (started\<lparr>jb_cs := \<lparr>cs_jobInfo = small_job_info\<lparr>ji_downloadInfo :=
        (ji_downloadInfo small_job_info)\<lparr>is_download_paused := True\<rparr>\<rparr>, cs_queue = [small_chunk]\<rparr>\<rparr>) =
     Some ((Throw TimeoutException, j'), []) \<and> jb_is_running j'"
  unfolding One_nat_def
  by (rule pause_timeout_ends_run [where f = "TimedOut id", unfolded others.sel])
    (simp_all add: started_def small_job_info_def running_info_def download_info_init_def)

definition requeued :: job where
  "requeued = fetching\<lparr>jb_tasks := [], jb_cs := \<lparr>cs_jobInfo = small_job_info,
     cs_queue = [chunk_entry [(''c'', [small_owner])] FAILED (- 10) ''c'' 0]\<rparr>, jb_sockManager := back_pool\<rparr>"

lemma small_failure: "task_end True small_task fetching = (Ret (), requeued)"
proof -
  have "get_priority [(''c'', [small_owner])]
      (new_chunk_info\<lparr>ci_status := FAILED, ci_chunk_num := 0, ci_fileid := ''c''\<rparr>) (- 10)
     = Ret (chunk_entry [(''c'', [small_owner])] FAILED (- 10) ''c'' 0)"
    by (rule get_priority_entry(2)) (auto simp: small_owner_def)
  then show ?thesis
    by (simp add: task_end_def onFailed_def onFinished_def on_cs_def on_sm_def report_failed_chunk_def
      report_chunk_def priority_consts pq_push_def small_give_back requeued_def)
qed

theorem late_failure_is_forgotten_witness:
  "\<exists>j'. job_finish [Woken (\<lambda>j. snd (task_end True small_task j))] fetching = Some ((Ret (), j'), []) \<and>
     task_id small_task \<in> open_set j'"
proof -
  let ?env = "[Woken (\<lambda>j. snd (task_end True small_task j))]"
  have "join_all ?env fetching = Some (requeued, [])"
    by (simp add: join_all.simps [of ?env] join_all.simps [of "[]"] small_failure)
       (simp add: requeued_def)
  then have "\<exists>j'. job_finish ?env fetching = Some ((Ret (), j'), [])"
    by (simp add: job_finish_def requeued_def small_job_info_def fetching_def started_def small_job_def
        copyTo_def createDirectories_def empty_disk_def)
  then obtain j' where j': "job_finish ?env fetching = Some ((Ret (), j'), [])" by blast
  from late_failure_is_forgotten [OF _ _ _ small_failure this] fetching_sound
  have "task_id small_task \<in> open_set j'" by (simp add: sound_def)
  with j' show ?thesis by blast
qed

definition lost_pool :: sock_manager where
  "lost_pool = demo_pool\<lparr>lm_socks := [\<lparr>cn_peer = ''1.1.1.1:9025'', cn_lost = True, cn_sock = demo_sock\<rparr>]\<rparr>"

definition lost_lent :: sock_manager where
  "lost_lent = lost_pool\<lparr>lm_client_sock_map := [(''A'', [(Some 0, USED)])]\<rparr>"

lemma lost_start_task:
  "start_task fi (Some path) ''A'' 0 0 [] (picked\<lparr>jb_sockManager := lost_lent\<rparr>)
     = Some ((Ret (), picked\<lparr>jb_sockManager := lost_lent\<rparr>), [])"
  by (simp add: start_task_def wait_for_thread.simps [of "[]"] pool_capacity_def picked_def started_def
      small_job_def download_task_of_def peerAddress_def lost_lent_def lost_pool_def)

lemma lost_round:
  "job_round demo_app [] (started\<lparr>jb_sockManager := lost_pool\<rparr>)
     = Some ((Ret Again, picked\<lparr>jb_sockManager := lost_lent\<rparr>), [])"
proof -
  let ?j = "picked\<lparr>jb_sockManager := lost_pool\<rparr>" and ?l = "picked\<lparr>jb_sockManager := lost_lent\<rparr>"
  have lend: "get_idle_client_sock ''A'' lost_pool = (Ret (Some 0), lost_lent)"
    by (simp add: get_idle_client_sock_def demo_pool_eq lost_pool_def lost_lent_def)
  have wait: "wait_for_sock ''A'' [] ?j = Some ((Ret 0, ?l), [])"
    by (simp add: wait_for_sock.simps [of _ "[]"] on_sm_def lend)
  have info: "get_one_file_of_same_fileid (ji_torrentInfo (jobInfo ?l)) ''c'' = Ret (torrent_file_info_of small_file)"
    by (simp add: picked_def get_one_file_of_same_fileid_def small_map)
  have names: "tf_relativepath (tfi_file (torrent_file_info_of small_file)) = ''d/''"
    "tf_filename (tfi_file (torrent_file_info_of small_file)) = ''y''"
    by (simp_all add: torrent_file_info_of_def small_file_def)
  have job: "jobInfo ?l = small_job_info" "set_jobInfo small_job_info ?l = ?l"
    by (simp_all add: picked_def set_jobInfo_def)
  have peer: "choose_owner (ci_clientLists small_chunk) ?j = ''A''" by (simp add: choose_owner_def)
  have dl: "download_chunk small_chunk [] ?j = Some ((Ret (), ?l), [])"
    unfolding download_chunk_def Let_def peer wait
    using info job by (simp add: names small_local lost_start_task)
  have cs: "jb_cs (started\<lparr>jb_sockManager := lost_pool\<rparr>) = \<lparr>cs_jobInfo = small_job_info, cs_queue = [small_chunk]\<rparr>"
    by (simp add: started_def)
  have j: "started\<lparr>jb_sockManager := lost_pool, jb_cs := \<lparr>cs_jobInfo = small_job_info, cs_queue = []\<rparr>\<rparr> = ?j"
    by (simp add: picked_def)
  show ?thesis
    unfolding job_round_def cs small_get Let_def prod.case option.case j
    by (simp add: dl)
qed

theorem failed_start_loses_chunk_witness:
  "\<exists>j'. job_round demo_app [] (started\<lparr>jb_sockManager := lost_pool\<rparr>) = Some ((Ret Again, j'), []) \<and>
     (''c'', 0) \<in> open_set j' \<and>
     (''c'', 0) \<notin> set (map chunk_id (cs_queue (jb_cs j')) @ map task_id (jb_tasks j'))"
proof -
  let ?j = "started\<lparr>jb_sockManager := lost_pool\<rparr>"
  have "accounting [] started" using sound_start_run [OF small_ready small_start] by (simp add: sound_def)
  then have "accounting [] ?j" by (simp add: accounting_def open_set_def)
  moreover have "get_chunk (jb_cs ?j) = (Some small_chunk, \<lparr>cs_jobInfo = small_job_info, cs_queue = []\<rparr>)"
    by (simp add: started_def small_get)
  moreover have "jobInfo ?j = small_job_info" by (simp add: started_def)
  moreover have "\<forall>h. peerAddress h (jb_sockManager (picked\<lparr>jb_sockManager := lost_lent\<rparr>)) = Throw NetException"
    by (simp add: peerAddress_def lost_lent_def lost_pool_def nth_Cons')
  moreover have "chunk_id small_chunk = (''c'', 0)" by (simp add: chunk_id_def)
  ultimately show ?thesis
    using failed_start_loses_chunk [OF _ _ _ _ _ _ _ lost_round] lost_round by auto
qed

theorem finished_job_has_all_copies_witness:
  "\<exists>j'. job_finish [] small_job = Some ((Ret (), j'), []) \<and>
     d_files (jb_disk j') ''/tmp/e/y'' = Some [7]"
proof -
  let ?r = "snd (fst (the (job_finish [] small_job)))"
  have fin: "job_finish [] small_job = Some ((Ret (), ?r), [])"
    by (simp add: job_finish_def join_all.simps [of "[]"] small_job_def small_job_info_def copyTo_def
        createDirectories_def empty_disk_def)
  have "lf_same_files (ji_localFileInfo (jobInfo small_job)) = [(''c'', [''/tmp/d/y'', ''/tmp/e/y''])]"
    and "d_files (jb_disk small_job) ''/tmp/d/y'' = Some [7]" and "jb_tasks small_job = []"
    by (simp_all add: small_job_def small_job_info_def)
  moreover have "jb_cs ?r = jb_cs small_job"
    by (simp add: job_finish_def join_all.simps [of "[]"] small_job_def small_job_info_def copyTo_def
        createDirectories_def empty_disk_def)
  ultimately show ?thesis
    using finished_job_has_all_copies [OF fin] fin by auto
qed

end
