(* ===== verification/Client.thy ===== *)
theory Client
  imports Job Doubles
begin

text \<open>
  \<open>client/src/client.cc\<close>: the client's table of jobs.  Its state is the table with the jobs
  removed from it, the torrent file each handle was made from, the torrent ids it has seen, the
  next handle, the handles whose \<open>run\<close> occupies a thread of the pool, the progress to report,
  the socket manager and the disk.  Every operation is one call; those of the source that hold
  \<open>mutex_\<close> are atomic there too.

  A job stands in the table as its data and whether \<open>run\<close> has set \<open>is_running_\<close>; its queue and
  its tasks are its own (theory Job).  \<open>SaveJobHistory\<close> and \<open>ReloadJobHistory\<close> write and read
  the messages of \<open>proto/job_history.proto\<close>, whose coding is protobuf's and a parameter.
\<close>

section \<open>State\<close>

record history_file =
  hf_fileid :: string
  hf_relativepath :: string
  hf_filename :: string
  hf_filebit :: "u64 list"
  hf_filebitcount :: int

record job_history_info =
  hi_torrentpath :: string
  hi_localtoppath :: string
  hi_file :: "history_file list"
  hi_uploadtotal :: int
  hi_downloadtotal :: int

text \<open>
  Protobuf for the two messages kept in files, \<open>None\<close> for a coding or parsing that fails, and
  the indeterminate counters of a new \<open>DownloadInfo\<close>.
\<close>

record file_store =
  fs_put_history :: "job_history_info list \<Rightarrow> byte list option"
  fs_get_history :: "byte list \<Rightarrow> job_history_info list option"
  fs_put_torrent :: "torrent \<Rightarrow> byte list option"
  fs_get_torrent :: "byte list \<Rightarrow> torrent option"
  fs_junk_up :: u64
  fs_junk_down :: u64

record progress_info =
  pi_tracker_address :: string
  pi_fileid :: string
  pi_percentage :: int

record client_job =
  cj_info :: job_info
  cj_is_running :: bool

record cool_client =
  cl_jobs :: "(int, client_job) smap"
  cl_removed_jobs :: "(int, client_job) smap"
  cl_torrent_path_map :: "(int, string) smap"
  cl_torrent_ids :: "string set"
  cl_job_index :: int
  cl_threads :: "int list"
  cl_progress :: "progress_info list"
  cl_sockManager :: sock_manager
  cl_disk :: disk

definition new_client :: "sock_manager \<Rightarrow> disk \<Rightarrow> cool_client" where
  "new_client sm d = \<lparr>cl_jobs = [], cl_removed_jobs = [], cl_torrent_path_map = [], cl_torrent_ids = {},
     cl_job_index = 0, cl_threads = [], cl_progress = [], cl_sockManager = sm, cl_disk = d\<rparr>"

abbreviation downloadInfo :: "client_job \<Rightarrow> download_info" where
  "downloadInfo j \<equiv> ji_downloadInfo (cj_info j)"

definition map_downloadInfo :: "(download_info \<Rightarrow> download_info) \<Rightarrow> client_job \<Rightarrow> client_job" where
  "map_downloadInfo f j = j\<lparr>cj_info := (cj_info j)\<lparr>ji_downloadInfo := f (downloadInfo j)\<rparr>\<rparr>"

definition set_job :: "int \<Rightarrow> client_job \<Rightarrow> cool_client \<Rightarrow> cool_client" where
  "set_job handle j cl = cl\<lparr>cl_jobs := sm_set handle j (cl_jobs cl)\<rparr>"

section \<open>Control of jobs\<close>

definition GetJobWithoutLock :: "int \<Rightarrow> cool_client \<Rightarrow> client_job option" where
  "GetJobWithoutLock handle cl = sm_find (cl_jobs cl) handle"

definition GetJobByHandle :: "int \<Rightarrow> cool_client \<Rightarrow> client_job option" where
  "GetJobByHandle handle cl = GetJobWithoutLock handle cl"

fun find_job_with :: "string \<Rightarrow> (int \<times> client_job) list \<Rightarrow> (int \<times> client_job) option" where
  "find_job_with fileid [] = None"
| "find_job_with fileid (p # ps) =
     (if fileid \<in> set (ji_fileidlist (cj_info (snd p))) then Some p else find_job_with fileid ps)"

text \<open>The pointer it returns is the job of the table: its handle comes along.\<close>

definition GetJobByFileid :: "string \<Rightarrow> cool_client \<Rightarrow> (int \<times> client_job) option" where
  "GetJobByFileid fileid cl = find_job_with fileid (cl_jobs cl)"

definition ResumeJobWithoutLock :: "int \<Rightarrow> cool_client \<Rightarrow> retcode \<times> cool_client" where
  "ResumeJobWithoutLock handle cl =
     (case GetJobWithoutLock handle cl of
        None \<Rightarrow> (ERROR_JOB_NOT_EXISTS, cl)
      | Some j \<Rightarrow> (ERROR_OK, set_job handle
          (map_downloadInfo (\<lambda>di. di\<lparr>is_stopped := False, is_download_paused := False\<rparr>) j) cl))"

definition ResumeJob :: "int \<Rightarrow> cool_client \<Rightarrow> retcode \<times> cool_client" where
  "ResumeJob handle cl = ResumeJobWithoutLock handle cl"

definition PauseJobWithoutLock :: "int \<Rightarrow> cool_client \<Rightarrow> retcode \<times> cool_client" where
  "PauseJobWithoutLock handle cl =
     (case GetJobWithoutLock handle cl of
        None \<Rightarrow> (ERROR_JOB_NOT_EXISTS, cl)
      | Some j \<Rightarrow> (ERROR_OK, set_job handle
          (map_downloadInfo (\<lambda>di. di\<lparr>is_download_paused := True\<rparr>) j) cl))"

definition PauseJob :: "int \<Rightarrow> cool_client \<Rightarrow> retcode \<times> cool_client" where
  "PauseJob handle cl = PauseJobWithoutLock handle cl"

definition StopJob :: "int \<Rightarrow> cool_client \<Rightarrow> retcode \<times> cool_client" where
  "StopJob handle cl =
     (case GetJobWithoutLock handle cl of
        None \<Rightarrow> (ERROR_JOB_NOT_EXISTS, cl)
      | Some j \<Rightarrow> (ERROR_OK, set_job handle (map_downloadInfo (\<lambda>di. di\<lparr>is_stopped := True\<rparr>) j) cl))"

text \<open>\<open>ThreadPool::start\<close> throws when all of the pool's threads, at most 16, are taken.\<close>

definition job_threads :: nat where
  "job_threads = 16"

definition StartJob :: "int \<Rightarrow> cool_client \<Rightarrow> (retcode, cool_client) result" where
  "StartJob handle cl =
     (let (ret, cl) = ResumeJobWithoutLock handle cl
      in if ret \<noteq> ERROR_OK then (Ret ret, cl)
         else (case GetJobWithoutLock handle cl of
             None \<Rightarrow> (Throw AssertionViolation, cl)
           | Some j \<Rightarrow>
               if cj_is_running j then (Ret ERROR_JOB_ALREADY_STARTED, cl)
               else if length (cl_threads cl) \<ge> job_threads then (Throw NoThreadAvailable, cl)
               else (Ret ERROR_OK, cl\<lparr>cl_threads := cl_threads cl @ [handle]\<rparr>)))"

definition RemoveJob :: "int \<Rightarrow> cool_client \<Rightarrow> retcode \<times> cool_client" where
  "RemoveJob handle cl =
     (case GetJobByHandle handle cl of
        None \<Rightarrow> (ERROR_JOB_NOT_EXISTS, cl)
      | Some j \<Rightarrow> (ERROR_OK, cl\<lparr>cl_jobs := sm_erase handle (cl_jobs cl),
          cl_removed_jobs := sm_set handle
            (map_downloadInfo (\<lambda>di. di\<lparr>is_job_removed := True\<rparr>) j) (cl_removed_jobs cl)\<rparr>))"

text \<open>
  What a thread does with the job it runs, in the table or removed from it: \<open>run\<close> begins, works
  on the job's data, and returns.
\<close>

definition on_job :: "int \<Rightarrow> (client_job \<Rightarrow> client_job) \<Rightarrow> cool_client \<Rightarrow> cool_client" where
  "on_job handle f cl =
     (case sm_find (cl_jobs cl) handle of
        Some j \<Rightarrow> set_job handle (f j) cl
      | None \<Rightarrow>
          (case sm_find (cl_removed_jobs cl) handle of
             Some j \<Rightarrow> cl\<lparr>cl_removed_jobs := sm_set handle (f j) (cl_removed_jobs cl)\<rparr>
           | None \<Rightarrow> cl))"

definition run_begins :: "int \<Rightarrow> cool_client \<Rightarrow> cool_client" where
  "run_begins handle cl = on_job handle (\<lambda>j. j\<lparr>cj_is_running := True\<rparr>) cl"

definition run_works :: "int \<Rightarrow> (job_info \<Rightarrow> job_info) \<Rightarrow> cool_client \<Rightarrow> cool_client" where
  "run_works handle f cl = on_job handle (\<lambda>j. j\<lparr>cj_info := f (cj_info j)\<rparr>) cl"

definition run_returns :: "int \<Rightarrow> cool_client \<Rightarrow> cool_client" where
  "run_returns handle cl =
     on_job handle (\<lambda>j. j\<lparr>cj_is_running := False\<rparr>)
       (cl\<lparr>cl_threads := remove1 handle (cl_threads cl)\<rparr>)"

section \<open>New jobs\<close>

definition HasThisTorrent :: "string \<Rightarrow> cool_client \<Rightarrow> bool" where
  "HasThisTorrent torrent_id cl \<longleftrightarrow> torrent_id \<in> cl_torrent_ids cl"

definition RegisterTorrent :: "string \<Rightarrow> cool_client \<Rightarrow> cool_client" where
  "RegisterTorrent torrent_id cl = cl\<lparr>cl_torrent_ids := insert torrent_id (cl_torrent_ids cl)\<rparr>"

definition AddNewJob :: "job_info \<Rightarrow> string \<Rightarrow> cool_client \<Rightarrow> (retcode \<times> int) \<times> cool_client" where
  "AddNewJob info torrent_path cl =
     (let this_job_index = cl_job_index cl
      in ((ERROR_OK, this_job_index),
          cl\<lparr>cl_jobs := sm_set (cl_job_index cl) \<lparr>cj_info = info, cj_is_running = False\<rparr> (cl_jobs cl),
             cl_job_index := cl_job_index cl + 1,
             cl_torrent_path_map := sm_set this_job_index torrent_path (cl_torrent_path_map cl)\<rparr>))"

definition new_job_info ::
    "file_store \<Rightarrow> torrent \<Rightarrow> string \<Rightarrow> file_identity list \<Rightarrow> cool_client \<Rightarrow> job_info \<times> cool_client" where
  "new_job_info fs t top_path needs cl =
     (let (info, d) = job_info_of (fs_junk_up fs) (fs_junk_down fs) t top_path needs (cl_disk cl)
      in (info, cl\<lparr>cl_disk := d\<rparr>))"

text \<open>The handle is the out-parameter, left alone when the torrent is there already.\<close>

definition AddNewDownloadJob ::
    "file_store \<Rightarrow> string \<Rightarrow> torrent \<Rightarrow> file_identity list \<Rightarrow> string \<Rightarrow> int \<Rightarrow> cool_client
      \<Rightarrow> (retcode \<times> int) \<times> cool_client" where
  "AddNewDownloadJob fs torrent_path t needs top_path handle cl =
     (if HasThisTorrent (to_torrentid t) cl then ((ERROR_JOB_EXISTS, handle), cl)
      else let cl = RegisterTorrent (to_torrentid t) cl;
               (info, cl) = new_job_info fs t top_path needs cl
           in AddNewJob info torrent_path cl)"

definition all_files :: "torrent \<Rightarrow> file_identity list" where
  "all_files t =
     map (\<lambda>f. \<lparr>id_relative_path = tf_relativepath f, id_filename = tf_filename f\<rparr>) (to_file t)"

text \<open>The loop over the files: each fileid is completed and published once.\<close>

fun publish_files ::
    "app \<Rightarrow> string \<Rightarrow> torrent_file list \<Rightarrow> string set \<Rightarrow> job_info \<times> sock_manager
      \<Rightarrow> (unit, job_info \<times> sock_manager) result" where
  "publish_files ap addr [] same_fileid (ji, sm) = (Ret (), (ji, sm))"
| "publish_files ap addr (f # fs) same_fileid (ji, sm) =
     (let fileid = tf_checksum f
      in if fileid \<in> same_fileid then publish_files ap addr fs same_fileid (ji, sm)
         else
           let di = ji_downloadInfo ji; (p, bm) = sm_get None fileid (bitmap_map di)
           in case p of
                None \<Rightarrow> (Throw NullPointer, (ji\<lparr>ji_downloadInfo := di\<lparr>bitmap_map := bm\<rparr>\<rparr>, sm))
              | Some b \<Rightarrow>
                  let ji = ji\<lparr>ji_downloadInfo :=
                        di\<lparr>bitmap_map := sm_set fileid (Some (bs_set_all b)) bm\<rparr>\<rparr>
                  in (case PublishResourceToTracker ap addr fileid sm of
                        (Throw e, sm) \<Rightarrow> (Throw e, (ji, sm))
                      | (Ret _, sm) \<Rightarrow> publish_files ap addr fs (insert fileid same_fileid) (ji, sm)))"

definition AddNewUploadJob ::
    "file_store \<Rightarrow> app \<Rightarrow> string \<Rightarrow> string \<Rightarrow> torrent \<Rightarrow> int \<Rightarrow> cool_client
      \<Rightarrow> (retcode \<times> int, cool_client) result" where
  "AddNewUploadJob fs ap torrent_path top_path t handle cl =
     (if HasThisTorrent (to_torrentid t) cl then (Ret (ERROR_JOB_EXISTS, handle), cl)
      else let cl = RegisterTorrent (to_torrentid t) cl;
               (info, cl) = new_job_info fs t top_path (all_files t) cl
           in (case publish_files ap (to_trackeraddress t) (to_file t) {} (info, cl_sockManager cl) of
                 (Throw e, (info, sm)) \<Rightarrow> (Throw e, cl\<lparr>cl_sockManager := sm\<rparr>)
               | (Ret _, (info, sm)) \<Rightarrow>
                   let (r, cl) = AddNewJob info torrent_path (cl\<lparr>cl_sockManager := sm\<rparr>)
                   in (Ret r, cl)))"

section \<open>Files the client keeps\<close>

text \<open>
  \<open>ofstream\<close> opened on a path: the file is empty from then on, unless the path is refused;
  \<open>ifstream\<close>: the content, if there is such a file.
\<close>

definition open_out :: "string \<Rightarrow> disk \<Rightarrow> bool \<times> disk" where
  "open_out path d =
     (if d_refused d path then (False, d) else (True, d\<lparr>d_files := (d_files d)(path \<mapsto> [])\<rparr>))"

definition open_in :: "string \<Rightarrow> disk \<Rightarrow> byte list option" where
  "open_in path d = (if d_refused d path then None else d_files d path)"

definition put_file :: "string \<Rightarrow> byte list \<Rightarrow> disk \<Rightarrow> disk" where
  "put_file path bs d = d\<lparr>d_files := (d_files d)(path \<mapsto> bs)\<rparr>"

definition ParseTorrent :: "file_store \<Rightarrow> string \<Rightarrow> disk \<Rightarrow> retcode \<times> torrent option" where
  "ParseTorrent fs path d =
     (case open_in path d of
        None \<Rightarrow> (ERROR_FILE_NOT_EXISTS, None)
      | Some bs \<Rightarrow>
          (case fs_get_torrent fs bs of
             None \<Rightarrow> (ERROR_FILE_PARSE_ERROR, None) | Some t \<Rightarrow> (ERROR_OK, Some t)))"

section \<open>The history of jobs\<close>

text \<open>The files of one fileid, all with the bitmap found for it.\<close>

definition save_file :: "string \<Rightarrow> bitset \<Rightarrow> torrent_file_info \<Rightarrow> history_file" where
  "save_file fileid b i =
     \<lparr>hf_fileid = fileid, hf_relativepath = tf_relativepath (tfi_file i),
      hf_filename = tf_filename (tfi_file i), hf_filebit = bs_to_blocks b,
      hf_filebitcount = to_i32 (int (length b))\<rparr>"

fun save_file_map ::
    "(string \<times> torrent_file_info list) list \<Rightarrow> (string, bitset option) smap
      \<Rightarrow> (history_file list, (string, bitset option) smap) result" where
  "save_file_map [] bm = (Ret [], bm)"
| "save_file_map ((fileid, infos) # m) bm =
     (let (p, bm) = sm_get None fileid bm
      in case (infos, p) of
           ([], _) \<Rightarrow> save_file_map m bm
         | (_, None) \<Rightarrow> (Throw NullPointer, bm)
         | (_, Some b) \<Rightarrow>
             (case save_file_map m bm of
                (Throw e, bm) \<Rightarrow> (Throw e, bm)
              | (Ret fs, bm) \<Rightarrow> (Ret (map (save_file fileid b) infos @ fs), bm)))"

definition save_one ::
    "(int, string) smap \<Rightarrow> int \<Rightarrow> client_job \<Rightarrow> (job_history_info, client_job) result" where
  "save_one paths handle j =
     (case sm_find paths handle of
        None \<Rightarrow> (Throw AssertionViolation, j)
      | Some torrent_path \<Rightarrow>
          let (r, bm) = save_file_map (ti_fileMap (ji_torrentInfo (cj_info j))) (bitmap_map (downloadInfo j));
              j = map_downloadInfo (\<lambda>di. di\<lparr>bitmap_map := bm\<rparr>) j
          in (map_outcome (\<lambda>files.
                \<lparr>hi_torrentpath = torrent_path,
                 hi_localtoppath = lf_top_path (ji_localFileInfo (cj_info j)), hi_file = files,
                 hi_uploadtotal = sint (upload_total (downloadInfo j)),
                 hi_downloadtotal = sint (download_total (downloadInfo j))\<rparr>) r, j))"

fun save_jobs ::
    "(int, string) smap \<Rightarrow> (int \<times> client_job) list
      \<Rightarrow> (job_history_info list, (int \<times> client_job) list) result" where
  "save_jobs paths [] = (Ret [], [])"
| "save_jobs paths ((handle, j) # js) =
     (case save_one paths handle j of
        (Throw e, j) \<Rightarrow> (Throw e, (handle, j) # js)
      | (Ret x, j) \<Rightarrow>
          let (r, js) = save_jobs paths js
          in (map_outcome (\<lambda>xs. x # xs) r, (handle, j) # js))"

definition SaveJobHistory :: "file_store \<Rightarrow> string \<Rightarrow> cool_client \<Rightarrow> (retcode, cool_client) result" where
  "SaveJobHistory fs filename cl =
     (let (opened, d) = open_out filename (cl_disk cl)
      in if \<not> opened then (Ret ERROR_FILE_NOT_EXISTS, cl)
         else
           let (r, js) = save_jobs (cl_torrent_path_map cl) (cl_jobs cl);
               cl = cl\<lparr>cl_disk := d, cl_jobs := js\<rparr>
           in (case r of
                 Throw e \<Rightarrow> (Throw e, cl)
               | Ret history \<Rightarrow>
                   (case fs_put_history fs history of
                      None \<Rightarrow> (Ret ERROR_PROTO_SERIALIZE_ERROR, cl)
                    | Some bs \<Rightarrow> (Ret ERROR_OK, cl\<lparr>cl_disk := put_file filename bs d\<rparr>))))"

text \<open>
  The bitmaps of a reloaded job.  A negative count is converted to a huge size; the percentage is
  a quotient of integers, and undefined for a file without chunks.
\<close>

fun reload_files :: "history_file list \<Rightarrow> download_info \<Rightarrow> download_info outcome" where
  "reload_files [] di = Ret di"
| "reload_files (f # fs) di =
     (if hf_filebitcount f < 0 then Throw BadAlloc
      else if hf_filebitcount f = 0 then Throw Undefined
      else
        let b = bs_resize (nat (hf_filebitcount f)) (bs_of_blocks (hf_filebit f))
        in reload_files fs
             (di\<lparr>bitmap_map := sm_set (hf_fileid f) (Some b) (bitmap_map di),
                percentage_map := sm_set (hf_fileid f) (int (bs_count b div length b)) (percentage_map di)\<rparr>))"

definition history_needs :: "job_history_info \<Rightarrow> file_identity list" where
  "history_needs h =
     map (\<lambda>f. \<lparr>id_relative_path = hf_relativepath f, id_filename = hf_filename f\<rparr>) (hi_file h)"

definition ReloadOneJob ::
    "file_store \<Rightarrow> torrent \<Rightarrow> job_history_info \<Rightarrow> cool_client \<Rightarrow> (retcode, cool_client) result" where
  "ReloadOneJob fs t h cl =
     check (\<not> HasThisTorrent (to_torrentid t) cl) cl (
       let cl = RegisterTorrent (to_torrentid t) cl;
           (info, cl) = new_job_info fs t (hi_localtoppath h) (history_needs h) cl;
           di = (ji_downloadInfo info)
             \<lparr>upload_total := word_of_int (hi_uploadtotal h), download_total := word_of_int (hi_downloadtotal h)\<rparr>
       in (case reload_files (hi_file h) di of
             Throw e \<Rightarrow> (Throw e, cl)
           | Ret di \<Rightarrow>
               let di = di\<lparr>is_job_removed := False, is_stopped := False, is_download_paused := True\<rparr>;
                   ((ret, handle), cl) = AddNewJob (info\<lparr>ji_downloadInfo := di\<rparr>) (hi_torrentpath h) cl
               in (Ret ret, cl)))"

fun reload_jobs ::
    "file_store \<Rightarrow> job_history_info list \<Rightarrow> cool_client \<Rightarrow> (retcode, cool_client) result" where
  "reload_jobs fs [] cl = (Ret ERROR_OK, cl)"
| "reload_jobs fs (h # hs) cl =
     (case ParseTorrent fs (hi_torrentpath h) (cl_disk cl) of
        (ERROR_OK, Some t) \<Rightarrow> and_then (ReloadOneJob fs t h cl) (\<lambda>_ cl. reload_jobs fs hs cl)
      | _ \<Rightarrow> reload_jobs fs hs cl)"

definition ReloadJobHistory :: "file_store \<Rightarrow> string \<Rightarrow> cool_client \<Rightarrow> (retcode, cool_client) result" where
  "ReloadJobHistory fs filename cl =
     (case open_in filename (cl_disk cl) of
        None \<Rightarrow> (Ret ERROR_FILE_NOT_EXISTS, cl)
      | Some bs \<Rightarrow>
          (case fs_get_history fs bs of
             None \<Rightarrow> (Ret ERROR_PROTO_PARSE_ERROR, cl)
           | Some history \<Rightarrow> reload_jobs fs history cl))"

end
