(* ===== verification/Collector.thy ===== *)
theory Collector
  imports Client
begin

text \<open>
  The periodic part of \<open>client/src/client.cc\<close>: \<open>onJobInfoCollectorWakeUp\<close>, called every second by
  the collector's timer, which turns bitmaps into percentages, adds the bytes of the last second
  to the totals and gathers what is due for a report, and \<open>ReportProgressRoutine\<close>, the loop that
  sends it to the trackers; and \<open>format_speed\<close>.

  A bitmap without bits makes the percentage a conversion of \<open>0.0 / 0\<close> to \<open>int\<close>, which is
  undefined.  The counter \<open>time_to_next_report\<close> is an unbounded integer here: a C++ \<open>int\<close> would
  overflow only after 68 years of seconds.
\<close>

section \<open>onJobInfoCollectorWakeUp\<close>

fun collect_files ::
    "bool \<Rightarrow> string \<Rightarrow> (string \<times> bitset option) list \<Rightarrow> download_info
      \<Rightarrow> (progress_info list, download_info) result" where
  "collect_files need_to_report addr [] di = (Ret [], di)"
| "collect_files need_to_report addr ((fileid, p) # bm) di =
     (case p of
        None \<Rightarrow> (Throw NullPointer, di)
      | Some b \<Rightarrow>
          if length b = 0 then (Throw Undefined, di)
          else
            let percentage = double_percentage (bs_count b) (length b);
                di = di\<lparr>percentage_map := sm_set fileid percentage (percentage_map di)\<rparr>;
                (r, di) = collect_files need_to_report addr bm di
            in (map_outcome (\<lambda>xs. (if need_to_report
                  then [\<lparr>pi_tracker_address = addr, pi_fileid = fileid, pi_percentage = percentage\<rparr>]
                  else []) @ xs) r, di))"

definition collect_job :: "client_job \<Rightarrow> (progress_info list, client_job) result" where
  "collect_job j =
     (let di = downloadInfo j;
          bytes_upload = bytes_upload_this_second di;
          bytes_download = bytes_download_this_second di;
          di = di\<lparr>time_to_next_report := time_to_next_report di - 1\<rparr>;
          need_to_report = (time_to_next_report di = 0 \<and> cj_is_running j);
          di = (if need_to_report then di\<lparr>time_to_next_report := report_period\<rparr> else di)
      in (case collect_files need_to_report (tracker_address (ji_torrentInfo (cj_info j)))
            (bitmap_map di) di of
            (Throw e, di) \<Rightarrow> (Throw e, map_downloadInfo (\<lambda>_. di) j)
          | (Ret progress, di) \<Rightarrow>
              (Ret progress, map_downloadInfo (\<lambda>_. di
                 \<lparr>upload_total := upload_total di + bytes_upload,
                  download_total := download_total di + bytes_download,
                  bytes_upload_this_second := 0, bytes_download_this_second := 0\<rparr>) j)))"

fun collect_jobs :: "(int \<times> client_job) list \<Rightarrow> (progress_info list, (int \<times> client_job) list) result" where
  "collect_jobs [] = (Ret [], [])"
| "collect_jobs ((handle, j) # js) =
     (case collect_job j of
        (Throw e, j) \<Rightarrow> (Throw e, (handle, j) # js)
      | (Ret xs, j) \<Rightarrow>
          let (r, js) = collect_jobs js in (map_outcome (\<lambda>ys. xs @ ys) r, (handle, j) # js))"

definition onJobInfoCollectorWakeUp :: "cool_client \<Rightarrow> (unit, cool_client) result" where
  "onJobInfoCollectorWakeUp cl =
     (let (r, js) = collect_jobs (cl_jobs cl); cl = cl\<lparr>cl_jobs := js\<rparr>
      in (case r of
            Throw e \<Rightarrow> (Throw e, cl)
          | Ret progress_to_report \<Rightarrow>
              (Ret (), if length progress_to_report \<noteq> 0
                 then cl\<lparr>cl_progress := progress_to_report\<rparr> else cl)))"

section \<open>ReportProgressRoutine\<close>

text \<open>
  One turn of the loop, which sends what there is: \<open>exiting\<close> is \<open>exiting_\<close> at this point.  A turn
  that finds nothing to send waits, and is over when it is woken.
\<close>

datatype report_turn = Waits | Leaves | Sends

fun report_all :: "app \<Rightarrow> progress_info list \<Rightarrow> sock_manager \<Rightarrow> (unit, sock_manager) result" where
  "report_all ap [] m = (Ret (), m)"
| "report_all ap (i # xs) m =
     and_then (ReportProgress ap (pi_tracker_address i) (pi_fileid i) (pi_percentage i) m)
       (\<lambda>_ m. report_all ap xs m)"

definition report_round :: "app \<Rightarrow> bool \<Rightarrow> cool_client \<Rightarrow> (report_turn, cool_client) result" where
  "report_round ap exiting cl =
     (if length (cl_progress cl) = 0 \<and> \<not> exiting then (Ret Waits, cl)
      else if exiting then (Ret Leaves, cl)
      else
        let progress = cl_progress cl; cl = cl\<lparr>cl_progress := []\<rparr>;
            (r, m) = report_all ap progress (cl_sockManager cl)
        in (map_outcome (\<lambda>_. Sends) r, cl\<lparr>cl_sockManager := m\<rparr>))"

section \<open>format\_speed\<close>

text \<open>\<open>%.2f\<close> of a double is a parameter.\<close>

definition format_speed :: "(rat \<Rightarrow> string) \<Rightarrow> u64 \<Rightarrow> string" where
  "format_speed two_digits speed =
     (if speed > 2 ^ 20 then two_digits (fl (fl (of_nat (unat speed)) / 2 ^ 20)) @ '' MB/s''
      else if speed > 2 ^ 10 then two_digits (fl (fl (of_nat (unat speed)) / 2 ^ 10)) @ '' KB/s''
      else dec (uint speed) @ '' B/s'')"

section \<open>Lemmas: one wake-up\<close>

definition bits_known :: "(string \<times> bitset option) list \<Rightarrow> bool" where
  "bits_known bm \<longleftrightarrow> (\<forall>p \<in> set (map snd bm). \<exists>b. p = Some b \<and> b \<noteq> [])"

lemma bits_known_simps [simp]:
  "bits_known []" "bits_known ((f, p) # bm) \<longleftrightarrow> (\<exists>b. p = Some b \<and> b \<noteq> []) \<and> bits_known bm"
  by (auto simp: bits_known_def)

definition progress_of :: "string \<Rightarrow> string \<times> bitset option \<Rightarrow> progress_info" where
  "progress_of addr p = \<lparr>pi_tracker_address = addr, pi_fileid = fst p,
     pi_percentage = double_percentage (bs_count (the (snd p))) (length (the (snd p)))\<rparr>"

text \<open>A wake-up returns exactly when every bitmap is there and has a bit.\<close>

lemma collect_files_known:
  "bits_known bm \<longleftrightarrow> (\<exists>xs di'. collect_files n addr bm di = (Ret xs, di'))"
proof (induction bm arbitrary: di)
  case (Cons p bm)
  obtain f q where p: "p = (f, q)" by (cases p)
  show ?case
  proof (cases "\<exists>b. q = Some b \<and> b \<noteq> []")
    case True
    then obtain b where b: "q = Some b" "b \<noteq> []" by blast
    let ?di = "di\<lparr>percentage_map := sm_set f (double_percentage (bs_count b) (length b)) (percentage_map di)\<rparr>"
    obtain r di' where r: "collect_files n addr bm ?di = (r, di')" by fastforce
    from b r show ?thesis
      using Cons.IH [of ?di] by (auto simp: p map_outcome_eq_Ret)
  next
    case False
    then show ?thesis by (auto simp: p split: option.splits)
  qed
qed simp

lemma collect_files_result:
  assumes "collect_files n addr bm di = (Ret xs, di')" and "distinct (map fst bm)"
  shows "xs = (if n then map (progress_of addr) bm else []) \<and>
    (\<exists>m. di' = di\<lparr>percentage_map := m\<rparr>) \<and>
    (\<forall>c. sm_find (percentage_map di') c =
       (case map_of bm c of
          Some (Some b) \<Rightarrow> Some (double_percentage (bs_count b) (length b))
        | _ \<Rightarrow> sm_find (percentage_map di) c))"
  using assms
proof (induction bm arbitrary: di xs)
  case (Cons p bm)
  obtain f q where p: "p = (f, q)" by (cases p)
  have run: "collect_files n addr ((f, q) # bm) di = (Ret xs, di')"
    using Cons.prems(1) p by simp
  from run obtain b where b: "q = Some b" "b \<noteq> []"
    by (auto split: option.splits if_splits)
  let ?di = "di\<lparr>percentage_map := sm_set f (double_percentage (bs_count b) (length b)) (percentage_map di)\<rparr>"
  from run b obtain ys where rest: "collect_files n addr bm ?di = (Ret ys, di')"
    and "xs = (if n then [progress_of addr (f, Some b)] else []) @ ys"
    by (auto simp: progress_of_def map_outcome_eq_Ret Let_def split: prod.splits)
  then have xs: "xs = (if n then [progress_of addr p] else []) @ ys" using p b by simp
  have f: "map_of bm f = None" and d: "distinct (map fst bm)"
    using Cons.prems(2) p by (simp_all add: map_of_eq_None_iff)
  note IH = Cons.IH [OF rest d]
  have "xs = (if n then map (progress_of addr) (p # bm) else [])"
    unfolding xs using IH by simp
  moreover have "\<exists>m. di' = di\<lparr>percentage_map := m\<rparr>" using IH by auto
  moreover have "sm_find (percentage_map di') c = (case map_of (p # bm) c of
          Some (Some b) \<Rightarrow> Some (double_percentage (bs_count b) (length b))
        | _ \<Rightarrow> sm_find (percentage_map di) c)" for c
    using IH f b by (auto simp: p sm.find_set split: option.splits)
  ultimately show ?case by blast
next
  case Nil
  then show ?case by (auto intro: exI [of _ "percentage_map di"])
qed

definition due :: "client_job \<Rightarrow> bool" where
  "due j \<longleftrightarrow> time_to_next_report (downloadInfo j) = 1 \<and> cj_is_running j"

lemma collect_job_eq:
  "collect_job j =
     (let di = downloadInfo j
      in case collect_files (due j) (tracker_address (ji_torrentInfo (cj_info j))) (bitmap_map di)
            (di\<lparr>time_to_next_report := if due j then report_period else time_to_next_report di - 1\<rparr>) of
           (Throw e, di') \<Rightarrow> (Throw e, map_downloadInfo (\<lambda>_. di') j)
         | (Ret progress, di') \<Rightarrow>
             (Ret progress, map_downloadInfo (\<lambda>_. di'
                \<lparr>upload_total := upload_total di' + bytes_upload_this_second di,
                 download_total := download_total di' + bytes_download_this_second di,
                 bytes_upload_this_second := 0, bytes_download_this_second := 0\<rparr>) j))"
  by (cases "due j") (auto simp: collect_job_def due_def Let_def)

lemma collect_job_known:
  "bits_known (bitmap_map (downloadInfo j)) \<longleftrightarrow> (\<exists>xs j'. collect_job j = (Ret xs, j'))"
proof -
  let ?s = "(downloadInfo j)\<lparr>time_to_next_report :=
    if due j then report_period else time_to_next_report (downloadInfo j) - 1\<rparr>"
  let ?addr = "tracker_address (ji_torrentInfo (cj_info j))"
  obtain r di' where c: "collect_files (due j) ?addr (bitmap_map (downloadInfo j)) ?s = (r, di')"
    by fastforce
  from collect_files_known [of "bitmap_map (downloadInfo j)" "due j" ?addr ?s] show ?thesis
    unfolding collect_job_eq Let_def c by (cases r) auto
qed

lemma collect_jobs_find:
  assumes "collect_jobs js = (Ret xs, js')"
  shows "map fst js' = map fst js \<and>
    (\<forall>h j. sm_find js h = Some j \<longrightarrow> (\<exists>ys j'. collect_job j = (Ret ys, j') \<and>
       sm_find js' h = Some j' \<and> set ys \<subseteq> set xs))"
  using assms
proof (induction js arbitrary: xs js')
  case (Cons p js)
  obtain h j where p: "p = (h, j)" by (cases p)
  from Cons.prems obtain ys j' where one: "collect_job j = (Ret ys, j')"
    by (simp add: p split: prod.splits outcome.splits)
  from Cons.prems one obtain zs js1 where rest: "collect_jobs js = (Ret zs, js1)"
    and "xs = ys @ zs" and "js' = (h, j') # js1"
    by (auto simp: p map_outcome_def split: prod.splits outcome.splits)
  then show ?case using Cons.IH [OF rest] one by (auto simp: p) (meson le_supI2)
qed simp

text \<open>One job over one second.\<close>

lemma collect_job_result:
  assumes "collect_job j = (Ret xs, j')" and "sm_ok (bitmap_map (downloadInfo j))"
  shows "cj_is_running j' = cj_is_running j" and "bitmap_map (downloadInfo j') = bitmap_map (downloadInfo j)"
    and "xs = (if due j then map (progress_of (tracker_address (ji_torrentInfo (cj_info j))))
                 (bitmap_map (downloadInfo j)) else [])"
    and "time_to_next_report (downloadInfo j') =
      (if due j then report_period else time_to_next_report (downloadInfo j) - 1)"
    and "upload_total (downloadInfo j') =
      upload_total (downloadInfo j) + bytes_upload_this_second (downloadInfo j)"
    and "download_total (downloadInfo j') =
      download_total (downloadInfo j) + bytes_download_this_second (downloadInfo j)"
    and "bytes_upload_this_second (downloadInfo j') = 0" and "bytes_download_this_second (downloadInfo j') = 0"
    and "ji_torrentInfo (cj_info j') = ji_torrentInfo (cj_info j)"
    and "ji_fileidlist (cj_info j') = ji_fileidlist (cj_info j)"
    and "is_stopped (downloadInfo j') = is_stopped (downloadInfo j)"
    and "is_download_paused (downloadInfo j') = is_download_paused (downloadInfo j)"
    and "is_job_removed (downloadInfo j') = is_job_removed (downloadInfo j)"
    and "sm_find (percentage_map (downloadInfo j')) c =
      (case sm_find (bitmap_map (downloadInfo j)) c of
         Some (Some b) \<Rightarrow> Some (double_percentage (bs_count b) (length b))
       | _ \<Rightarrow> sm_find (percentage_map (downloadInfo j)) c)"
proof -
  let ?di = "downloadInfo j" and ?addr = "tracker_address (ji_torrentInfo (cj_info j))"
  let ?s = "?di\<lparr>time_to_next_report := if due j then report_period else time_to_next_report ?di - 1\<rparr>"
  from assms(1) obtain di' where files: "collect_files (due j) ?addr (bitmap_map ?di) ?s = (Ret xs, di')"
    and j': "j' = map_downloadInfo (\<lambda>_. di'\<lparr>upload_total := upload_total di' + bytes_upload_this_second ?di,
       download_total := download_total di' + bytes_download_this_second ?di,
       bytes_upload_this_second := 0, bytes_download_this_second := 0\<rparr>) j"
    by (auto simp: collect_job_eq Let_def split: prod.splits outcome.splits)
  note result = collect_files_result [OF files sm_ok_distinct [OF assms(2)]]
  from result have xs: "xs = (if due j then map (progress_of ?addr) (bitmap_map ?di) else [])" by blast
  from result have pct: "sm_find (percentage_map di') c = (case map_of (bitmap_map ?di) c of
          Some (Some b) \<Rightarrow> Some (double_percentage (bs_count b) (length b))
        | _ \<Rightarrow> sm_find (percentage_map ?di) c)"
    by (simp split: option.splits)
  from result obtain m where di': "di' = ?s\<lparr>percentage_map := m\<rparr>" by blast
  show "xs = (if due j then map (progress_of ?addr) (bitmap_map ?di) else [])" by (rule xs)
  show "sm_find (percentage_map (downloadInfo j')) c =
      (case sm_find (bitmap_map (downloadInfo j)) c of
         Some (Some b) \<Rightarrow> Some (double_percentage (bs_count b) (length b))
       | _ \<Rightarrow> sm_find (percentage_map (downloadInfo j)) c)"
    using pct by (simp add: j' map_downloadInfo_def sm_find_def)
  show "cj_is_running j' = cj_is_running j" "bitmap_map (downloadInfo j') = bitmap_map (downloadInfo j)"
    "time_to_next_report (downloadInfo j') =
      (if due j then report_period else time_to_next_report (downloadInfo j) - 1)"
    "upload_total (downloadInfo j') =
      upload_total (downloadInfo j) + bytes_upload_this_second (downloadInfo j)"
    "download_total (downloadInfo j') =
      download_total (downloadInfo j) + bytes_download_this_second (downloadInfo j)"
    "bytes_upload_this_second (downloadInfo j') = 0" "bytes_download_this_second (downloadInfo j') = 0"
    "ji_torrentInfo (cj_info j') = ji_torrentInfo (cj_info j)"
    "ji_fileidlist (cj_info j') = ji_fileidlist (cj_info j)"
    "is_stopped (downloadInfo j') = is_stopped (downloadInfo j)"
    "is_download_paused (downloadInfo j') = is_download_paused (downloadInfo j)"
    "is_job_removed (downloadInfo j') = is_job_removed (downloadInfo j)"
    by (simp_all add: j' di' map_downloadInfo_def)
qed

lemma collect_jobs_known:
  "(\<forall>p \<in> set js. bits_known (bitmap_map (downloadInfo (snd p)))) \<longleftrightarrow> (\<exists>xs js'. collect_jobs js = (Ret xs, js'))"
proof (induction js)
  case (Cons p js)
  obtain h j where p: "p = (h, j)" by (cases p)
  obtain r j' where one: "collect_job j = (r, j')" by fastforce
  obtain q js' where rest: "collect_jobs js = (q, js')" by fastforce
  from one collect_job_known [of j] Cons.IH rest show ?case
    by (cases r; cases q) (auto simp: p map_outcome_def)
qed simp

lemma wake_up_returns:
  assumes "\<forall>p \<in> set (cl_jobs cl). bits_known (bitmap_map (downloadInfo (snd p)))"
  obtains cl' where "onJobInfoCollectorWakeUp cl = (Ret (), cl')"
proof -
  from assms collect_jobs_known obtain xs js where "collect_jobs (cl_jobs cl) = (Ret xs, js)" by blast
  then show ?thesis using that by (simp add: onJobInfoCollectorWakeUp_def Let_def)
qed

section \<open>Properties\<close>

text \<open>
  C26: what a wake-up does to every job of the table: the percentage of each file is between 0 and
  100 and is 100 exactly when the file has all its chunks, and the bytes of the last second move
  from the per-second counters to the totals.
\<close>

theorem collector_percentages:
  assumes "onJobInfoCollectorWakeUp cl = (Ret (), cl')" and "sm_find (cl_jobs cl) h = Some j"
    and "sm_ok (bitmap_map (downloadInfo j))"
    and "sm_find (bitmap_map (downloadInfo j)) fileid = Some (Some b)" and "length b \<le> 2 ^ 46"
  shows "\<exists>j' p. sm_find (cl_jobs cl') h = Some j' \<and>
    sm_find (percentage_map (downloadInfo j')) fileid = Some p \<and> 0 \<le> p \<and> p \<le> 100 \<and>
    (p = 100 \<longleftrightarrow> (\<forall>x \<in> set b. x)) \<and>
    upload_total (downloadInfo j') =
      upload_total (downloadInfo j) + bytes_upload_this_second (downloadInfo j) \<and>
    download_total (downloadInfo j') =
      download_total (downloadInfo j) + bytes_download_this_second (downloadInfo j) \<and>
    bytes_upload_this_second (downloadInfo j') = 0 \<and> bytes_download_this_second (downloadInfo j') = 0"
proof -
  from assms(1) obtain xs js where "collect_jobs (cl_jobs cl) = (Ret xs, js)"
    and cl': "cl_jobs cl' = js"
    by (auto simp: onJobInfoCollectorWakeUp_def Let_def split: prod.splits outcome.splits if_splits)
  with collect_jobs_find assms(2) obtain ys j' where
    j': "collect_job j = (Ret ys, j')" "sm_find (cl_jobs cl') h = Some j'" by blast
  note res = collect_job_result [OF j'(1) assms(3)]
  have b: "b \<noteq> []"
    using collect_job_known [of j] j'(1) sm_find_SomeD [OF assms(4)] by (force simp: bits_known_def)
  let ?p = "double_percentage (bs_count b) (length b)"
  have "?p = 100 \<longleftrightarrow> (\<forall>x \<in> set b. x)"
    using double_percentage_complete [of "length b"] double_percentage_incomplete [OF _ assms(5), of "bs_count b"]
      b bs_count_le [of b] bs_count_full [of b] by (cases "bs_count b = length b") auto
  then show ?thesis
    using j'(2) res assms(4) double_percentage_range [OF bs_count_le, of b] b by auto
qed

text \<open>A job over the seconds of a list, which says for each whether \<open>run\<close> is active.\<close>

fun collect_seconds :: "bool list \<Rightarrow> client_job \<Rightarrow> (progress_info list list, client_job) result" where
  "collect_seconds [] j = (Ret [], j)"
| "collect_seconds (r # rs) j =
     and_then (collect_job (j\<lparr>cj_is_running := r\<rparr>)) (\<lambda>xs j.
     and_then (collect_seconds rs j) (\<lambda>xss j. (Ret (xs # xss), j)))"

lemma collect_second:
  assumes "bits_known (bitmap_map (downloadInfo j))" and "sm_ok (bitmap_map (downloadInfo j))"
  obtains j' where "collect_job (j\<lparr>cj_is_running := r\<rparr>) =
      (Ret (if time_to_next_report (downloadInfo j) = 1 \<and> r
            then map (progress_of (tracker_address (ji_torrentInfo (cj_info j)))) (bitmap_map (downloadInfo j))
            else []), j')"
    and "bitmap_map (downloadInfo j') = bitmap_map (downloadInfo j)"
    and "ji_torrentInfo (cj_info j') = ji_torrentInfo (cj_info j)"
    and "time_to_next_report (downloadInfo j') =
      (if time_to_next_report (downloadInfo j) = 1 \<and> r then report_period
       else time_to_next_report (downloadInfo j) - 1)"
proof -
  obtain xs j' where one: "collect_job (j\<lparr>cj_is_running := r\<rparr>) = (Ret xs, j')"
    using collect_job_known [of "j\<lparr>cj_is_running := r\<rparr>"] assms(1) by auto
  show ?thesis
    using that [of j'] collect_job_result [OF one] assms(2) one by (simp add: due_def)
qed

text \<open>
  C25: the schedule of reports: a job that runs all the time reports all of its files in the second
  its counter runs out and every thirty seconds from then on, and never in between.
\<close>

theorem reports_every_period:
  assumes "bits_known (bitmap_map (downloadInfo j))" and "sm_ok (bitmap_map (downloadInfo j))"
    and "1 \<le> time_to_next_report (downloadInfo j)" and "time_to_next_report (downloadInfo j) \<le> report_period"
  shows "\<exists>j'. collect_seconds (replicate n True) j =
    (Ret (map (\<lambda>i. if int (Suc i) mod report_period = time_to_next_report (downloadInfo j) mod report_period
            then map (progress_of (tracker_address (ji_torrentInfo (cj_info j)))) (bitmap_map (downloadInfo j))
            else []) [0..<n]), j')"
  using assms
proof (induction n arbitrary: j)
  case (Suc n)
  let ?T = "time_to_next_report (downloadInfo j)"
  obtain j1 where one: "collect_job (j\<lparr>cj_is_running := True\<rparr>) = (Ret (if ?T = 1
        then map (progress_of (tracker_address (ji_torrentInfo (cj_info j)))) (bitmap_map (downloadInfo j))
        else []), j1)"
    and keep: "bitmap_map (downloadInfo j1) = bitmap_map (downloadInfo j)"
      "ji_torrentInfo (cj_info j1) = ji_torrentInfo (cj_info j)"
    and time: "time_to_next_report (downloadInfo j1) = (if ?T = 1 then report_period else ?T - 1)"
    using collect_second [OF Suc.prems(1,2), of True] by auto
  have "1 \<le> time_to_next_report (downloadInfo j1)" "time_to_next_report (downloadInfo j1) \<le> report_period"
    using time Suc.prems(3,4) by (auto simp: report_period_def)
  with Suc.IH [of j1] keep Suc.prems(1,2) obtain j2 where
    rest: "collect_seconds (replicate n True) j1 =
    (Ret (map (\<lambda>i. if int (Suc i) mod report_period = time_to_next_report (downloadInfo j1) mod report_period
            then map (progress_of (tracker_address (ji_torrentInfo (cj_info j)))) (bitmap_map (downloadInfo j))
            else []) [0..<n]), j2)"
    by auto
  have step: "time_to_next_report (downloadInfo j1) = ?T - 1 \<or>
      ?T = 1 \<and> time_to_next_report (downloadInfo j1) = 30"
    using time by (simp add: report_period_def)
  have mods: "(2 + i) mod 30 = t mod 30 \<longleftrightarrow> (1 + i) mod 30 = t' mod 30"
    if "t' = t - 1 \<or> t = 1 \<and> t' = 30" for i t t' :: int
    using that unfolding mod_eq_dvd_iff by presburger
  have shift: "int (Suc (Suc i)) mod report_period = ?T mod report_period \<longleftrightarrow>
      int (Suc i) mod report_period = time_to_next_report (downloadInfo j1) mod report_period" for i
    using mods [OF step, of "int i"] by (simp add: report_period_def add.commute)
  have "(1 mod 30 = t mod 30) = (t = 1)" if "1 \<le> t" "t \<le> 30" for t :: int
    using that by (cases "t = 30") (auto simp: mod_pos_pos_trivial)
  then have first: "int (Suc 0) mod report_period = ?T mod report_period \<longleftrightarrow> ?T = 1"
    using Suc.prems(3,4) by (simp add: report_period_def)
  let ?xs = "map (progress_of (tracker_address (ji_torrentInfo (cj_info j)))) (bitmap_map (downloadInfo j))"
  have "collect_seconds (replicate (Suc n) True) j =
     (Ret ((if ?T = 1 then ?xs else []) #
        map (\<lambda>i. if int (Suc i) mod report_period = time_to_next_report (downloadInfo j1) mod report_period
          then ?xs else []) [0..<n]), j2)"
    unfolding replicate_Suc collect_seconds.simps one and_then_Ret rest ..
  moreover have "[0..<Suc n] = 0 # map Suc [0..<n]"
    by (simp add: upt_conv_Cons map_Suc_upt del: upt_Suc)
  ultimately show ?case
    by (simp only: list.map map_map o_def shift first) blast
qed simp

text \<open>
  A job that does not run in the second its counter runs out never reports again, however long
  it runs afterwards: the counter has passed zero and is only reset when a report is due.
\<close>

theorem missed_report_never_made_up:
  assumes "bits_known (bitmap_map (downloadInfo j))" and "sm_ok (bitmap_map (downloadInfo j))"
    and "time_to_next_report (downloadInfo j) \<le> 0"
  shows "\<exists>j'. collect_seconds rs j = (Ret (map (\<lambda>_. []) rs), j') \<and>
    time_to_next_report (downloadInfo j') = time_to_next_report (downloadInfo j) - int (length rs)"
  using assms
proof (induction rs arbitrary: j)
  case (Cons r rs)
  obtain j1 where one: "collect_job (j\<lparr>cj_is_running := r\<rparr>) = (Ret [], j1)"
    and keep: "bitmap_map (downloadInfo j1) = bitmap_map (downloadInfo j)"
    and time: "time_to_next_report (downloadInfo j1) = time_to_next_report (downloadInfo j) - 1"
    using collect_second [OF Cons.prems(1,2), of r] Cons.prems(3) by auto
  from Cons.IH [of j1] keep time Cons.prems obtain j2 where
    "collect_seconds rs j1 = (Ret (map (\<lambda>_. []) rs), j2)"
    "time_to_next_report (downloadInfo j2) = time_to_next_report (downloadInfo j1) - int (length rs)"
    by auto
  with one time show ?case by simp
qed simp

section \<open>Witnesses\<close>

definition table_job :: client_job where
  "table_job = \<lparr>cj_info = small_job_info, cj_is_running = False\<rparr>"

definition demo_client :: cool_client where
  "demo_client = (new_client demo_pool empty_disk)\<lparr>cl_jobs := [(0, table_job)], cl_job_index := 1,
     cl_torrent_path_map := [(0, ''/t'')]\<rparr>"

lemma table_job_fields [simp]:
  "bitmap_map (downloadInfo table_job) = [(''c'', Some [False])]"
  "time_to_next_report (downloadInfo table_job) = 30"
  "sm_ok [(''c'', Some [False])]"
  by (simp_all add: table_job_def small_job_info_def running_info_def download_info_init_def
      report_period_def sm_ok_def)

lemma demo_client_job [simp]: "cl_jobs demo_client = [(0, table_job)]"
  by (simp add: demo_client_def)

theorem collector_percentages_witness:
  "\<exists>cl' j' p. onJobInfoCollectorWakeUp demo_client = (Ret (), cl') \<and> sm_find (cl_jobs cl') 0 = Some j' \<and>
     sm_find (percentage_map (downloadInfo j')) ''c'' = Some p \<and> p < 100"
proof -
  obtain cl' where run: "onJobInfoCollectorWakeUp demo_client = (Ret (), cl')"
    by (rule wake_up_returns [of demo_client]) (simp, blast)
  from collector_percentages [OF run, of 0 table_job "''c''" "[False]"] obtain j' p where
    "sm_find (cl_jobs cl') 0 = Some j'" "sm_find (percentage_map (downloadInfo j')) ''c'' = Some p"
    "p \<le> 100" "p = 100 \<longleftrightarrow> (\<forall>x \<in> set [False]. x)" by auto
  with run show ?thesis by fastforce
qed

theorem reports_every_period_witness:
  "\<exists>xss j'. collect_seconds (replicate 30 True) table_job = (Ret xss, j') \<and>
     length (xss ! 29) = 1 \<and> xss ! 28 = []"
proof -
  have "1 \<le> time_to_next_report (downloadInfo table_job)"
    "time_to_next_report (downloadInfo table_job) \<le> report_period"
    by (simp_all add: report_period_def)
  from reports_every_period [OF _ _ this, of 30] show ?thesis
    by (auto simp: report_period_def)
qed

theorem missed_report_never_made_up_witness:
  "\<exists>j'. collect_seconds [True, True, True]
     (map_downloadInfo (\<lambda>di. di\<lparr>time_to_next_report := 0\<rparr>) table_job) = (Ret [[], [], []], j') \<and>
     time_to_next_report (downloadInfo j') = -3"
  using missed_report_never_made_up
    [of "map_downloadInfo (\<lambda>di. di\<lparr>time_to_next_report := 0\<rparr>) table_job" "[True, True, True]"]
  by (simp add: map_downloadInfo_def [of _ table_job])

end
