(* ===== verification/ClientTable.thy ===== *)
theory ClientTable
  imports Collector
begin

text \<open>
  The client's table of jobs under every sequence of its operations: the step relation of
  \<open>CoolClient\<close>, the invariant of the table, and the life of a job as an abstract state machine
  that the operations implement.
\<close>

section \<open>Steps\<close>

text \<open>
  The operations of the client with any arguments, also when they throw, the threads that run a
  job (which change its data but neither its torrent nor its flags), the collector and the reports,
  and what calls on sockets and writes to files leave behind.
\<close>

inductive client_step :: "file_store \<Rightarrow> app \<Rightarrow> cool_client \<Rightarrow> cool_client \<Rightarrow> bool" for fs ap where
  start: "client_step fs ap cl (snd (StartJob h cl))"
| stop: "client_step fs ap cl (snd (StopJob h cl))"
| pause: "client_step fs ap cl (snd (PauseJob h cl))"
| resume: "client_step fs ap cl (snd (ResumeJob h cl))"
| remove: "client_step fs ap cl (snd (RemoveJob h cl))"
| add_download: "client_step fs ap cl (snd (AddNewDownloadJob fs path t needs top_path h cl))"
| add_upload: "client_step fs ap cl (snd (AddNewUploadJob fs ap path top_path t h cl))"
| save: "client_step fs ap cl (snd (SaveJobHistory fs filename cl))"
| reload: "client_step fs ap cl (snd (ReloadJobHistory fs filename cl))"
| run_begin: "h \<in> set (cl_threads cl) \<Longrightarrow> client_step fs ap cl (run_begins h cl)"
| run_work: "(\<And>ji. ji_torrentInfo (f ji) = ji_torrentInfo ji) \<Longrightarrow>
    (\<And>ji. is_stopped (ji_downloadInfo (f ji)) = is_stopped (ji_downloadInfo ji)) \<Longrightarrow>
    (\<And>ji. is_download_paused (ji_downloadInfo (f ji)) = is_download_paused (ji_downloadInfo ji)) \<Longrightarrow>
    client_step fs ap cl (run_works h f cl)"
| run_return: "h \<in> set (cl_threads cl) \<Longrightarrow> client_step fs ap cl (run_returns h cl)"
| wake_up: "client_step fs ap cl (snd (onJobInfoCollectorWakeUp cl))"
| report: "client_step fs ap cl (snd (report_round ap exiting cl))"
| traffic: "client_step fs ap cl (cl\<lparr>cl_sockManager := m\<rparr>)"
| written: "client_step fs ap cl (cl\<lparr>cl_disk := d\<rparr>)"

section \<open>What the steps leave alone\<close>

definition view :: "client_job \<Rightarrow> string \<times> bool \<times> bool" where
  "view j = (torrentid (ji_torrentInfo (cj_info j)), is_stopped (downloadInfo j),
     is_download_paused (downloadInfo j))"

definition views :: "(int, client_job) smap \<Rightarrow> int \<Rightarrow> (string \<times> bool \<times> bool) option" where
  "views m h = map_option view (sm_find m h)"

definition same_views :: "cool_client \<Rightarrow> cool_client \<Rightarrow> bool" where
  "same_views cl cl' \<longleftrightarrow> views (cl_jobs cl') = views (cl_jobs cl) \<and>
     views (cl_removed_jobs cl') = views (cl_removed_jobs cl) \<and>
     cl_torrent_path_map cl' = cl_torrent_path_map cl \<and> cl_torrent_ids cl' = cl_torrent_ids cl \<and>
     cl_job_index cl' = cl_job_index cl \<and>
     (sm_ok (cl_jobs cl) \<longrightarrow> sm_ok (cl_jobs cl')) \<and>
     (sm_ok (cl_removed_jobs cl) \<longrightarrow> sm_ok (cl_removed_jobs cl'))"

lemma same_views_refl [simp]: "same_views cl cl"
  by (simp add: same_views_def)

lemma views_set: "views (sm_set h j m) = (views m)(h \<mapsto> view j)"
  by (auto simp: views_def sm.find_set)

lemma views_erase: "views (sm_erase h m) = (views m)(h := None)"
  by (auto simp: views_def sm.find_erase)

lemma views_set_same: "sm_find m h = Some j \<Longrightarrow> view j' = view j \<Longrightarrow> views (sm_set h j' m) = views m"
  by (auto simp: views_set views_def fun_eq_iff)

lemma on_job_same:
  assumes "\<And>j. view (f j) = view j"
  shows "same_views cl (on_job h f cl)"
  using assms by (auto simp: on_job_def same_views_def set_job_def views_set_same intro: sm.ok_set
      split: option.splits)

lemma same_views_updates [simp]:
  "same_views cl (cl\<lparr>cl_threads := ts\<rparr>) " "same_views cl (cl\<lparr>cl_progress := ps\<rparr>)"
  "same_views cl (cl\<lparr>cl_sockManager := m\<rparr>)" "same_views cl (cl\<lparr>cl_disk := d\<rparr>)"
  by (simp_all add: same_views_def)

lemma same_views_trans: "same_views a b \<Longrightarrow> same_views b c \<Longrightarrow> same_views a c"
  by (simp add: same_views_def)

text \<open>An operation that visits every job in turn.\<close>

lemma views_visited:
  assumes "list_all2 (\<lambda>p q. fst q = fst p \<and> view (snd q) = view (snd p)) js js'"
  shows "views js' = views js" and "sm_ok js \<Longrightarrow> sm_ok js'"
proof -
  have "views js' h = views js h \<and> map fst js' = map fst js" for h
    using assms by (induction rule: list_all2_induct) (auto simp: views_def sm_find_def)
  then show "views js' = views js" "sm_ok js \<Longrightarrow> sm_ok js'" by (auto simp: sm_ok_def)
qed

lemma same_views_jobs:
  "list_all2 (\<lambda>p q. fst q = fst p \<and> view (snd q) = view (snd p)) (cl_jobs cl) js \<Longrightarrow>
     same_views cl (cl\<lparr>cl_jobs := js\<rparr>)"
  by (simp add: same_views_def views_visited)

lemma visited_refl: "list_all2 (\<lambda>p q. fst q = fst p \<and> view (snd q) = view (snd p)) js js"
  by (simp add: list_all2_refl)

lemma collect_files_flags:
  "collect_files n addr bm di = (r, di') \<Longrightarrow>
     is_stopped di' = is_stopped di \<and> is_download_paused di' = is_download_paused di"
  by (induction bm arbitrary: di r di')
    (fastforce simp: Let_def split: option.splits if_splits prod.splits)+

lemma collect_job_view: "collect_job j = (r, j') \<Longrightarrow> view j' = view j"
  by (auto simp: collect_job_eq Let_def view_def map_downloadInfo_def split: prod.splits outcome.splits
      dest!: collect_files_flags)

lemma collect_jobs_visits:
  "collect_jobs js = (r, js') \<Longrightarrow>
     list_all2 (\<lambda>p q. fst q = fst p \<and> view (snd q) = view (snd p)) js js'"
proof (induction js arbitrary: r js')
  case (Cons p js)
  obtain h j where p: "p = (h, j)" by (cases p)
  obtain q j' where one: "collect_job j = (q, j')" by fastforce
  obtain q' js1 where rest: "collect_jobs js = (q', js1)" by fastforce
  from Cons.prems one rest Cons.IH [OF rest] collect_job_view [OF one] show ?case
    by (auto simp: p visited_refl split: outcome.splits)
qed simp

lemma wake_up_same: "same_views cl (snd (onJobInfoCollectorWakeUp cl))"
proof -
  obtain r js where run: "collect_jobs (cl_jobs cl) = (r, js)" by fastforce
  have "same_views cl (cl\<lparr>cl_jobs := js\<rparr>)" by (rule same_views_jobs [OF collect_jobs_visits [OF run]])
  then show ?thesis
    by (auto simp: onJobInfoCollectorWakeUp_def run Let_def intro: same_views_trans split: outcome.splits)
qed

lemma save_one_view: "save_one paths h j = (r, j') \<Longrightarrow> view j' = view j"
  by (auto simp: save_one_def view_def map_downloadInfo_def split: option.splits prod.splits)

lemma save_jobs_visits:
  "save_jobs paths js = (r, js') \<Longrightarrow>
     list_all2 (\<lambda>p q. fst q = fst p \<and> view (snd q) = view (snd p)) js js'"
proof (induction js arbitrary: r js')
  case (Cons p js)
  obtain h j where p: "p = (h, j)" by (cases p)
  obtain q j' where one: "save_one paths h j = (q, j')" by fastforce
  obtain q' js1 where rest: "save_jobs paths js = (q', js1)" by fastforce
  from Cons.prems one rest Cons.IH [OF rest] save_one_view [OF one] show ?case
    by (auto simp: p visited_refl split: outcome.splits)
qed simp

lemma save_same: "same_views cl (snd (SaveJobHistory fs filename cl))"
proof -
  obtain o' d where o': "open_out filename (cl_disk cl) = (o', d)" by fastforce
  obtain r js where run: "save_jobs (cl_torrent_path_map cl) (cl_jobs cl) = (r, js)" by fastforce
  have "same_views cl (cl\<lparr>cl_jobs := js\<rparr>)" by (rule same_views_jobs [OF save_jobs_visits [OF run]])
  then have "same_views cl (cl\<lparr>cl_disk := d', cl_jobs := js\<rparr>)" "same_views cl (cl\<lparr>cl_jobs := js, cl_disk := d'\<rparr>)" for d'
    by (simp_all add: same_views_def)
  then show ?thesis
    by (auto simp: SaveJobHistory_def o' run Let_def intro: same_views_trans split: outcome.splits option.splits)
qed

lemma report_same: "same_views cl (snd (report_round ap exiting cl))"
  by (auto simp: report_round_def same_views_def Let_def split: prod.splits)

section \<open>The invariant of the table\<close>

definition all_views :: "cool_client \<Rightarrow> int \<Rightarrow> (string \<times> bool \<times> bool) option" where
  "all_views cl h = (case views (cl_jobs cl) h of Some v \<Rightarrow> Some v | None \<Rightarrow> views (cl_removed_jobs cl) h)"

definition tids :: "cool_client \<Rightarrow> int \<Rightarrow> string option" where
  "tids cl h = map_option fst (all_views cl h)"

definition table_inv :: "cool_client \<Rightarrow> bool" where
  "table_inv cl \<longleftrightarrow> sm_ok (cl_jobs cl) \<and> sm_ok (cl_removed_jobs cl) \<and> 0 \<le> cl_job_index cl \<and>
     (\<forall>h. sm_find (cl_torrent_path_map cl) h \<noteq> None \<longleftrightarrow> 0 \<le> h \<and> h < cl_job_index cl) \<and>
     (\<forall>h. tids cl h \<noteq> None \<longleftrightarrow> 0 \<le> h \<and> h < cl_job_index cl) \<and>
     (\<forall>h. views (cl_jobs cl) h = None \<or> views (cl_removed_jobs cl) h = None) \<and>
     (\<forall>h t. tids cl h = Some t \<longrightarrow> t \<in> cl_torrent_ids cl) \<and>
     (\<forall>h h' t. tids cl h = Some t \<longrightarrow> tids cl h' = Some t \<longrightarrow> h = h')"

lemma table_inv_new: "table_inv (new_client sm d)"
  by (simp add: table_inv_def new_client_def tids_def all_views_def views_def sm.ok_empty)

lemma all_views_same: "same_views cl cl' \<Longrightarrow> all_views cl' = all_views cl"
  by (rule ext) (simp add: same_views_def all_views_def split: option.split)

lemma table_inv_same: "same_views cl cl' \<Longrightarrow> table_inv cl \<Longrightarrow> table_inv cl'"
  using all_views_same [of cl cl'] by (simp add: table_inv_def same_views_def tids_def)

lemma table_inv_flags:
  assumes "table_inv cl" and "sm_find (cl_jobs cl) h = Some j" and "fst (view j') = fst (view j)"
  shows "table_inv (set_job h j' cl)"
proof -
  have v: "views (cl_jobs cl) h = Some (view j)" using assms(2) by (simp add: views_def)
  have "tids (set_job h j' cl) = tids cl"
    using v assms(3) by (auto simp: tids_def all_views_def set_job_def views_set fun_eq_iff split: option.split)
  moreover have "views (cl_removed_jobs cl) h = None"
    using assms(1) v unfolding table_inv_def by (metis option.distinct(1))
  ultimately show ?thesis
    using assms(1) v by (auto simp: table_inv_def set_job_def views_set sm.ok_set)
qed

lemma all_views_remove:
  assumes "sm_find (cl_jobs cl) h = Some j" and "view j' = view j"
  shows "all_views (cl\<lparr>cl_jobs := sm_erase h (cl_jobs cl),
    cl_removed_jobs := sm_set h j' (cl_removed_jobs cl)\<rparr>) = all_views cl"
proof (rule ext)
  fix g
  have "views (cl_jobs cl) h = Some (view j)" using assms(1) by (simp add: views_def)
  with assms(2) show "all_views (cl\<lparr>cl_jobs := sm_erase h (cl_jobs cl),
    cl_removed_jobs := sm_set h j' (cl_removed_jobs cl)\<rparr>) g = all_views cl g"
    by (cases "g = h") (simp_all add: all_views_def views_erase views_set split: option.split)
qed

lemma view_flag_removed [simp]:
  "view (map_downloadInfo (\<lambda>di. di\<lparr>is_job_removed := b\<rparr>) j) = view j"
  by (simp add: view_def map_downloadInfo_def)

lemma table_inv_remove: "table_inv cl \<Longrightarrow> table_inv (snd (RemoveJob h cl))"
proof (cases "sm_find (cl_jobs cl) h")
  case (Some j)
  assume inv: "table_inv cl"
  let ?j = "map_downloadInfo (\<lambda>di. di\<lparr>is_job_removed := True\<rparr>) j"
  have eq: "snd (RemoveJob h cl) = cl\<lparr>cl_jobs := sm_erase h (cl_jobs cl),
      cl_removed_jobs := sm_set h ?j (cl_removed_jobs cl)\<rparr>"
    using Some by (simp add: RemoveJob_def GetJobByHandle_def GetJobWithoutLock_def)
  note all = all_views_remove [OF Some, of ?j, simplified]
  show ?thesis
    using inv unfolding eq table_inv_def tids_def all by (simp add: sm.ok_erase sm.ok_set views_erase views_set)
qed (simp add: RemoveJob_def GetJobByHandle_def GetJobWithoutLock_def)

lemma all_views_ids [simp]: "all_views (cl\<lparr>cl_torrent_ids := x\<rparr>) = all_views cl"
  by (rule ext) (simp add: all_views_def split: option.split)

lemma table_inv_register: "table_inv cl \<Longrightarrow> table_inv (RegisterTorrent t cl)"
  unfolding table_inv_def RegisterTorrent_def tids_def by auto

lemma table_inv_add:
  assumes "table_inv cl" and "torrentid (ji_torrentInfo info) \<notin> cl_torrent_ids cl"
    and "same_views (RegisterTorrent (torrentid (ji_torrentInfo info)) cl) cl1"
  shows "table_inv (snd (AddNewJob info path cl1))"
proof -
  let ?i = "cl_job_index cl" and ?j = "\<lparr>cj_info = info, cj_is_running = False\<rparr>"
  let ?t = "torrentid (ji_torrentInfo info)" and ?cl = "snd (AddNewJob info path cl1)"
  have "tids cl ?i = None" using assms(1) by (auto simp: table_inv_def)
  then have none: "views (cl_jobs cl) ?i = None" "views (cl_removed_jobs cl) ?i = None"
    by (auto simp: tids_def all_views_def split: option.splits)
  have i: "cl_job_index cl1 = ?i" using assms(3) by (simp add: same_views_def RegisterTorrent_def)
  have cl: "views (cl_jobs ?cl) = (views (cl_jobs cl))(?i \<mapsto> view ?j)"
    "views (cl_removed_jobs ?cl) = views (cl_removed_jobs cl)"
    "cl_job_index ?cl = ?i + 1" "cl_torrent_path_map ?cl = sm_set ?i path (cl_torrent_path_map cl)"
    "cl_torrent_ids ?cl = insert ?t (cl_torrent_ids cl)"
    using assms(3) by (simp_all add: AddNewJob_def RegisterTorrent_def Let_def views_set same_views_def)
  have ok: "sm_ok (cl_jobs ?cl)" "sm_ok (cl_removed_jobs ?cl)"
    using assms(1,3)
    by (auto simp: AddNewJob_def RegisterTorrent_def Let_def same_views_def table_inv_def sm.ok_set)
  have all: "tids ?cl = (tids cl)(?i \<mapsto> ?t)"
    using none by (auto simp: tids_def all_views_def cl view_def fun_eq_iff split: option.split)
  have new: "tids cl h \<noteq> Some ?t" for h
    using assms(1,2) by (auto simp: table_inv_def)
  show ?thesis
    using assms(1) none new ok unfolding table_inv_def all cl
    by (auto simp: sm.find_set split: if_splits)
qed

lemma new_job_info_facts:
  assumes "new_job_info fs t top_path needs cl = (info, cl')"
  shows "ji_torrentInfo info = torrent_info_of t" and "is_stopped (ji_downloadInfo info)"
    and "is_download_paused (ji_downloadInfo info)" and "same_views cl cl'"
proof -
  obtain d where job: "job_info_of (fs_junk_up fs) (fs_junk_down fs) t top_path needs (cl_disk cl) = (info, d)"
    and cl': "cl' = cl\<lparr>cl_disk := d\<rparr>"
    using assms by (auto simp: new_job_info_def split: prod.splits)
  from job_fold_data [OF job [unfolded job_info_of_start]] show "ji_torrentInfo info = torrent_info_of t"
    "is_stopped (ji_downloadInfo info)" "is_download_paused (ji_downloadInfo info)" by simp_all
  show "same_views cl cl'" by (simp add: cl')
qed

lemma publish_files_keeps:
  "publish_files ap addr fs same (ji, sm) = (r, (ji', sm')) \<Longrightarrow>
     ji_torrentInfo ji' = ji_torrentInfo ji \<and>
     is_stopped (ji_downloadInfo ji') = is_stopped (ji_downloadInfo ji) \<and>
     is_download_paused (ji_downloadInfo ji') = is_download_paused (ji_downloadInfo ji)"
proof (induction fs arbitrary: same ji sm)
  case (Cons f fs)
  then show ?case
    by (auto simp: Let_def split: if_splits prod.splits option.splits outcome.splits)
qed simp

lemma torrentid_of [simp]: "torrentid (torrent_info_of t) = to_torrentid t"
  by (simp add: torrentid_def torrent_info_of_def)

lemma table_inv_add_download: "table_inv cl \<Longrightarrow> table_inv (snd (AddNewDownloadJob fs path t needs top_path h cl))"
proof (cases "HasThisTorrent (to_torrentid t) cl")
  case False
  assume inv: "table_inv cl"
  obtain info cl1 where new: "new_job_info fs t top_path needs (RegisterTorrent (to_torrentid t) cl) = (info, cl1)"
    by fastforce
  have "table_inv (snd (AddNewJob info path cl1))"
    using table_inv_add [OF inv, of info cl1 path] new_job_info_facts [OF new] False
    by (simp add: HasThisTorrent_def)
  with False new show ?thesis by (simp add: AddNewDownloadJob_def Let_def)
qed (simp add: AddNewDownloadJob_def)

lemma table_inv_add_upload: "table_inv cl \<Longrightarrow> table_inv (snd (AddNewUploadJob fs ap path top_path t h cl))"
proof (cases "HasThisTorrent (to_torrentid t) cl")
  case False
  assume inv: "table_inv cl"
  let ?cl = "RegisterTorrent (to_torrentid t) cl"
  obtain info cl1 where new: "new_job_info fs t top_path (all_files t) ?cl = (info, cl1)" by fastforce
  obtain r info' sm where pub: "publish_files ap (to_trackeraddress t) (to_file t) {}
      (info, cl_sockManager cl1) = (r, (info', sm))" by (metis prod_cases3)
  have same: "same_views ?cl (cl1\<lparr>cl_sockManager := sm\<rparr>)"
    using new_job_info_facts(4) [OF new] by (auto intro: same_views_trans)
  then have "table_inv (cl1\<lparr>cl_sockManager := sm\<rparr>)"
    using table_inv_same table_inv_register [OF inv] by blast
  moreover have "table_inv (snd (AddNewJob info' path (cl1\<lparr>cl_sockManager := sm\<rparr>)))"
    using table_inv_add [OF inv _ , of info' "cl1\<lparr>cl_sockManager := sm\<rparr>" path] same False
      new_job_info_facts(1) [OF new] publish_files_keeps [OF pub]
    by (simp add: HasThisTorrent_def)
  ultimately show ?thesis
    using False new pub by (cases r) (auto simp: AddNewUploadJob_def Let_def split: prod.splits)
qed (simp add: AddNewUploadJob_def)

lemma table_inv_reload_one: "table_inv cl \<Longrightarrow> table_inv (snd (ReloadOneJob fs t hi cl))"
proof (cases "HasThisTorrent (to_torrentid t) cl")
  case False
  assume inv: "table_inv cl"
  let ?cl = "RegisterTorrent (to_torrentid t) cl"
  obtain info cl1 where new: "new_job_info fs t (hi_localtoppath hi) (history_needs hi) ?cl = (info, cl1)"
    by fastforce
  have same: "same_views ?cl cl1" by (rule new_job_info_facts(4) [OF new])
  have "table_inv (snd (AddNewJob (info\<lparr>ji_downloadInfo := di\<rparr>) path cl1))" for di path
    using table_inv_add [OF inv, of "info\<lparr>ji_downloadInfo := di\<rparr>" cl1 path] same False
      new_job_info_facts(1) [OF new] by (simp add: HasThisTorrent_def)
  moreover have "table_inv cl1" using table_inv_same [OF same table_inv_register [OF inv]] .
  ultimately show ?thesis
    using False new by (auto simp: ReloadOneJob_def Let_def split: outcome.splits prod.splits)
      (metis snd_conv)
qed (simp add: ReloadOneJob_def)

lemma table_inv_reload_jobs: "table_inv cl \<Longrightarrow> table_inv (snd (reload_jobs fs hs cl))"
proof (induction hs arbitrary: cl)
  case (Cons h hs)
  have "table_inv (snd (and_then (ReloadOneJob fs t h cl) (\<lambda>_ cl. reload_jobs fs hs cl)))" for t
    by (rule and_then_inv [where P = table_inv, OF table_inv_reload_one [OF Cons.prems] Cons.IH])
  with Cons show ?case by (auto split: prod.splits retcode.splits option.splits)
qed simp

lemma table_inv_reload: "table_inv cl \<Longrightarrow> table_inv (snd (ReloadJobHistory fs filename cl))"
  by (auto simp: ReloadJobHistory_def table_inv_reload_jobs split: option.splits)

lemma table_inv_resume: "table_inv cl \<Longrightarrow> table_inv (snd (ResumeJobWithoutLock h cl))"
  by (auto simp: ResumeJobWithoutLock_def GetJobWithoutLock_def view_def map_downloadInfo_def
      intro: table_inv_flags split: option.splits)

lemma table_inv_start: "table_inv cl \<Longrightarrow> table_inv (snd (StartJob h cl))"
  using table_inv_resume [of cl h] table_inv_same [OF same_views_updates(1)]
  by (auto simp: StartJob_def Let_def split: prod.splits option.splits)

lemma table_inv_step: "client_step fs ap cl cl' \<Longrightarrow> table_inv cl \<Longrightarrow> table_inv cl'"
proof (induction rule: client_step.induct)
  case (stop cl h)
  then show ?case
    by (auto simp: StopJob_def GetJobWithoutLock_def view_def map_downloadInfo_def
        intro: table_inv_flags split: option.splits)
next
  case (pause cl h)
  then show ?case
    by (auto simp: PauseJob_def PauseJobWithoutLock_def GetJobWithoutLock_def view_def map_downloadInfo_def
        intro: table_inv_flags split: option.splits)
next
  case (run_return h cl)
  have "same_views (cl\<lparr>cl_threads := remove1 h (cl_threads cl)\<rparr>) (run_returns h cl)"
    unfolding run_returns_def by (rule on_job_same) (simp add: view_def)
  with run_return show ?case using table_inv_same same_views_updates(1) by blast
qed (auto simp: ResumeJob_def run_begins_def run_works_def table_inv_start table_inv_resume
    table_inv_remove table_inv_add_download table_inv_add_upload table_inv_reload
    intro!: table_inv_same [OF save_same] table_inv_same [OF same_views_updates(3)]
      table_inv_same [OF same_views_updates(4)] table_inv_same [OF wake_up_same] table_inv_same [OF report_same]
      table_inv_same [OF on_job_same] simp: view_def)

lemma table_inv_reachable: "(client_step fs ap)\<^sup>*\<^sup>* (new_client sm d) cl \<Longrightarrow> table_inv cl"
  by (induction rule: rtranclp_induct) (auto intro: table_inv_new table_inv_step)

section \<open>The life of a job\<close>

text \<open>The abstract machine: what a user sees of the job behind a handle.\<close>

datatype life = Unknown | Live bool bool | Gone

definition life_of :: "cool_client \<Rightarrow> int \<Rightarrow> life" where
  "life_of cl h =
     (case views (cl_jobs cl) h of
        Some v \<Rightarrow> Live (fst (snd v)) (snd (snd v))
      | None \<Rightarrow> if views (cl_removed_jobs cl) h = None then Unknown else Gone)"

inductive life_step :: "(int \<Rightarrow> life) \<Rightarrow> (int \<Rightarrow> life) \<Rightarrow> bool" where
  create: "L h = Unknown \<Longrightarrow> life_step L (L(h := Live s True))"
| resume: "L h = Live s p \<Longrightarrow> life_step L (L(h := Live False False))"
| pause: "L h = Live s p \<Longrightarrow> life_step L (L(h := Live s True))"
| stop: "L h = Live s p \<Longrightarrow> life_step L (L(h := Live True p))"
| remove: "L h = Live s p \<Longrightarrow> life_step L (L(h := Gone))"

lemma life_of_same: "same_views cl cl' \<Longrightarrow> life_of cl' = life_of cl"
  by (rule ext) (simp add: same_views_def life_of_def split: option.split)

lemma life_of_live: "sm_find (cl_jobs cl) h = Some j \<Longrightarrow>
    life_of cl h = Live (is_stopped (downloadInfo j)) (is_download_paused (downloadInfo j))"
  by (simp add: life_of_def views_def view_def)

lemma life_of_set: "life_of (set_job h j cl) =
    (life_of cl)(h := Live (is_stopped (downloadInfo j)) (is_download_paused (downloadInfo j)))"
  by (rule ext) (auto simp: life_of_def set_job_def views_set view_def split: option.split)

lemma life_refl: "cl' = cl \<Longrightarrow> life_step\<^sup>*\<^sup>* (life_of cl) (life_of cl')"
  by simp

lemma life_resume: "life_step\<^sup>*\<^sup>* (life_of cl) (life_of (snd (ResumeJobWithoutLock h cl)))"
  by (cases "sm_find (cl_jobs cl) h")
    (auto simp: ResumeJobWithoutLock_def GetJobWithoutLock_def life_of_set map_downloadInfo_def life_of_live
      intro!: r_into_rtranclp life_step.resume)

lemma life_start: "life_step\<^sup>*\<^sup>* (life_of cl) (life_of (snd (StartJob h cl)))"
  using life_resume [of cl h] life_of_same [OF same_views_updates(1)]
  by (auto simp: StartJob_def Let_def split: prod.splits option.splits)

lemma life_pause: "life_step\<^sup>*\<^sup>* (life_of cl) (life_of (snd (PauseJob h cl)))"
  by (cases "sm_find (cl_jobs cl) h")
    (auto simp: PauseJob_def PauseJobWithoutLock_def GetJobWithoutLock_def life_of_set
      map_downloadInfo_def life_of_live intro!: r_into_rtranclp life_step.pause)

lemma life_stop: "life_step\<^sup>*\<^sup>* (life_of cl) (life_of (snd (StopJob h cl)))"
  by (cases "sm_find (cl_jobs cl) h")
    (auto simp: StopJob_def GetJobWithoutLock_def life_of_set map_downloadInfo_def life_of_live
      intro!: r_into_rtranclp life_step.stop)

lemma life_remove: "life_step\<^sup>*\<^sup>* (life_of cl) (life_of (snd (RemoveJob h cl)))"
proof (cases "sm_find (cl_jobs cl) h")
  case (Some j)
  have "life_of (snd (RemoveJob h cl)) = (life_of cl)(h := Gone)"
    by (rule ext) (simp add: RemoveJob_def GetJobByHandle_def GetJobWithoutLock_def Some life_of_def
        views_erase views_set split: option.split)
  then show ?thesis using life_step.remove [where L = "life_of cl", OF life_of_live [OF Some]] by auto
qed (simp add: RemoveJob_def GetJobByHandle_def GetJobWithoutLock_def)

lemma life_add:
  assumes "table_inv cl" and "same_views (RegisterTorrent t cl) cl1"
    and "is_download_paused (ji_downloadInfo info)"
  shows "life_step\<^sup>*\<^sup>* (life_of cl) (life_of (snd (AddNewJob info path cl1)))"
proof -
  let ?i = "cl_job_index cl"
  have "tids cl ?i = None" using assms(1) by (auto simp: table_inv_def)
  then have "life_of cl ?i = Unknown"
    by (auto simp: tids_def all_views_def life_of_def split: option.splits)
  moreover have "life_of (snd (AddNewJob info path cl1)) =
      (life_of cl)(?i := Live (is_stopped (ji_downloadInfo info)) True)"
    using assms(2,3) by (auto simp: AddNewJob_def RegisterTorrent_def Let_def life_of_def same_views_def
        views_set view_def fun_eq_iff split: option.split)
  ultimately show ?thesis using life_step.create by auto
qed

lemma life_register: "same_views (RegisterTorrent t cl) cl1 \<Longrightarrow> life_of cl1 = life_of cl"
  by (rule ext) (simp add: same_views_def RegisterTorrent_def life_of_def split: option.split)

lemma life_add_download:
  assumes "table_inv cl"
  shows "life_step\<^sup>*\<^sup>* (life_of cl) (life_of (snd (AddNewDownloadJob fs path t needs top_path h cl)))"
proof (cases "HasThisTorrent (to_torrentid t) cl")
  case False
  obtain info cl1 where new: "new_job_info fs t top_path needs (RegisterTorrent (to_torrentid t) cl) = (info, cl1)"
    by fastforce
  from life_add [OF assms, of "to_torrentid t" cl1 info path] new_job_info_facts [OF new] False new
  show ?thesis by (simp add: AddNewDownloadJob_def Let_def)
qed (simp add: AddNewDownloadJob_def)

lemma life_add_upload:
  assumes "table_inv cl"
  shows "life_step\<^sup>*\<^sup>* (life_of cl) (life_of (snd (AddNewUploadJob fs ap path top_path t h cl)))"
proof (cases "HasThisTorrent (to_torrentid t) cl")
  case False
  let ?cl = "RegisterTorrent (to_torrentid t) cl"
  obtain info cl1 where new: "new_job_info fs t top_path (all_files t) ?cl = (info, cl1)" by fastforce
  obtain r info' sm where pub: "publish_files ap (to_trackeraddress t) (to_file t) {}
      (info, cl_sockManager cl1) = (r, (info', sm))" by (metis prod_cases3)
  have same: "same_views ?cl (cl1\<lparr>cl_sockManager := sm\<rparr>)"
    using new_job_info_facts(4) [OF new] by (auto intro: same_views_trans)
  from life_add [OF assms same, of info' path] new_job_info_facts(3) [OF new] publish_files_keeps [OF pub]
    life_register [OF same] False new pub
  show ?thesis by (cases r) (auto simp: AddNewUploadJob_def Let_def split: prod.splits)
qed (simp add: AddNewUploadJob_def)

lemma life_reload_one:
  assumes "table_inv cl"
  shows "life_step\<^sup>*\<^sup>* (life_of cl) (life_of (snd (ReloadOneJob fs t hi cl)))"
proof (cases "HasThisTorrent (to_torrentid t) cl")
  case False
  let ?cl = "RegisterTorrent (to_torrentid t) cl"
  obtain info cl1 where new: "new_job_info fs t (hi_localtoppath hi) (history_needs hi) ?cl = (info, cl1)"
    by fastforce
  have same: "same_views ?cl cl1" by (rule new_job_info_facts(4) [OF new])
  have "life_step\<^sup>*\<^sup>* (life_of cl) (life_of (snd (AddNewJob (info\<lparr>ji_downloadInfo := di\<rparr>) path cl1)))"
    if "is_download_paused di" for di path
    using life_add [OF assms same, of "info\<lparr>ji_downloadInfo := di\<rparr>" path] that by simp
  from this [of "_\<lparr>is_download_paused := True\<rparr>"] life_register [OF same] False new show ?thesis
    by (auto simp: ReloadOneJob_def Let_def split_def split: outcome.splits)
qed (simp add: ReloadOneJob_def)

lemma life_reload_jobs:
  "table_inv cl \<Longrightarrow> life_step\<^sup>*\<^sup>* (life_of cl) (life_of (snd (reload_jobs fs hs cl)))"
proof (induction hs arbitrary: cl)
  case (Cons h hs)
  have "life_step\<^sup>*\<^sup>* (life_of cl)
      (life_of (snd (and_then (ReloadOneJob fs t h cl) (\<lambda>_ cl. reload_jobs fs hs cl))))" for t
  proof -
    obtain r cl1 where one: "ReloadOneJob fs t h cl = (r, cl1)" by fastforce
    have "table_inv cl1" "life_step\<^sup>*\<^sup>* (life_of cl) (life_of cl1)"
      using table_inv_reload_one [OF Cons.prems, of fs t h] life_reload_one [OF Cons.prems, of fs t h] one
      by simp_all
    with one Cons.IH [of cl1] show ?thesis by (cases r) auto
  qed
  with Cons show ?case by (auto split: prod.splits retcode.splits option.splits)
qed simp

lemma life_of_step:
  "client_step fs ap cl cl' \<Longrightarrow> table_inv cl \<Longrightarrow> life_step\<^sup>*\<^sup>* (life_of cl) (life_of cl')"
proof (induction rule: client_step.induct)
  case (run_return h cl)
  have "same_views (cl\<lparr>cl_threads := remove1 h (cl_threads cl)\<rparr>) (run_returns h cl)"
    unfolding run_returns_def by (rule on_job_same) (simp add: view_def)
  from life_of_same [OF this] life_of_same [OF same_views_updates(1)] show ?case by simp
qed (auto simp: ResumeJob_def run_begins_def run_works_def life_start life_resume life_pause life_stop
    life_remove life_add_download life_add_upload ReloadJobHistory_def life_reload_jobs
    life_of_same [OF same_views_updates(3)] life_of_same [OF same_views_updates(4)]
    life_of_same [OF save_same] life_of_same [OF wake_up_same] life_of_same [OF report_same]
    life_of_same [OF on_job_same] view_def split: option.splits)

section \<open>Properties\<close>


text \<open>
  C16: the table of jobs: in every state the client reaches, each handle given out so far belongs to
  one job, either in the table or removed, and has its torrent file recorded (what
  \<open>SaveJobHistory\<close> asserts); no handle is given out twice; and no two jobs, removed ones included,
  are of one torrent.
\<close>

theorem one_job_per_torrent:
  assumes "(client_step fs ap)\<^sup>*\<^sup>* (new_client sm d) cl"
  shows "(\<forall>h. (0 \<le> h \<and> h < cl_job_index cl) =
       (sm_find (cl_jobs cl) h \<noteq> None \<or> sm_find (cl_removed_jobs cl) h \<noteq> None)) \<and>
    (\<forall>h. sm_find (cl_jobs cl) h = None \<or> sm_find (cl_removed_jobs cl) h = None) \<and>
    (\<forall>h. 0 \<le> h \<and> h < cl_job_index cl \<longrightarrow> sm_find (cl_torrent_path_map cl) h \<noteq> None) \<and>
    (\<forall>h h' j j'. (sm_find (cl_jobs cl) h = Some j \<or> sm_find (cl_removed_jobs cl) h = Some j) \<longrightarrow>
       (sm_find (cl_jobs cl) h' = Some j' \<or> sm_find (cl_removed_jobs cl) h' = Some j') \<longrightarrow>
       torrentid (ji_torrentInfo (cj_info j)) = torrentid (ji_torrentInfo (cj_info j')) \<longrightarrow> h = h')"
proof -
  have inv: "table_inv cl" by (rule table_inv_reachable [OF assms])
  have apart: "sm_find (cl_jobs cl) h = None \<or> sm_find (cl_removed_jobs cl) h = None" for h
    using inv by (auto simp: table_inv_def views_def)
  have tid: "tids cl h = Some t \<longleftrightarrow> (\<exists>j. (sm_find (cl_jobs cl) h = Some j \<or>
      sm_find (cl_removed_jobs cl) h = Some j) \<and> t = torrentid (ji_torrentInfo (cj_info j)))" for h t
    using apart [of h] by (auto simp: tids_def all_views_def views_def view_def split: option.split)
  have known: "tids cl h \<noteq> None \<longleftrightarrow> sm_find (cl_jobs cl) h \<noteq> None \<or> sm_find (cl_removed_jobs cl) h \<noteq> None" for h
    using tid [of h] by auto
  have range: "tids cl h \<noteq> None \<longleftrightarrow> 0 \<le> h \<and> h < cl_job_index cl"
    "sm_find (cl_torrent_path_map cl) h \<noteq> None \<longleftrightarrow> 0 \<le> h \<and> h < cl_job_index cl" for h
    using inv unfolding table_inv_def by blast+
  have unique: "h = h'" if "tids cl h = Some t" "tids cl h' = Some t" for h h' t
    using inv that unfolding table_inv_def by blast
  show ?thesis
  proof (intro conjI allI impI)
    fix h
    show "(0 \<le> h \<and> h < cl_job_index cl) =
       (sm_find (cl_jobs cl) h \<noteq> None \<or> sm_find (cl_removed_jobs cl) h \<noteq> None)"
      by (simp only: known [symmetric] range(1))
    show "sm_find (cl_jobs cl) h = None \<or> sm_find (cl_removed_jobs cl) h = None" by (rule apart)
  next
    fix h
    assume "0 \<le> h \<and> h < cl_job_index cl"
    then show "sm_find (cl_torrent_path_map cl) h \<noteq> None" by (simp only: range(2))
  next
    fix h h' j j'
    assume "sm_find (cl_jobs cl) h = Some j \<or> sm_find (cl_removed_jobs cl) h = Some j"
      and "sm_find (cl_jobs cl) h' = Some j' \<or> sm_find (cl_removed_jobs cl) h' = Some j'"
      and "torrentid (ji_torrentInfo (cj_info j)) = torrentid (ji_torrentInfo (cj_info j'))"
    with tid [of h "torrentid (ji_torrentInfo (cj_info j))"] tid [of h' "torrentid (ji_torrentInfo (cj_info j))"]
    show "h = h'" by (intro unique) blast+
  qed
qed

text \<open>
  C34: \<open>StartJob\<close> tests \<open>is_running_\<close>, which \<open>run\<close> only sets when its thread comes round to it: two
  calls in a row both succeed and the job is run by two threads at once.
\<close>

theorem job_started_twice:
  assumes "StartJob h cl = (Ret ERROR_OK, cl1)" and "length (cl_threads cl) < 15"
  shows "\<exists>cl2. StartJob h cl1 = (Ret ERROR_OK, cl2) \<and> cl_threads cl2 = cl_threads cl @ [h, h]"
proof -
  obtain j where j: "sm_find (cl_jobs cl) h = Some j" "\<not> cj_is_running j"
    and cl1: "cl1 = (set_job h (map_downloadInfo (\<lambda>di. di\<lparr>is_stopped := False, is_download_paused := False\<rparr>) j) cl)
      \<lparr>cl_threads := cl_threads cl @ [h]\<rparr>"
    using assms(1) by (auto simp: StartJob_def ResumeJobWithoutLock_def GetJobWithoutLock_def Let_def
        set_job_def map_downloadInfo_def split: option.splits if_splits)
  show ?thesis
    using j(2) assms(2) unfolding cl1
    by (simp add: StartJob_def ResumeJobWithoutLock_def GetJobWithoutLock_def set_job_def
        map_downloadInfo_def job_threads_def)
qed

section \<open>Witnesses\<close>

definition small_torrent :: torrent where
  "small_torrent = demo_torrent\<lparr>to_file := [small_file]\<rparr>"

text \<open>A store that writes a history of at most one job, and knows one torrent.\<close>

definition demo_store :: file_store where
  "demo_store = \<lparr>fs_put_history = (\<lambda>hs. if hs = [] then Some [0] else None),
     fs_get_history = (\<lambda>bs. if bs = [0] then Some [] else None),
     fs_put_torrent = (\<lambda>t. if t = small_torrent then Some [1] else None),
     fs_get_torrent = (\<lambda>bs. if bs = [1] then Some small_torrent else None),
     fs_junk_up = 7, fs_junk_down = 9\<rparr>"

definition first_client :: cool_client where
  "first_client = new_client demo_pool empty_disk"

definition added_client :: cool_client where
  "added_client = snd (AddNewDownloadJob demo_store ''/t'' small_torrent (all_files small_torrent) ''/tmp/'' 0
     first_client)"

lemma added_reachable: "(client_step demo_store demo_app)\<^sup>*\<^sup>* (new_client demo_pool empty_disk) added_client"
  unfolding added_client_def first_client_def by (rule r_into_rtranclp) (rule client_step.add_download)

lemma added_job:
  obtains j where "cl_jobs added_client = [(0, j)]" and "ji_torrentInfo (cj_info j) = torrent_info_of small_torrent"
    and "is_stopped (downloadInfo j)" and "is_download_paused (downloadInfo j)" and "\<not> cj_is_running j"
    and "cl_threads added_client = []" and "cl_job_index added_client = 1" and "cl_removed_jobs added_client = []"
proof -
  obtain info cl1 where new: "new_job_info demo_store small_torrent ''/tmp/'' (all_files small_torrent)
      (RegisterTorrent (to_torrentid small_torrent) first_client) = (info, cl1)" by (rule prod.exhaust)
  have cl1: "cl_jobs cl1 = []" "cl_threads cl1 = []" "cl_job_index cl1 = 0" "cl_removed_jobs cl1 = []"
    using new by (auto simp: new_job_info_def first_client_def new_client_def RegisterTorrent_def split: prod.splits)
  have "\<not> HasThisTorrent (to_torrentid small_torrent) first_client"
    by (simp add: HasThisTorrent_def first_client_def new_client_def)
  then have added: "added_client = snd (AddNewJob info ''/t'' cl1)"
    unfolding added_client_def AddNewDownloadJob_def Let_def new by (simp only: if_False prod.case)
  show ?thesis
  proof (rule that)
    show "cl_jobs added_client = [(0, \<lparr>cj_info = info, cj_is_running = False\<rparr>)]"
      "cl_threads added_client = []" "cl_job_index added_client = 1" "cl_removed_jobs added_client = []"
      using cl1 by (simp_all add: added AddNewJob_def Let_def)
  qed (use new_job_info_facts [OF new] in simp_all)
qed


theorem one_job_per_torrent_witness:
  "\<exists>j. sm_find (cl_jobs added_client) 0 = Some j \<and> sm_find (cl_torrent_path_map added_client) 0 \<noteq> None \<and>
     sm_find (cl_jobs added_client) 1 = None"
proof -
  obtain j where j: "cl_jobs added_client = [(0, j)]" "cl_job_index added_client = 1" by (rule added_job)
  note paths = one_job_per_torrent [OF added_reachable, THEN conjunct2, THEN conjunct2, THEN conjunct1]
  have "sm_find (cl_torrent_path_map added_client) 0 \<noteq> None" using paths j(2) by simp
  with j(1) show ?thesis by simp
qed

theorem job_started_twice_witness:
  "\<exists>cl1 cl2. StartJob 0 added_client = (Ret ERROR_OK, cl1) \<and> StartJob 0 cl1 = (Ret ERROR_OK, cl2) \<and>
     cl_threads cl2 = [0, 0]"
proof -
  obtain j where j: "cl_jobs added_client = [(0, j)]" "\<not> cj_is_running j" "cl_threads added_client = []"
    by (rule added_job)
  then obtain cl1 where one: "StartJob 0 added_client = (Ret ERROR_OK, cl1)"
    by (simp add: StartJob_def ResumeJobWithoutLock_def GetJobWithoutLock_def set_job_def
        map_downloadInfo_def job_threads_def)
  with job_started_twice [OF one] j show ?thesis by simp
qed

end
