(* ===== verification/History.thy ===== *)
theory History
  imports ClientTable
begin

text \<open>
  What \<open>SaveJobHistory\<close> writes and \<open>ReloadJobHistory\<close> makes of it: the lemmas about the two loops
  and the round trip of the job table through the history file, with its gaps.
\<close>

section \<open>Lemmas: saving\<close>

lemma save_file_map_Throw: "save_file_map m bm = (Throw e, bm') \<Longrightarrow> e = NullPointer"
  by (induction m bm arbitrary: bm' rule: save_file_map.induct)
    (auto simp: Let_def split: prod.splits list.splits option.splits outcome.splits)

lemma sm_get_None_known:
  "sm_get None c bm = (p, bm') \<Longrightarrow> sm_find bm' g = Some (Some b) \<longleftrightarrow> sm_find bm g = Some (Some b)"
  by (auto simp: sm_get_def sm.find_set split: option.splits if_splits)

lemma sm_get_None_fst: "sm_get None c bm = (Some b, bm') \<Longrightarrow> sm_find bm c = Some (Some b) \<and> bm' = bm"
  by (auto simp: sm_get_def split: option.splits)

lemma sm_get_None_None: "sm_get None c bm = (None, bm') \<Longrightarrow> sm_find bm c \<noteq> Some (Some b)"
  by (auto simp: sm_get_def split: option.splits)

lemma save_file_map_Ret:
  assumes "save_file_map m bm = (Ret fs, bm')" and "(c, infos) \<in> set m" and "infos \<noteq> []"
  shows "\<exists>b. sm_find bm c = Some (Some b)"
  using assms
proof (induction m arbitrary: bm fs)
  case (Cons q m)
  obtain g il where q: "q = (g, il)" by (cases q)
  obtain p bm1 where get: "sm_get None g bm = (p, bm1)" by fastforce
  show ?case
  proof (cases "c = g \<and> infos = il")
    case True
    with Cons.prems(1,3) get show ?thesis
      by (cases p; cases il) (auto simp: q dest: sm_get_None_fst)
  next
    case False
    with Cons.prems(2) q have mem: "(c, infos) \<in> set m" by auto
    obtain fs1 where "save_file_map m bm1 = (Ret fs1, bm')"
      using Cons.prems(1) get
      by (cases p; cases il) (auto simp: q split: outcome.splits prod.splits)
    from Cons.IH [OF this mem Cons.prems(3)] sm_get_None_known [OF get] show ?thesis by blast
  qed
qed simp

lemma save_file_map_files:
  assumes "save_file_map m bm = (Ret fs, bm')" and "f \<in> set fs"
  shows "\<exists>c infos i b. (c, infos) \<in> set m \<and> i \<in> set infos \<and> sm_find bm c = Some (Some b) \<and> f = save_file c b i"
  using assms
proof (induction m arbitrary: bm fs)
  case (Cons q m)
  obtain g il where q: "q = (g, il)" by (cases q)
  obtain p bm1 where get: "sm_get None g bm = (p, bm1)" by fastforce
  obtain fs1 where rest: "save_file_map m bm1 = (Ret fs1, bm')"
    and fs: "il = [] \<and> fs = fs1 \<or> (\<exists>b. p = Some b \<and> fs = map (save_file g b) il @ fs1)"
    using Cons.prems(1) get
    by (cases p; cases il) (auto simp: q split: outcome.splits prod.splits)
  show ?case
  proof (cases "f \<in> set fs1")
    case True
    from Cons.IH [OF rest this] obtain c infos i b where i: "(c, infos) \<in> set m" "i \<in> set infos"
      "sm_find bm1 c = Some (Some b)" "f = save_file c b i" by blast
    then have "sm_find bm c = Some (Some b)" "(c, infos) \<in> set (q # m)"
      using sm_get_None_known [OF get] by simp_all
    with i show ?thesis by blast
  next
    case False
    with fs Cons.prems(2) obtain b i where p: "p = Some b" and i: "i \<in> set il" "f = save_file g b i" by auto
    have "sm_find bm g = Some (Some b)" "(g, il) \<in> set (q # m)"
      using sm_get_None_fst [of g bm b bm1] get p q by simp_all
    with i show ?thesis by blast
  qed
qed simp

lemma save_file_map_covers:
  assumes "save_file_map m bm = (Ret fs, bm')" and "(c, infos) \<in> set m" and "infos \<noteq> []"
  shows "c \<in> hf_fileid ` set fs"
  using assms
proof (induction m arbitrary: bm fs)
  case (Cons q m)
  obtain g il where q: "q = (g, il)" by (cases q)
  obtain p bm1 where get: "sm_get None g bm = (p, bm1)" by fastforce
  obtain fs1 where rest: "save_file_map m bm1 = (Ret fs1, bm')"
    and fs: "il = [] \<and> fs = fs1 \<or> (\<exists>b. p = Some b \<and> fs = map (save_file g b) il @ fs1)"
    using Cons.prems(1) get
    by (cases p; cases il) (auto simp: q split: outcome.splits prod.splits)
  show ?case
  proof (cases "(c, infos) \<in> set m")
    case True
    from Cons.IH [OF rest this Cons.prems(3)] fs show ?thesis by auto
  next
    case False
    with Cons.prems(2) q have "c = g" "infos = il" by auto
    with fs Cons.prems(3) obtain b i where "fs = map (save_file c b) il @ fs1" "i \<in> set il"
      by (metis last_in_set)
    then have "save_file c b i \<in> set fs" by auto
    then show ?thesis by (metis image_eqI history_file.select_convs(1) save_file_def)
  qed
qed simp

section \<open>Lemmas: reloading\<close>

definition saved_bits :: "history_file \<Rightarrow> bitset" where
  "saved_bits f = bs_resize (nat (hf_filebitcount f)) (bs_of_blocks (hf_filebit f))"

lemma saved_bits_save_file:
  assumes "length b < 2 ^ 31"
  shows "saved_bits (save_file c b i) = b" and "hf_filebitcount (save_file c b i) = int (length b)"
  using assms by (simp_all add: saved_bits_def save_file_def bs_blocks_roundtrip)

lemma reload_files_bits:
  assumes "\<forall>f \<in> set fs. 0 < hf_filebitcount f \<and> saved_bits f = B (hf_fileid f)"
  shows "\<exists>di'. reload_files fs di = Ret di' \<and>
    (\<forall>c. sm_find (bitmap_map di') c =
       (if c \<in> hf_fileid ` set fs then Some (Some (B c)) else sm_find (bitmap_map di) c)) \<and>
    upload_total di' = upload_total di \<and> download_total di' = download_total di"
  using assms
proof (induction fs arbitrary: di)
  case (Cons f fs)
  let ?b = "saved_bits f"
  let ?di = "di\<lparr>bitmap_map := sm_set (hf_fileid f) (Some ?b) (bitmap_map di),
    percentage_map := sm_set (hf_fileid f) (int (bs_count ?b div length ?b)) (percentage_map di)\<rparr>"
  have step: "reload_files (f # fs) di = reload_files fs ?di"
    using Cons.prems by (simp add: saved_bits_def Let_def)
  from Cons.IH [of ?di] Cons.prems obtain di' where
    rest: "reload_files fs ?di = Ret di'"
    and bits: "\<And>c. sm_find (bitmap_map di') c =
       (if c \<in> hf_fileid ` set fs then Some (Some (B c)) else sm_find (bitmap_map ?di) c)"
    and totals: "upload_total di' = upload_total ?di" "download_total di' = download_total ?di"
    by auto
  show ?case
    unfolding step rest using bits totals Cons.prems by (auto simp: sm.find_set)
qed auto

definition disk_grew :: "disk \<Rightarrow> disk \<Rightarrow> bool" where
  "disk_grew d d' \<longleftrightarrow> d_refused d' = d_refused d \<and> (\<forall>p bs. d_files d p = Some bs \<longrightarrow> d_files d' p = Some bs)"

lemma disk_grew_refl: "disk_grew d d"
  by (simp add: disk_grew_def)

lemma disk_grew_trans: "disk_grew a b \<Longrightarrow> disk_grew b c \<Longrightarrow> disk_grew a c"
  by (simp add: disk_grew_def)

lemma ParseTorrent_grew:
  "ParseTorrent fs p d = (ERROR_OK, Some t) \<Longrightarrow> disk_grew d d' \<Longrightarrow> ParseTorrent fs p d' = (ERROR_OK, Some t)"
  by (auto simp: ParseTorrent_def open_in_def disk_grew_def split: option.splits if_splits)

lemma new_job_info_grew:
  assumes "new_job_info fs t top_path needs cl = (info, cl')"
  shows "disk_grew (cl_disk cl) (cl_disk cl')" and "lf_top_path (ji_localFileInfo info) = top_path"
    and "cl' = cl\<lparr>cl_disk := cl_disk cl'\<rparr>"
proof -
  obtain d where job: "job_info_of (fs_junk_up fs) (fs_junk_down fs) t top_path needs (cl_disk cl) = (info, d)"
    and cl': "cl' = cl\<lparr>cl_disk := d\<rparr>"
    using assms by (auto simp: new_job_info_def split: prod.splits)
  from job_fold_disk [OF job [unfolded job_info_of_start]] show "disk_grew (cl_disk cl) (cl_disk cl')"
    "lf_top_path (ji_localFileInfo info) = top_path"
    by (auto simp: disk_grew_def cl')
  show "cl' = cl\<lparr>cl_disk := cl_disk cl'\<rparr>" by (simp add: cl')
qed

lemma sm_set_append: "\<forall>x \<in> fst ` set m. x < k \<Longrightarrow> sm_set k v m = m @ [(k, v)]"
  by (induction m) auto

section \<open>Lemmas: one job there and back\<close>

text \<open>A job the round trip keeps: its torrent is in the torrent file and its bitmaps are of files with chunks.\<close>

definition job_saved_by :: "file_store \<Rightarrow> (int, string) smap \<Rightarrow> disk \<Rightarrow> int \<times> client_job \<Rightarrow> bool" where
  "job_saved_by fs paths d p \<longleftrightarrow>
     (\<exists>path t. sm_find paths (fst p) = Some path \<and> ParseTorrent fs path d = (ERROR_OK, Some t) \<and>
        ji_torrentInfo (cj_info (snd p)) = torrent_info_of t) \<and>
     (\<forall>c b. sm_find (bitmap_map (downloadInfo (snd p))) c = Some (Some b) \<longrightarrow> b \<noteq> [] \<and> length b < 2 ^ 31)"

definition restored :: "client_job \<Rightarrow> client_job \<Rightarrow> bool" where
  "restored j j' \<longleftrightarrow>
     ji_torrentInfo (cj_info j') = ji_torrentInfo (cj_info j) \<and>
     lf_top_path (ji_localFileInfo (cj_info j')) = lf_top_path (ji_localFileInfo (cj_info j)) \<and>
     (\<forall>c \<in> fst ` set (ti_fileMap (ji_torrentInfo (cj_info j))).
        \<exists>b. sm_find (bitmap_map (downloadInfo j)) c = Some (Some b) \<and>
            sm_find (bitmap_map (downloadInfo j')) c = Some (Some b)) \<and>
     upload_total (downloadInfo j') = upload_total (downloadInfo j) \<and>
     download_total (downloadInfo j') = download_total (downloadInfo j) \<and>
     is_download_paused (downloadInfo j') \<and> \<not> is_stopped (downloadInfo j')"

lemma file_map_keys:
  assumes "(c, infos) \<in> set (ti_fileMap (torrent_info_of t))"
  shows "infos \<noteq> []"
proof -
  have "sm_find (ti_fileMap (torrent_info_of t)) c = Some infos"
    using assms file_map_ok by (simp add: torrent_info_of_def sm_find_iff_mem)
  then show ?thesis by (auto simp: torrent_info_of_def file_map_find Let_def split: if_splits)
qed

text \<open>A file map keeps the bits it is saved with.\<close>

lemma save_then_reload_files:
  assumes "save_file_map (ti_fileMap (torrent_info_of t)) bm = (Ret fs, bm')"
    and "\<forall>c b. sm_find bm c = Some (Some b) \<longrightarrow> b \<noteq> [] \<and> length b < 2 ^ 31"
  shows "\<exists>di'. reload_files fs di = Ret di' \<and>
    (\<forall>c \<in> fst ` set (ti_fileMap (torrent_info_of t)). \<exists>b. sm_find bm c = Some (Some b) \<and>
       sm_find (bitmap_map di') c = Some (Some b)) \<and>
    upload_total di' = upload_total di \<and> download_total di' = download_total di"
proof -
  define B where "B c = the (the (sm_find bm c))" for c
  have "0 < hf_filebitcount f \<and> saved_bits f = B (hf_fileid f)" if "f \<in> set fs" for f
  proof -
    from save_file_map_files [OF assms(1) that] obtain c i b where
      f: "sm_find bm c = Some (Some b)" "f = save_file c b i" by blast
    with assms(2) have "b \<noteq> []" "length b < 2 ^ 31" by simp_all
    with f show ?thesis
      using saved_bits_save_file [of b c i] by (simp add: B_def) (simp add: save_file_def)
  qed
  with reload_files_bits [of fs B di] obtain di' where
    di': "reload_files fs di = Ret di'" "upload_total di' = upload_total di"
      "download_total di' = download_total di"
      "\<And>c. sm_find (bitmap_map di') c =
        (if c \<in> hf_fileid ` set fs then Some (Some (B c)) else sm_find (bitmap_map di) c)" by blast
  have "\<exists>b. sm_find bm c = Some (Some b) \<and> sm_find (bitmap_map di') c = Some (Some b)"
    if "c \<in> fst ` set (ti_fileMap (torrent_info_of t))" for c
  proof -
    from that obtain infos where m: "(c, infos) \<in> set (ti_fileMap (torrent_info_of t))" by auto
    from save_file_map_Ret [OF assms(1) m file_map_keys [OF m]] obtain b where
      b: "sm_find bm c = Some (Some b)" by blast
    with save_file_map_covers [OF assms(1) m file_map_keys [OF m]] di'(4) [of c] show ?thesis
      by (simp add: B_def)
  qed
  with di' show ?thesis by blast
qed

definition below_index :: "cool_client \<Rightarrow> bool" where
  "below_index cl \<longleftrightarrow> (\<forall>h \<in> fst ` set (cl_jobs cl). h < cl_job_index cl)"

lemma reload_one_saved:
  assumes "save_one paths h j = (Ret hi, j')" and "job_saved_by fs paths d (h, j)"
    and "torrentid (ji_torrentInfo (cj_info j)) \<notin> cl_torrent_ids cl"
    and "disk_grew d (cl_disk cl)" and "below_index cl"
  obtains cl' t q where "ParseTorrent fs (hi_torrentpath hi) (cl_disk cl) = (ERROR_OK, Some t)"
    and "ReloadOneJob fs t hi cl = (Ret ERROR_OK, cl')"
    and "cl_jobs cl' = cl_jobs cl @ [q]" and "restored j (snd q)"
    and "cl_torrent_ids cl' = insert (torrentid (ji_torrentInfo (cj_info j))) (cl_torrent_ids cl)"
    and "disk_grew d (cl_disk cl')" and "below_index cl'"
proof -
  from assms(2) obtain path t where path: "sm_find paths h = Some path"
    and parse: "ParseTorrent fs path d = (ERROR_OK, Some t)"
    and torrent: "ji_torrentInfo (cj_info j) = torrent_info_of t"
    and bits: "\<forall>c b. sm_find (bitmap_map (downloadInfo j)) c = Some (Some b) \<longrightarrow> b \<noteq> [] \<and> length b < 2 ^ 31"
    by (auto simp: job_saved_by_def)
  from assms(1) path obtain files bm where
    saved: "save_file_map (ti_fileMap (torrent_info_of t)) (bitmap_map (downloadInfo j)) = (Ret files, bm)"
    and hi: "hi_torrentpath hi = path" "hi_file hi = files"
      "hi_localtoppath hi = lf_top_path (ji_localFileInfo (cj_info j))"
      "hi_uploadtotal hi = sint (upload_total (downloadInfo j))"
      "hi_downloadtotal hi = sint (download_total (downloadInfo j))"
    by (auto simp: save_one_def torrent map_downloadInfo_def map_outcome_eq_Ret split: prod.splits)
  let ?cl = "RegisterTorrent (to_torrentid t) cl"
  obtain info cl1 where new: "new_job_info fs t (hi_localtoppath hi) (history_needs hi) ?cl = (info, cl1)"
    by (rule prod.exhaust)
  let ?di = "(ji_downloadInfo info)\<lparr>upload_total := word_of_int (hi_uploadtotal hi),
    download_total := word_of_int (hi_downloadtotal hi)\<rparr>"
  from save_then_reload_files [OF saved bits, of ?di] obtain di where
    di: "reload_files files ?di = Ret di" "upload_total di = upload_total (downloadInfo j)"
      "download_total di = download_total (downloadInfo j)"
    and kept: "\<forall>c \<in> fst ` set (ti_fileMap (torrent_info_of t)). \<exists>b.
      sm_find (bitmap_map (downloadInfo j)) c = Some (Some b) \<and> sm_find (bitmap_map di) c = Some (Some b)"
    by (auto simp: hi)
  let ?info = "info\<lparr>ji_downloadInfo := di\<lparr>is_job_removed := False, is_stopped := False,
    is_download_paused := True\<rparr>\<rparr>"
  let ?cl' = "snd (AddNewJob ?info path cl1)"
  note facts = new_job_info_facts [OF new] and grew = new_job_info_grew [OF new]
  have cl1: "cl_jobs cl1 = cl_jobs cl" "cl_job_index cl1 = cl_job_index cl"
    "cl_torrent_ids cl1 = insert (to_torrentid t) (cl_torrent_ids cl)"
    by (subst grew(3), simp add: RegisterTorrent_def)+
  have fresh: "\<not> HasThisTorrent (to_torrentid t) cl" using assms(3) torrent by (simp add: HasThisTorrent_def)
  have jobs: "cl_jobs ?cl' = cl_jobs cl @ [(cl_job_index cl, \<lparr>cj_info = ?info, cj_is_running = False\<rparr>)]"
    using assms(5) cl1 by (simp add: AddNewJob_def Let_def sm_set_append below_index_def)
  show ?thesis
  proof (rule that)
    show "ParseTorrent fs (hi_torrentpath hi) (cl_disk cl) = (ERROR_OK, Some t)"
      using ParseTorrent_grew [OF parse assms(4)] by (simp add: hi)
    show "ReloadOneJob fs t hi cl = (Ret ERROR_OK, ?cl')"
      using fresh di(1) unfolding ReloadOneJob_def Let_def new
      by (simp add: hi AddNewJob_def Let_def)
    show "cl_jobs ?cl' = cl_jobs cl @ [(cl_job_index cl, \<lparr>cj_info = ?info, cj_is_running = False\<rparr>)]"
      by (rule jobs)
    show "restored j (snd (cl_job_index cl, \<lparr>cj_info = ?info, cj_is_running = False\<rparr>))"
      using facts(1) grew(2) di kept hi(3) torrent by (simp add: restored_def)
    show "cl_torrent_ids ?cl' = insert (torrentid (ji_torrentInfo (cj_info j))) (cl_torrent_ids cl)"
      by (simp add: AddNewJob_def Let_def cl1 torrent)
    show "disk_grew d (cl_disk ?cl')"
      using disk_grew_trans [OF assms(4)] grew(1) by (simp add: AddNewJob_def Let_def RegisterTorrent_def)
    show "below_index ?cl'"
      using assms(5) jobs cl1 by (fastforce simp: below_index_def AddNewJob_def Let_def)
  qed
qed

section \<open>Lemmas: the whole table\<close>

lemma reload_saved:
  assumes "save_jobs paths js = (Ret hs, js')" and "\<forall>p \<in> set js. job_saved_by fs paths d p"
    and "distinct (map (\<lambda>p. torrentid (ji_torrentInfo (cj_info (snd p)))) js)"
    and "\<forall>p \<in> set js. torrentid (ji_torrentInfo (cj_info (snd p))) \<notin> cl_torrent_ids cl"
    and "disk_grew d (cl_disk cl)" and "below_index cl"
  shows "\<exists>cl' qs. reload_jobs fs hs cl = (Ret ERROR_OK, cl') \<and> cl_jobs cl' = cl_jobs cl @ qs \<and>
    list_all2 (\<lambda>p q. restored (snd p) (snd q)) js qs"
  using assms
proof (induction js arbitrary: hs js' cl)
  case (Cons p js)
  obtain h j where p: "p = (h, j)" by (cases p)
  let ?tid = "\<lambda>p. torrentid (ji_torrentInfo (cj_info (snd p)))"
  from Cons.prems(1) obtain hi j1 hs1 js1 where one: "save_one paths h j = (Ret hi, j1)"
    and rest: "save_jobs paths js = (Ret hs1, js1)" and hs: "hs = hi # hs1"
    by (auto simp: p map_outcome_eq_Ret Let_def split: prod.splits outcome.splits)
  have saved: "job_saved_by fs paths d (h, j)" and tid: "?tid (h, j) \<notin> cl_torrent_ids cl"
    using Cons.prems(2,4) by (simp_all add: p)
  obtain cl1 t q where step: "ParseTorrent fs (hi_torrentpath hi) (cl_disk cl) = (ERROR_OK, Some t)"
      "ReloadOneJob fs t hi cl = (Ret ERROR_OK, cl1)"
    and jobs: "cl_jobs cl1 = cl_jobs cl @ [q]" and same: "restored j (snd q)"
    and ids: "cl_torrent_ids cl1 = insert (?tid (h, j)) (cl_torrent_ids cl)"
    and disk: "disk_grew d (cl_disk cl1)" "below_index cl1"
    by (rule reload_one_saved [OF one saved _ Cons.prems(5,6)]) (use tid in simp_all)
  have new: "\<forall>p \<in> set js. ?tid p \<notin> cl_torrent_ids cl1"
  proof
    fix q assume q: "q \<in> set js"
    have "?tid (h, j) \<notin> ?tid ` set js" using Cons.prems(3) by (simp add: p)
    then have "?tid q \<noteq> ?tid (h, j)" using q by (metis image_eqI)
    with Cons.prems(4) q show "?tid q \<notin> cl_torrent_ids cl1" by (simp add: ids)
  qed
  have "\<forall>p \<in> set js. job_saved_by fs paths d p" "distinct (map ?tid js)"
    using Cons.prems(2,3) by simp_all
  from Cons.IH [OF rest this new disk] obtain cl2 qs where
    "reload_jobs fs hs1 cl1 = (Ret ERROR_OK, cl2)" "cl_jobs cl2 = cl_jobs cl1 @ qs"
    "list_all2 (\<lambda>p q. restored (snd p) (snd q)) js qs" by blast
  with step jobs same show ?case
    by (intro exI [of _ cl2] exI [of _ "q # qs"]) (simp add: hs p)
qed simp

lemma reachable_tids_distinct:
  assumes "table_inv cl"
  shows "distinct (map (\<lambda>p. torrentid (ji_torrentInfo (cj_info (snd p)))) (cl_jobs cl))"
proof -
  let ?tid = "\<lambda>p. torrentid (ji_torrentInfo (cj_info (snd p)))"
  have ok: "sm_ok (cl_jobs cl)" using assms by (simp add: table_inv_def)
  have at: "tids cl (fst p) = Some (?tid p)" if "p \<in> set (cl_jobs cl)" for p
    using that sm_find_iff_mem [OF ok, of "fst p" "snd p"]
    by (simp add: tids_def all_views_def views_def view_def)
  have "inj_on ?tid (set (cl_jobs cl))"
  proof (rule inj_onI)
    fix p q assume pq: "p \<in> set (cl_jobs cl)" "q \<in> set (cl_jobs cl)" "?tid p = ?tid q"
    then have "tids cl (fst p) = Some (?tid p)" "tids cl (fst q) = Some (?tid p)"
      using at by (auto simp del: split_paired_All)
    then have "fst p = fst q" using assms unfolding table_inv_def by blast
    moreover have "distinct (map fst (cl_jobs cl))" using ok by (rule sm_ok_distinct)
    ultimately show "p = q" using pq(1,2) by (metis eq_key_imp_eq_value prod.collapse)
  qed
  moreover have "distinct (cl_jobs cl)" using sm_ok_distinct [OF ok] by (simp add: distinct_map)
  ultimately show ?thesis by (simp add: distinct_map)
qed

lemma save_jobs_Throw:
  assumes "save_jobs paths js = (Throw e, js')" and "\<forall>h \<in> fst ` set js. sm_find paths h \<noteq> None"
  shows "e = NullPointer"
  using assms
proof (induction js arbitrary: js')
  case (Cons p js)
  obtain h j where p: "p = (h, j)" by (cases p)
  obtain path where path: "sm_find paths h = Some path" using Cons.prems(2) p by auto
  show ?case
  proof (cases "save_one paths h j")
    case (Pair r j1)
    show ?thesis
    proof (cases r)
      case (Throw e1)
      with Pair path have "e1 = NullPointer"
        by (auto simp: save_one_def map_outcome_def Let_def split: prod.splits outcome.splits
            dest: save_file_map_Throw)
      with Cons.prems(1) Pair Throw show ?thesis by (simp add: p)
    next
      case (Ret x)
      obtain js1 where "save_jobs paths js = (Throw e, js1)"
        using Cons.prems(1) Pair Ret
        by (auto simp: p map_outcome_def Let_def split: prod.splits outcome.splits)
      with Cons.IH Cons.prems(2) show ?thesis by simp
    qed
  qed
qed simp

lemma save_jobs_Ret:
  "save_jobs paths js = (Ret hs, js') \<Longrightarrow> (h, j) \<in> set js \<Longrightarrow> \<exists>hi j'. save_one paths h j = (Ret hi, j')"
  by (induction js arbitrary: hs js')
    (auto simp: map_outcome_eq_Ret Let_def split: prod.splits outcome.splits)

section \<open>Properties\<close>

text \<open>
  C15: the history brings the jobs back: what a client saves, a new client on the same disk reloads
  without an error, job by job in the order of the handles, each with its torrent, its place on
  disk, its totals and, for every file of the torrent, its bitmap; the jobs come back paused.  The
  torrent files must still be there and every file must have a chunk.
\<close>

theorem history_roundtrip:
  assumes "(client_step fs ap)\<^sup>*\<^sup>* (new_client sm d) cl"
    and "SaveJobHistory fs filename cl = (Ret ERROR_OK, cl1)"
    and "\<forall>history bs. fs_put_history fs history = Some bs \<longrightarrow> fs_get_history fs bs = Some history"
    and "\<forall>p \<in> set (cl_jobs cl). job_saved_by fs (cl_torrent_path_map cl) (cl_disk cl1) p"
  shows "\<exists>cl2. ReloadJobHistory fs filename (new_client sm' (cl_disk cl1)) = (Ret ERROR_OK, cl2) \<and>
    list_all2 (\<lambda>p q. restored (snd p) (snd q)) (cl_jobs cl) (cl_jobs cl2)"
proof -
  have inv: "table_inv cl" by (rule table_inv_reachable [OF assms(1)])
  let ?new = "new_client sm' (cl_disk cl1)"
  from assms(2) obtain hs js bs where save: "save_jobs (cl_torrent_path_map cl) (cl_jobs cl) = (Ret hs, js)"
    and put: "fs_put_history fs hs = Some bs" and refused: "\<not> d_refused (cl_disk cl) filename"
    and disk: "d_files (cl_disk cl1) filename = Some bs" "d_refused (cl_disk cl1) = d_refused (cl_disk cl)"
    by (auto simp: SaveJobHistory_def open_out_def put_file_def Let_def
        split: prod.splits outcome.splits option.splits if_splits)
  have new: "\<forall>p \<in> set (cl_jobs cl). torrentid (ji_torrentInfo (cj_info (snd p))) \<notin> cl_torrent_ids ?new"
    "disk_grew (cl_disk cl1) (cl_disk ?new)" "below_index ?new"
    by (simp_all add: new_client_def disk_grew_refl below_index_def)
  from reload_saved [OF save assms(4) reachable_tids_distinct [OF inv] new] obtain cl2 qs where
    "reload_jobs fs hs ?new = (Ret ERROR_OK, cl2)" "cl_jobs cl2 = cl_jobs ?new @ qs"
    "list_all2 (\<lambda>p q. restored (snd p) (snd q)) (cl_jobs cl) qs" by blast
  moreover have "open_in filename (cl_disk ?new) = Some bs"
    using refused disk by (simp add: open_in_def new_client_def)
  ultimately show ?thesis
    using assms(3) put by (simp add: ReloadJobHistory_def new_client_def)
qed

text \<open>
  C27: a job that leaves out a file of its torrent, as \<open>AddNewDownloadJob\<close> allows, makes
  \<open>SaveJobHistory\<close> dereference a null bitmap: it throws after the history file has been emptied,
  so the history of every job is lost.
\<close>

theorem partial_selection_loses_history:
  assumes "(client_step fs ap)\<^sup>*\<^sup>* (new_client sm d) cl" and "sm_find (cl_jobs cl) h = Some j"
    and "ji_torrentInfo (cj_info j) = torrent_info_of t" and "f \<in> set (to_file t)"
    and "sm_find (bitmap_map (downloadInfo j)) (tf_checksum f) = None"
    and "\<not> d_refused (cl_disk cl) filename"
  shows "\<exists>cl1. SaveJobHistory fs filename cl = (Throw NullPointer, cl1) \<and>
    d_files (cl_disk cl1) filename = Some []"
proof -
  have inv: "table_inv cl" by (rule table_inv_reachable [OF assms(1)])
  let ?paths = "cl_torrent_path_map cl"
  have mem: "(h, j) \<in> set (cl_jobs cl)" using assms(2) by (rule sm_find_SomeD)
  have paths: "\<forall>h \<in> fst ` set (cl_jobs cl). sm_find ?paths h \<noteq> None"
  proof
    fix g assume "g \<in> fst ` set (cl_jobs cl)"
    then have "views (cl_jobs cl) g \<noteq> None"
      using dom_sm_find [of "cl_jobs cl"] by (auto simp: views_def dom_def)
    then have "tids cl g \<noteq> None" by (auto simp: tids_def all_views_def)
    with inv show "sm_find ?paths g \<noteq> None" unfolding table_inv_def by blast
  qed
  let ?same = "filter (\<lambda>g. tf_checksum g = tf_checksum f) (to_file t)"
  have "?same \<noteq> []" using assms(4) by (auto simp: filter_empty_conv)
  then have "sm_find (ti_fileMap (torrent_info_of t)) (tf_checksum f) = Some (map torrent_file_info_of ?same)"
    by (simp add: torrent_info_of_def file_map_find Let_def)
  from sm_find_SomeD [OF this] have key: "(tf_checksum f, map torrent_file_info_of ?same) \<in>
      set (ti_fileMap (torrent_info_of t))" .
  have "\<not> (\<exists>hi j'. save_one ?paths h j = (Ret hi, j'))"
  proof (intro notI, elim exE)
    fix hi j' assume one: "save_one ?paths h j = (Ret hi, j')"
    obtain path where "sm_find ?paths h = Some path" using paths mem by force
    with one obtain files bm where
      "save_file_map (ti_fileMap (torrent_info_of t)) (bitmap_map (downloadInfo j)) = (Ret files, bm)"
      by (auto simp: save_one_def assms(3) map_outcome_eq_Ret Let_def split: prod.splits)
    from save_file_map_Ret [OF this key] \<open>?same \<noteq> []\<close> assms(5) show False by simp
  qed
  with save_jobs_Ret mem obtain e js where save: "save_jobs ?paths (cl_jobs cl) = (Throw e, js)"
    by (metis outcome.exhaust prod.exhaust)
  moreover have "e = NullPointer" by (rule save_jobs_Throw [OF save paths])
  ultimately show ?thesis
    using assms(6) by (simp add: SaveJobHistory_def open_out_def)
qed

section \<open>Witnesses\<close>

text \<open>A store that knows one torrent and one history: that of a finished job.\<close>

definition full_history :: job_history_info where
  "full_history = \<lparr>hi_torrentpath = ''/t'', hi_localtoppath = ''/tmp/'',
     hi_file = [\<lparr>hf_fileid = ''c'', hf_relativepath = ''d/'', hf_filename = ''y'', hf_filebit = [0],
       hf_filebitcount = 1\<rparr>], hi_uploadtotal = 7, hi_downloadtotal = 9\<rparr>"

definition full_store :: file_store where
  "full_store = demo_store\<lparr>fs_put_history := (\<lambda>hs. if hs = [full_history] then Some [0] else None),
     fs_get_history := (\<lambda>bs. if bs = [0] then Some [full_history] else None)\<rparr>"

definition torrent_disk :: disk where
  "torrent_disk = empty_disk\<lparr>d_files := [''/t'' \<mapsto> [1]]\<rparr>"

definition saving_client :: cool_client where
  "saving_client = snd (AddNewDownloadJob full_store ''/t'' small_torrent (all_files small_torrent) ''/tmp/'' 0
     (new_client demo_pool torrent_disk))"

lemma saving_reachable: "(client_step full_store demo_app)\<^sup>*\<^sup>* (new_client demo_pool torrent_disk) saving_client"
  unfolding saving_client_def by (rule r_into_rtranclp) (rule client_step.add_download)

lemma small_torrent_map:
  "ti_fileMap (torrent_info_of small_torrent) = [(''c'', [torrent_file_info_of small_file])]"
  by (simp add: torrent_info_of_def small_torrent_def file_map_add_def sm_get_def small_file_def)

lemma saving_job:
  obtains info where "cl_jobs saving_client = [(0, \<lparr>cj_info = info, cj_is_running = False\<rparr>)]"
    and "cl_torrent_path_map saving_client = [(0, ''/t'')]"
    and "ji_torrentInfo info = torrent_info_of small_torrent"
    and "bitmap_map (ji_downloadInfo info) = [(''c'', Some [False])]"
    and "upload_total (ji_downloadInfo info) = 7" and "download_total (ji_downloadInfo info) = 9"
    and "lf_top_path (ji_localFileInfo info) = ''/tmp/''"
    and "d_files (cl_disk saving_client) ''/t'' = Some [1]" and "d_refused (cl_disk saving_client) = d_refused empty_disk"
proof -
  let ?r = "job_info_of 7 9 small_torrent ''/tmp/'' (all_files small_torrent) torrent_disk"
  obtain info d where r: "?r = (info, d)" by (rule prod.exhaust)
  have one_file: "to_file small_torrent = [small_file]" by (simp add: small_torrent_def)
  have need: "needs_file (all_files small_torrent) small_file"
    by (simp add: needs_file_def all_files_def one_file identity_eq_def)
  note fold = r [unfolded job_info_of_start]
  have bits: "bitmap_map (ji_downloadInfo info) = [(''c'', Some [False])]"
    using r need by (simp add: job_info_of_start one_file job_add_file_take job_start_def download_info_init_def
        Let_def bs_new_def split: prod.splits) (auto simp: small_file_def)
  have "new_job_info full_store small_torrent ''/tmp/'' (all_files small_torrent)
      (RegisterTorrent (to_torrentid small_torrent) (new_client demo_pool torrent_disk))
    = (info, (RegisterTorrent (to_torrentid small_torrent) (new_client demo_pool torrent_disk))\<lparr>cl_disk := d\<rparr>)"
    using r by (simp add: new_job_info_def full_store_def demo_store_def RegisterTorrent_def new_client_def)
  moreover have "\<not> HasThisTorrent (to_torrentid small_torrent) (new_client demo_pool torrent_disk)"
    by (simp add: HasThisTorrent_def new_client_def)
  ultimately have added: "saving_client = snd (AddNewJob info ''/t''
      ((RegisterTorrent (to_torrentid small_torrent) (new_client demo_pool torrent_disk))\<lparr>cl_disk := d\<rparr>))"
    unfolding saving_client_def AddNewDownloadJob_def Let_def by (simp only: if_False prod.case)
  show ?thesis
  proof (rule that [OF _ _ _ bits])
    show "cl_jobs saving_client = [(0, \<lparr>cj_info = info, cj_is_running = False\<rparr>)]"
      "cl_torrent_path_map saving_client = [(0, ''/t'')]"
      by (simp_all add: added AddNewJob_def Let_def RegisterTorrent_def new_client_def)
    show "ji_torrentInfo info = torrent_info_of small_torrent"
      "upload_total (ji_downloadInfo info) = 7" "download_total (ji_downloadInfo info) = 9"
      using job_fold_data [OF fold] by simp_all
    show "lf_top_path (ji_localFileInfo info) = ''/tmp/''" "d_files (cl_disk saving_client) ''/t'' = Some [1]"
      "d_refused (cl_disk saving_client) = d_refused empty_disk"
      using job_fold_disk [OF fold] by (auto simp: added AddNewJob_def Let_def RegisterTorrent_def
          new_client_def torrent_disk_def)
  qed
qed

theorem history_roundtrip_witness:
  "\<exists>cl1 cl2. SaveJobHistory full_store ''/h'' saving_client = (Ret ERROR_OK, cl1) \<and>
     ReloadJobHistory full_store ''/h'' (new_client demo_pool (cl_disk cl1)) = (Ret ERROR_OK, cl2) \<and>
     list_all2 (\<lambda>p q. restored (snd p) (snd q)) (cl_jobs saving_client) (cl_jobs cl2)"
proof -
  obtain info where jobs: "cl_jobs saving_client = [(0, \<lparr>cj_info = info, cj_is_running = False\<rparr>)]"
    "cl_torrent_path_map saving_client = [(0, ''/t'')]"
    "ji_torrentInfo info = torrent_info_of small_torrent"
    "bitmap_map (ji_downloadInfo info) = [(''c'', Some [False])]"
    "upload_total (ji_downloadInfo info) = 7" "download_total (ji_downloadInfo info) = 9"
    "lf_top_path (ji_localFileInfo info) = ''/tmp/''"
    and disk: "d_files (cl_disk saving_client) ''/t'' = Some [1]"
    "d_refused (cl_disk saving_client) = d_refused empty_disk"
    by (rule saving_job)
  have one_file: "tfi_file (torrent_file_info_of small_file) = small_file" by (simp add: torrent_file_info_of_def)
  have "\<exists>js. save_jobs (cl_torrent_path_map saving_client) (cl_jobs saving_client) = (Ret [full_history], js)"
    by (simp add: jobs save_one_def small_torrent_map sm_get_def save_file_def one_file Let_def map_downloadInfo_def
        full_history_def) (simp add: small_file_def)
  then obtain cl1 where save: "SaveJobHistory full_store ''/h'' saving_client = (Ret ERROR_OK, cl1)"
    and d1: "cl_disk cl1 = put_file ''/h'' [0] (snd (open_out ''/h'' (cl_disk saving_client)))"
    using disk by (auto simp: SaveJobHistory_def open_out_def empty_disk_def full_store_def)
  have codec: "\<forall>h bs. fs_put_history full_store h = Some bs \<longrightarrow> fs_get_history full_store bs = Some h"
    by (auto simp: full_store_def)
  have "ParseTorrent full_store ''/t'' (cl_disk cl1) = (ERROR_OK, Some small_torrent)"
    using disk by (simp add: d1 ParseTorrent_def open_in_def open_out_def put_file_def empty_disk_def
        full_store_def demo_store_def)
  then have "\<forall>p \<in> set (cl_jobs saving_client).
      job_saved_by full_store (cl_torrent_path_map saving_client) (cl_disk cl1) p"
    by (auto simp: job_saved_by_def jobs)
  from history_roundtrip [OF saving_reachable save codec this] save show ?thesis by blast
qed

definition picky_client :: cool_client where
  "picky_client = snd (AddNewDownloadJob demo_store ''/t'' small_torrent [] ''/tmp/'' 0
     (new_client demo_pool empty_disk))"

theorem partial_selection_loses_history_witness:
  "\<exists>cl1. SaveJobHistory demo_store ''/h'' picky_client = (Throw NullPointer, cl1) \<and>
     d_files (cl_disk cl1) ''/h'' = Some []"
proof -
  let ?start = "new_client demo_pool empty_disk"
  have reach: "(client_step demo_store demo_app)\<^sup>*\<^sup>* ?start picky_client"
    unfolding picky_client_def by (rule r_into_rtranclp) (rule client_step.add_download)
  have one_file: "to_file small_torrent = [small_file]" by (simp add: small_torrent_def)
  have "\<exists>j. sm_find (cl_jobs picky_client) 0 = Some j \<and>
      ji_torrentInfo (cj_info j) = torrent_info_of small_torrent \<and>
      bitmap_map (downloadInfo j) = [] \<and> cl_disk picky_client = empty_disk"
    by (simp add: picky_client_def AddNewDownloadJob_def HasThisTorrent_def new_client_def RegisterTorrent_def
        new_job_info_def job_info_of_start one_file job_add_file_skip needs_file_def job_start_def AddNewJob_def
        download_info_init_def Let_def)
  then obtain j where j: "sm_find (cl_jobs picky_client) 0 = Some j"
    "ji_torrentInfo (cj_info j) = torrent_info_of small_torrent" "bitmap_map (downloadInfo j) = []"
    "cl_disk picky_client = empty_disk" by blast
  show ?thesis
    using partial_selection_loses_history [OF reach j(1,2), of small_file "''/h''"] j(3,4) one_file
    by (simp add: empty_disk_def)
qed

end
