(* ===== verification/MakeTorrent.thy ===== *)
theory MakeTorrent
  imports Client Verification
begin

text \<open>
  \<open>MakeTorrent\<close> and \<open>list_dir_recursive\<close> of \<open>client/src/client.cc\<close>: the torrent of a file or a
  directory.  The directory below the path is a tree of entries with their paths and whether they
  can be read, as \<open>Poco::File\<close> gives them; the contents are on the disk.  A path of a \<open>Poco::File\<close>
  has no slash at its end, so \<open>Path::parent\<close> is what comes before its last name.
\<close>

datatype entry = Plain string bool | Dir string bool "entry list" | Other string bool

fun list_dir_recursive :: "entry list \<Rightarrow> string list" where
  "list_dir_recursive [] = []"
| "list_dir_recursive (Plain path can_read # es) =
     (if \<not> can_read then [] else [path]) @ list_dir_recursive es"
| "list_dir_recursive (Dir path can_read inner # es) =
     (if \<not> can_read then [] else list_dir_recursive inner) @ list_dir_recursive es"
| "list_dir_recursive (Other path can_read # es) = list_dir_recursive es"

text \<open>\<open>File::list\<close> throws for what is no directory or cannot be read.\<close>

fun files_of :: "entry \<Rightarrow> string list outcome" where
  "files_of (Plain path _) = Ret [path]"
| "files_of (Dir path can_read inner) =
     (if can_read then Ret (list_dir_recursive inner) else Throw FileException)"
| "files_of (Other path _) = Throw FileException"

definition file_name :: "string \<Rightarrow> string" where
  "file_name path = rev (takeWhile (\<lambda>c. c \<noteq> CHR ''/'') (rev path))"

text \<open>\<open>std::mismatch\<close>, which reads past the end of a second range that is too short.\<close>

fun mismatch_rest :: "string \<Rightarrow> string \<Rightarrow> string outcome" where
  "mismatch_rest [] ys = Ret ys"
| "mismatch_rest (x # xs) [] = Throw Undefined"
| "mismatch_rest (x # xs) (y # ys) = (if x = y then mismatch_rest xs ys else Ret (y # ys))"

fun make_chunks :: "string list \<Rightarrow> int \<Rightarrow> int \<Rightarrow> chunk list" where
  "make_chunks [] chunk_sz last_chunk_size = []"
| "make_chunks (c # cs) chunk_sz last_chunk_size =
     \<lparr>ck_checksum = c, ck_size = (if cs = [] then last_chunk_size else chunk_sz)\<rparr>
       # make_chunks cs chunk_sz last_chunk_size"

definition make_file ::
    "(byte list \<Rightarrow> string) \<Rightarrow> disk \<Rightarrow> string \<Rightarrow> int \<Rightarrow> string \<Rightarrow> engine \<Rightarrow> (torrent_file, engine) result" where
  "make_file H d top_path chunk_sz path eng =
     and_then (get_file_verification_code H (\<lambda>p. open_in p d) path eng) (\<lambda>file_check_sum eng.
       let file_size = int (length (the (open_in path d))) in
       and_then (get_file_checksum_list H (\<lambda>p. d_files d p \<noteq> None) (\<lambda>p. open_in p d) path chunk_sz [] eng)
         (\<lambda>checksums eng.
         let last_chunk_size = to_i32 (file_size mod chunk_sz) in
         (map_outcome (\<lambda>relative_path.
            \<lparr>tf_checksum = file_check_sum, tf_relativepath = relative_path, tf_filename = file_name path,
             tf_size = file_size, tf_chunk = make_chunks checksums chunk_sz last_chunk_size\<rparr>)
            (mismatch_rest top_path (parent_dir path)), eng)))"

fun make_files ::
    "(byte list \<Rightarrow> string) \<Rightarrow> disk \<Rightarrow> string \<Rightarrow> int \<Rightarrow> string list \<Rightarrow> engine \<Rightarrow> (torrent_file list, engine) result" where
  "make_files H d top_path chunk_sz [] eng = (Ret [], eng)"
| "make_files H d top_path chunk_sz (p # ps) eng =
     and_then (make_file H d top_path chunk_sz p eng) (\<lambda>f eng.
     and_then (make_files H d top_path chunk_sz ps eng) (\<lambda>fs eng. (Ret (f # fs), eng)))"

definition torrent_id_source :: "string list \<Rightarrow> torrent_file list \<Rightarrow> string" where
  "torrent_id_source paths files =
     concat (map2 (\<lambda>p f. parent_dir p @ file_name p @ tf_checksum f) paths files)"

definition MakeTorrent ::
    "file_store \<Rightarrow> (byte list \<Rightarrow> string) \<Rightarrow> string \<Rightarrow> string \<Rightarrow> entry option \<Rightarrow> string \<Rightarrow> string \<Rightarrow> int \<Rightarrow> int
      \<Rightarrow> string \<Rightarrow> engine \<times> disk \<Rightarrow> (retcode, engine \<times> disk) result" where
  "MakeTorrent fs H clientid current_time tree path torrent_file_path chunk_sz tp addr s =
     (let (eng, d) = s; top_path = parent_dir path
      in case tree of
           None \<Rightarrow> (Ret ERROR_FILE_NOT_EXISTS, s)
         | Some f \<Rightarrow>
      (case files_of f of
           Throw e \<Rightarrow> (Throw e, s)
         | Ret paths \<Rightarrow>
      (case make_files H d top_path chunk_sz paths eng of
           (Throw e, eng) \<Rightarrow> (Throw e, (eng, d))
         | (Ret files, eng) \<Rightarrow>
      (case get_verification_code H (map of_char (torrent_id_source paths files)) eng of
           (Throw e, eng) \<Rightarrow> (Throw e, (eng, d))
         | (Ret torrent_id, eng) \<Rightarrow>
             let (opened, d) = open_out torrent_file_path d
             in if \<not> opened then (Ret ERROR_FILE_CANNOT_CREATE, (eng, d))
                else (case fs_put_torrent fs
                    \<lparr>to_torrentid = torrent_id, to_type = tp,
                     to_totalsize = sum_list (map tf_size files), to_createby = clientid,
                     to_createtime = current_time, to_trackeraddress = addr, to_file = files\<rparr> of
                   None \<Rightarrow> (Throw AssertionViolation, (eng, d))
                 | Some bs \<Rightarrow> (Ret ERROR_OK, (eng, put_file torrent_file_path bs d)))))))"

section \<open>Lemmas: one file\<close>

lemma path_parts: "parent_dir path @ file_name path = path"
  unfolding parent_dir_def file_name_def by (simp flip: rev_append)

lemma mismatch_below: "mismatch_rest xs (xs @ ys) = Ret ys"
  by (induction xs) auto

lemma make_chunks_checksums [simp]: "map ck_checksum (make_chunks cs n l) = cs"
  by (induction cs) auto

lemma length_make_chunks [simp]: "length (make_chunks cs n l) = length cs"
  by (induction cs) auto

lemma make_chunks_sizes:
  "i < length cs \<Longrightarrow> ck_size (make_chunks cs n l ! i) = (if Suc i = length cs then l else n)"
proof (induction cs arbitrary: i)
  case (Cons c cs)
  then show ?case by (cases i) auto
qed simp

text \<open>What a torrent says of a file with the given content.\<close>

definition describes :: "(byte list \<Rightarrow> string) \<Rightarrow> int \<Rightarrow> byte list \<Rightarrow> torrent_file \<Rightarrow> bool" where
  "describes H c content f \<longleftrightarrow>
     tf_checksum f = H content \<and> tf_size f = int (length content) \<and>
     map ck_checksum (tf_chunk f) = map H (pieces (nat c) content) \<and>
     (\<forall>i < length (tf_chunk f). ck_size (tf_chunk f ! i) =
        (if Suc i = length (tf_chunk f) then int (length content) mod c else c))"

lemma make_file_describes:
  assumes "make_file H d top_path c path [] = (Ret f, e)" and "c < 2 ^ 31"
  shows "\<exists>content. open_in path d = Some content \<and> describes H c content f \<and> e = [] \<and> 0 < c \<and>
    (\<forall>r. parent_dir path = top_path @ r \<longrightarrow> top_path @ tf_relativepath f @ tf_filename f = path)"
proof -
  from assms(1) obtain content where content: "open_in path d = Some content"
    by (auto simp: make_file_def get_file_verification_code_def and_then_eq_Ret split: option.splits)
  with assms(1) have c: "0 < c"
    by (auto simp: make_file_def get_file_verification_code_def and_then_eq_Ret engine_digest_def
        get_file_checksum_list_eq Let_def split: if_splits)
  have exists: "d_files d path \<noteq> None" using content by (auto simp: open_in_def split: if_splits)
  from assms(1) content c exists obtain rel where
    rel: "mismatch_rest top_path (parent_dir path) = Ret rel" and e: "e = []"
    and f: "f = \<lparr>tf_checksum = H content, tf_relativepath = rel, tf_filename = file_name path,
       tf_size = int (length content), tf_chunk = make_chunks (map H (pieces (nat c) content)) c
         (to_i32 (int (length content) mod c))\<rparr>"
    by (auto simp: make_file_def get_file_verification_code_def engine_digest_def engine_update_def
        get_file_checksum_list_eq map_outcome_eq_Ret Let_def)
  have "0 \<le> int (length content) mod c" "int (length content) mod c < c"
    using c by simp_all
  then have "to_i32 (int (length content) mod c) = int (length content) mod c"
    using assms(2) by simp
  with f have "describes H c content f"
    by (auto simp: describes_def make_chunks_sizes)
  moreover have "top_path @ tf_relativepath f @ tf_filename f = path" if "parent_dir path = top_path @ r" for r
    using rel that path_parts [of path] f by (simp add: mismatch_below)
  ultimately show ?thesis using content e c by blast
qed

lemma make_files_describe:
  assumes "make_files H d top_path c ps [] = (Ret fs, e)" and "c < 2 ^ 31"
  shows "e = [] \<and> list_all2 (\<lambda>p f. \<exists>content. open_in p d = Some content \<and> describes H c content f \<and> 0 < c \<and>
    (\<forall>r. parent_dir p = top_path @ r \<longrightarrow> top_path @ tf_relativepath f @ tf_filename f = p)) ps fs"
  using assms
proof (induction ps arbitrary: fs)
  case (Cons p ps)
  from Cons.prems(1) obtain f e1 fs1 where one: "make_file H d top_path c p [] = (Ret f, e1)"
    and rest: "make_files H d top_path c ps e1 = (Ret fs1, e)" and fs: "fs = f # fs1"
    by (auto simp: and_then_eq_Ret)
  from make_file_describes [OF one assms(2)] obtain content where
    "open_in p d = Some content" "describes H c content f" "e1 = []" "0 < c"
    "\<forall>r. parent_dir p = top_path @ r \<longrightarrow> top_path @ tf_relativepath f @ tf_filename f = p" by blast
  with Cons.IH [of fs1] rest assms(2) show ?case by (auto simp: fs)
qed simp

section \<open>Properties\<close>

text \<open>
  C36: the torrent file \<open>MakeTorrent\<close> writes is the one \<open>ParseTorrent\<close> reads, and it describes the
  files below the path, in order: checksum, size, the checksum of every piece of \<open>chunk_sz\<close> bytes,
  the size of every piece but the last, and a place that leads back to the file from the directory
  of the path.  The size given for the last piece is the remainder of the file's size.
\<close>

theorem torrent_describes_files:
  assumes "MakeTorrent fs H clientid now (Some f) path torrent_path c tp addr ([], d) = (Ret ERROR_OK, (e, d'))"
    and "\<forall>t bs. fs_put_torrent fs t = Some bs \<longrightarrow> fs_get_torrent fs bs = Some t"
    and "files_of f = Ret ps" and "\<forall>p \<in> set ps. \<exists>r. parent_dir p = parent_dir path @ r" and "c < 2 ^ 31"
  shows "\<exists>t. ParseTorrent fs torrent_path d' = (ERROR_OK, Some t) \<and> to_trackeraddress t = addr \<and>
    list_all2 (\<lambda>p g. \<exists>content. open_in p d = Some content \<and> describes H c content g \<and>
      parent_dir path @ tf_relativepath g @ tf_filename g = p) ps (to_file t)"
proof -
  from assms(1,3) obtain files e1 tid t bs where
    made: "make_files H d (parent_dir path) c ps [] = (Ret files, e1)"
    and t: "t = \<lparr>to_torrentid = tid, to_type = tp, to_totalsize = sum_list (map tf_size files),
      to_createby = clientid, to_createtime = now, to_trackeraddress = addr, to_file = files\<rparr>"
    and put: "fs_put_torrent fs t = Some bs" and refused: "\<not> d_refused d torrent_path"
    and d': "d' = put_file torrent_path bs (snd (open_out torrent_path d))"
    by (auto simp: MakeTorrent_def open_out_def Let_def split: prod.splits outcome.splits option.splits if_splits)
  have "ParseTorrent fs torrent_path d' = (ERROR_OK, Some t)"
    using put refused assms(2) by (simp add: d' ParseTorrent_def open_in_def put_file_def open_out_def)
  moreover have "list_all2 (\<lambda>p g. \<exists>content. open_in p d = Some content \<and> describes H c content g \<and>
      parent_dir path @ tf_relativepath g @ tf_filename g = p) ps files"
  proof (rule list_all2I)
    have all: "list_all2 (\<lambda>p f. \<exists>content. open_in p d = Some content \<and> describes H c content f \<and> 0 < c \<and>
      (\<forall>r. parent_dir p = parent_dir path @ r \<longrightarrow>
         parent_dir path @ tf_relativepath f @ tf_filename f = p)) ps files"
      using make_files_describe [OF made assms(5)] by blast
    show "length ps = length files" using all by (rule list_all2_lengthD)
    show "\<forall>(p, g) \<in> set (zip ps files). \<exists>content. open_in p d = Some content \<and> describes H c content g \<and>
      parent_dir path @ tf_relativepath g @ tf_filename g = p"
    proof clarify
      fix p g assume pg: "(p, g) \<in> set (zip ps files)"
      then have "p \<in> set ps" by (rule set_zip_leftD)
      with assms(4) obtain r where "parent_dir p = parent_dir path @ r" by blast
      with all pg show "\<exists>content. open_in p d = Some content \<and> describes H c content g \<and>
          parent_dir path @ tf_relativepath g @ tf_filename g = p"
        unfolding list_all2_iff by blast
    qed
  qed
  ultimately show ?thesis by (auto simp: t)
qed

text \<open>The sizes of the pieces add up to the file's size, unless that is a multiple of the piece's.\<close>

lemma describes_sizes:
  assumes "describes H c content f" and "0 < c"
  shows "tf_chunk f \<noteq> []"
    and "ck_size (last (tf_chunk f)) = 0 \<longleftrightarrow> c dvd int (length content)"
proof -
  have "length (tf_chunk f) = length (pieces (nat c) content)"
    using assms(1) unfolding describes_def by (metis length_map)
  then show ne: "tf_chunk f \<noteq> []" using pieces_not_Nil by (metis length_0_conv)
  then show "ck_size (last (tf_chunk f)) = 0 \<longleftrightarrow> c dvd int (length content)"
    using assms(1) by (simp add: describes_def last_conv_nth mod_eq_0_iff_dvd)
qed

section \<open>Witnesses\<close>

definition three_disk :: disk where
  "three_disk = empty_disk\<lparr>d_files := [''/a/f'' \<mapsto> [1, 2, 3]]\<rparr>"

definition made_file :: torrent_file where
  "made_file = \<lparr>tf_checksum = ''xxx'', tf_relativepath = [], tf_filename = ''f'', tf_size = 3,
     tf_chunk = [\<lparr>ck_checksum = ''xx'', ck_size = 2\<rparr>, \<lparr>ck_checksum = ''x'', ck_size = 1\<rparr>]\<rparr>"

definition unary_hash :: "byte list \<Rightarrow> string" where
  "unary_hash bs = replicate (length bs) CHR ''x''"

definition made_torrent :: torrent where
  "made_torrent = \<lparr>to_torrentid = ''xxxxxxx'', to_type = 1, to_totalsize = 3, to_createby = ''me'',
     to_createtime = ''now'', to_trackeraddress = ''T:1'', to_file = [made_file]\<rparr>"

definition made_store :: file_store where
  "made_store = \<lparr>fs_put_history = (\<lambda>_. None), fs_get_history = (\<lambda>_. None),
     fs_put_torrent = (\<lambda>t. if t = made_torrent then Some [1] else None),
     fs_get_torrent = (\<lambda>bs. if bs = [1] then Some made_torrent else None),
     fs_junk_up = 7, fs_junk_down = 9\<rparr>"

lemma made_pieces: "pieces 2 [1, 2, 3 :: byte] = [[1, 2], [3]]"
  by (simp add: pieces.simps [of 2 "[1, 2, 3]"] pieces.simps [of 2 "[3]"])

lemma made_one: "make_file unary_hash three_disk ''/a/'' 2 ''/a/f'' [] = (Ret made_file, [])"
  by (simp add: make_file_def get_file_verification_code_def get_file_checksum_list_eq open_in_def
      three_disk_def empty_disk_def engine_update_def engine_digest_def made_pieces unary_hash_def
      parent_dir_def file_name_def made_file_def Let_def)

theorem torrent_describes_files_witness:
  "\<exists>d' t. MakeTorrent made_store unary_hash ''me'' ''now'' (Some (Plain ''/a/f'' True)) ''/a/f'' ''/t'' 2 1 ''T:1''
       ([], three_disk) = (Ret ERROR_OK, ([], d')) \<and>
     ParseTorrent made_store ''/t'' d' = (ERROR_OK, Some t) \<and> describes unary_hash 2 [1, 2, 3] (hd (to_file t))"
proof -
  have dir: "parent_dir ''/a/f'' = ''/a/''" by (simp add: parent_dir_def)
  have "\<exists>d'. MakeTorrent made_store unary_hash ''me'' ''now'' (Some (Plain ''/a/f'' True)) ''/a/f'' ''/t'' 2 1 ''T:1''
       ([], three_disk) = (Ret ERROR_OK, ([], d'))"
    by (simp add: MakeTorrent_def dir made_one Let_def)
      (simp add: get_verification_code_def vc_without_lock_eq torrent_id_source_def parent_dir_def
        file_name_def made_file_def unary_hash_def open_out_def three_disk_def empty_disk_def made_store_def
        made_torrent_def slice_def)
  then obtain d' where made: "MakeTorrent made_store unary_hash ''me'' ''now'' (Some (Plain ''/a/f'' True))
      ''/a/f'' ''/t'' 2 1 ''T:1'' ([], three_disk) = (Ret ERROR_OK, ([], d'))" by blast
  have codec: "\<forall>t bs. fs_put_torrent made_store t = Some bs \<longrightarrow> fs_get_torrent made_store bs = Some t"
    by (auto simp: made_store_def)
  from torrent_describes_files [OF made codec, of "[''/a/f'']"] obtain t where
    t: "ParseTorrent made_store ''/t'' d' = (ERROR_OK, Some t)"
    and all: "list_all2 (\<lambda>p g. \<exists>content. open_in p three_disk = Some content \<and> describes unary_hash 2 content g \<and>
      parent_dir ''/a/f'' @ tf_relativepath g @ tf_filename g = p) [''/a/f''] (to_file t)"
    by auto
  from all have "describes unary_hash 2 [1, 2, 3] (hd (to_file t))"
    by (auto simp: list_all2_Cons1 open_in_def three_disk_def empty_disk_def)
  with made t show ?thesis by blast
qed

end
