(* ===== verification/ClientMain.thy ===== *)
theory ClientMain
  imports History MakeTorrent
begin

text \<open>
  \<open>CoolClient::initialize\<close>, \<open>main\<close> and \<open>uninitialize\<close> of \<open>client/src/client.cc\<close>, and
  \<open>client/src/job_info_collector.cc\<close>: what a run of the client does, in the order in which it does
  it.  Other threads work all the time: \<open>me_others E k\<close> is what they have done to the client before
  the \<open>k\<close>-th call of \<open>main\<close>, and a round of a join is what they do while it waits.  The
  configuration, the node's id, the directory tree and the server socket are fields of \<open>main_env\<close>;
  the reactor's handlers are the theory ClientHandler.
\<close>

section \<open>The world around main\<close>

record main_env =
  me_fs :: file_store
  me_hash :: "byte list \<Rightarrow> string"
  me_app :: app
  me_message_port :: "int outcome"
  me_history_path :: "string option"
  me_current_dir :: string
  me_node_id :: "byte list"
  me_manager :: "sock_manager option"
  me_tree :: "string \<Rightarrow> entry option"
  me_current_time :: string
  me_server_socket :: "int \<Rightarrow> unit outcome"
  me_others :: "nat \<Rightarrow> cool_client \<Rightarrow> cool_client"

record main_state =
  ms_client :: cool_client
  ms_LOCAL_PORT :: int
  ms_clientid :: string
  ms_history_file_path :: string
  ms_exiting :: bool
  ms_init_error :: bool
  ms_engine :: engine

definition TRACKER_PORT :: int where "TRACKER_PORT = 9977"

section \<open>initialize\<close>

text \<open>
  The port is a cast to \<open>unsigned short\<close>.  A manager that could not be made sets \<open>init_error_\<close>; the
  exception thrown for it is caught.
\<close>

definition initialize :: "main_env \<Rightarrow> engine \<Rightarrow> disk \<Rightarrow> main_state outcome" where
  "initialize E eng d =
     (case me_message_port E of
        Throw e \<Rightarrow> Throw e
      | Ret port \<Rightarrow>
          (case get_verification_code (me_hash E) (me_node_id E) eng of
             (Throw e, eng) \<Rightarrow> Throw e
           | (Ret clientid, eng) \<Rightarrow>
               let default_history_file_path = me_current_dir E @ ''/'' @ ''history'';
                   history = (case me_history_path E of Some p \<Rightarrow> p | None \<Rightarrow> default_history_file_path);
                   st = \<lparr>ms_client = new_client (case me_manager E of Some m \<Rightarrow> m | None \<Rightarrow> new_sock_manager []) d,
                     ms_LOCAL_PORT = port mod 2 ^ 16, ms_clientid = clientid,
                     ms_history_file_path = history, ms_exiting = False, ms_init_error = False, ms_engine = eng\<rparr>
               in Ret (if me_manager E = None then st\<lparr>ms_init_error := True\<rparr> else st)))"

section \<open>Calls of main\<close>

text \<open>What is fixed for the calls on sockets, with the client id and port as they are now.\<close>

definition app_of :: "main_env \<Rightarrow> main_state \<Rightarrow> app" where
  "app_of E st = (me_app E)\<lparr>ap_clientid := ms_clientid st, ap_port := ms_LOCAL_PORT st\<rparr>"

definition in_client ::
    "(cool_client \<Rightarrow> ('a, cool_client) result) \<Rightarrow> main_state \<Rightarrow> ('a, main_state) result" where
  "in_client f st = (let (r, cl) = f (ms_client st) in (r, st\<lparr>ms_client := cl\<rparr>))"

definition in_manager ::
    "(sock_manager \<Rightarrow> ('a, sock_manager) result) \<Rightarrow> cool_client \<Rightarrow> ('a, cool_client) result" where
  "in_manager f cl = (let (r, m) = f (cl_sockManager cl) in (r, cl\<lparr>cl_sockManager := m\<rparr>))"

text \<open>The \<open>k\<close>-th call, after what the other threads have done until then.\<close>

definition call ::
    "main_env \<Rightarrow> nat \<Rightarrow> (main_state \<Rightarrow> ('a, main_state) result) \<Rightarrow> main_state \<Rightarrow> ('a, main_state) result" where
  "call E k f st = f (st\<lparr>ms_client := me_others E k (ms_client st)\<rparr>)"

definition tracker_ip :: string where "tracker_ip = ''127.0.0.1''"

definition login :: "main_env \<Rightarrow> main_state \<Rightarrow> (retcode, main_state) result" where
  "login E st = in_client (in_manager (LoginTracker (app_of E st) tracker_ip TRACKER_PORT)) st"

definition logout :: "main_env \<Rightarrow> main_state \<Rightarrow> (retcode, main_state) result" where
  "logout E st = in_client (in_manager (LogoutTracker (app_of E st) tracker_ip TRACKER_PORT)) st"

definition parse :: "main_env \<Rightarrow> string \<Rightarrow> main_state \<Rightarrow> (retcode \<times> torrent option, main_state) result" where
  "parse E path st = (Ret (ParseTorrent (me_fs E) path (cl_disk (ms_client st))), st)"

text \<open>A wait of \<open>main\<close>: \<open>joinAll\<close> or \<open>waitForTerminationRequest\<close>.\<close>

definition wait_for_others :: "main_state \<Rightarrow> (unit, main_state) result" where
  "wait_for_others st = (Ret (), st)"

section \<open>Downloading: one argument\<close>

definition add_and_start :: "main_env \<Rightarrow> string \<Rightarrow> torrent \<Rightarrow> main_state \<Rightarrow> (unit, main_state) result" where
  "add_and_start E path t st =
     and_then (call E 3 (in_client (\<lambda>cl.
         let (r, cl) = AddNewDownloadJob (me_fs E) path t (all_files t) ''/tmp/'' (-1) cl in (Ret r, cl))) st)
       (\<lambda>(ret, handle) st.
         if ret \<noteq> ERROR_OK then (Ret (), st)
         else and_then (call E 4 (in_client (StartJob handle)) st) (\<lambda>ret st.
           if ret \<noteq> ERROR_OK then (Ret (), st) else call E 5 wait_for_others st))"

definition download_main :: "main_env \<Rightarrow> string \<Rightarrow> main_state \<Rightarrow> (int, main_state) result" where
  "download_main E path st =
     (let st = st\<lparr>ms_history_file_path := ''/tmp/download.history'',
                 ms_clientid := ''0123456789012345678901234567890123456789''\<rparr>
      in and_then (call E 0 (login E) st) (\<lambda>ret st.
        if ret \<noteq> ERROR_OK then (Ret EXIT_TEMPFAIL, st)
        else and_then (call E 1 (in_client (ReloadJobHistory (me_fs E) (ms_history_file_path st))) st) (\<lambda>_ st.
        and_then (call E 2 (parse E path) st) (\<lambda>(ret, torrent) st.
        case torrent of
          None \<Rightarrow> (Ret (retcode_value ret), st)
        | Some t \<Rightarrow>
            and_then (if HasThisTorrent (to_torrentid t) (ms_client st) then (Ret (), st)
                      else add_and_start E path t st) (\<lambda>_ st.
            and_then (call E 6 (logout E) st) (\<lambda>_ st. (Ret EXIT_OK, st)))))))"

section \<open>Publishing: two arguments\<close>

definition make :: "main_env \<Rightarrow> string \<Rightarrow> string \<Rightarrow> main_state \<Rightarrow> (retcode, main_state) result" where
  "make E resource_path torrent_path st =
     (let (r, eng, d) = MakeTorrent (me_fs E) (me_hash E) (ms_clientid st) (me_current_time E)
            (me_tree E resource_path) resource_path torrent_path (2 ^ 20) 1 (tracker_ip @ '':'' @ dec TRACKER_PORT)
            (ms_engine st, cl_disk (ms_client st))
      in (r, st\<lparr>ms_engine := eng, ms_client := (ms_client st)\<lparr>cl_disk := d\<rparr>\<rparr>))"

definition add_and_resume :: "main_env \<Rightarrow> string \<Rightarrow> string \<Rightarrow> torrent \<Rightarrow> main_state \<Rightarrow> (unit, main_state) result" where
  "add_and_resume E torrent_path top_path t st =
     and_then (call E 4 (in_client (AddNewUploadJob (me_fs E) (app_of E st) torrent_path top_path t (ap_junk (me_app E)))) st)
       (\<lambda>(ret, handle) st.
         if ret = ERROR_OK
         then call E 5 (in_client (\<lambda>cl. let (r, cl) = ResumeJob handle cl in (Ret (), cl))) st
         else (Ret (), st))"

definition upload_main :: "main_env \<Rightarrow> string \<Rightarrow> string \<Rightarrow> main_state \<Rightarrow> (int, main_state) result" where
  "upload_main E resource_path torrent_path st =
     (let st = st\<lparr>ms_LOCAL_PORT := 9024, ms_history_file_path := ''/tmp/upload.history''\<rparr>;
          top_path = parent_dir resource_path
      in and_then (call E 0 (login E) st) (\<lambda>_ st.
        and_then (call E 1 (in_client (ReloadJobHistory (me_fs E) (ms_history_file_path st))) st) (\<lambda>_ st.
        and_then (call E 2 (make E resource_path torrent_path) st) (\<lambda>_ st.
        and_then (call E 3 (parse E torrent_path) st) (\<lambda>(ret, torrent) st.
        case torrent of
          None \<Rightarrow> (Ret EXIT_TEMPFAIL, st)
        | Some t \<Rightarrow>
            and_then (add_and_resume E torrent_path top_path t st) (\<lambda>_ st.
            case me_server_socket E (ms_LOCAL_PORT st) of
              Throw e \<Rightarrow> (Throw e, st)
            | Ret _ \<Rightarrow>
                and_then (call E 6 wait_for_others st) (\<lambda>_ st.
                and_then (call E 7 (logout E) st) (\<lambda>_ st. (Ret EXIT_OK, st)))))))))"

text \<open>\<open>main\<close>, which takes no other number of arguments than one or two.\<close>

definition client_main :: "main_env \<Rightarrow> string list \<Rightarrow> main_state \<Rightarrow> (int, main_state) result" where
  "client_main E args st =
     (if ms_init_error st then (Ret EXIT_TEMPFAIL, st)
      else case args of
          [path] \<Rightarrow> download_main E path st
        | [resource_path, torrent_path] \<Rightarrow> upload_main E resource_path torrent_path st
        | _ \<Rightarrow> (Ret EXIT_OK, st))"

section \<open>uninitialize\<close>

text \<open>
  A join with a time limit, repeated until the thread has ended: a round in which it has not is what
  the other threads do in that second, after which the condition is signalled again.  A list of
  rounds that is used up before the thread has ended gives \<open>None\<close>.
\<close>

datatype join_round = Joined | Waited "cool_client \<Rightarrow> cool_client"

fun join_thread :: "join_round list \<Rightarrow> main_state \<Rightarrow> (main_state \<times> nat) option" where
  "join_thread [] st = None"
| "join_thread (Joined # rounds) st = Some (st, 0)"
| "join_thread (Waited f # rounds) st =
     map_option (\<lambda>(st, signals). (st, Suc signals))
       (join_thread rounds (st\<lparr>ms_client := f (ms_client st)\<rparr>))"

definition uninitialize ::
    "main_env \<Rightarrow> join_round list \<Rightarrow> join_round list \<Rightarrow> main_state \<Rightarrow> (unit, main_state) result option" where
  "uninitialize E collector reporter st =
     (let st = st\<lparr>ms_exiting := True\<rparr>
      in case in_client (SaveJobHistory (me_fs E) (ms_history_file_path st)) st of
           (Throw e, st) \<Rightarrow> Some (Throw e, st)
         | (Ret _, st) \<Rightarrow>
             (case join_thread collector st of
                None \<Rightarrow> None
              | Some (st, _) \<Rightarrow>
                  (case join_thread reporter st of
                     None \<Rightarrow> None
                   | Some (st, _) \<Rightarrow> Some (Ret (), st))))"

text \<open>
  \<open>JobInfoCollector::run\<close>: a timer that wakes the client every second, from the start until the
  condition is signalled; what a call-back throws stays in the timer's thread.
\<close>

primrec collector_run :: "nat \<Rightarrow> cool_client \<Rightarrow> cool_client" where
  "collector_run 0 cl = cl"
| "collector_run (Suc wakeups) cl = collector_run wakeups (snd (onJobInfoCollectorWakeUp cl))"


section \<open>Lemmas: main as a run of the client\<close>

text \<open>Steps of the client with whatever client id and port it has at the time.\<close>

definition client_run :: "file_store \<Rightarrow> cool_client \<Rightarrow> cool_client \<Rightarrow> bool" where
  "client_run fs = (\<lambda>cl cl'. \<exists>ap. client_step fs ap cl cl')\<^sup>*\<^sup>*"

lemma client_run_refl [simp]: "client_run fs cl cl"
  by (simp add: client_run_def)

lemma client_run_trans: "client_run fs a b \<Longrightarrow> client_run fs b c \<Longrightarrow> client_run fs a c"
  unfolding client_run_def by (rule rtranclp_trans)

lemma client_run_step: "client_step fs ap cl cl' \<Longrightarrow> client_run fs cl cl'"
  unfolding client_run_def by blast

lemma client_run_inv: "client_run fs cl cl' \<Longrightarrow> table_inv cl \<Longrightarrow> table_inv cl'"
  unfolding client_run_def by (induction rule: rtranclp_induct) (auto intro: table_inv_step)

lemma client_run_life: "client_run fs cl cl' \<Longrightarrow> table_inv cl \<Longrightarrow> life_step\<^sup>*\<^sup>* (life_of cl) (life_of cl')"
  unfolding client_run_def
proof (induction rule: rtranclp_induct)
  case (step b c)
  then have "table_inv b" using client_run_inv unfolding client_run_def by blast
  with step show ?case using life_of_step by (meson rtranclp_trans)
qed simp

text \<open>A call whose effect on the client is a run, from a state or after any other call.\<close>

definition runs :: "file_store \<Rightarrow> main_state \<Rightarrow> ('a, main_state) result \<Rightarrow> bool" where
  "runs fs st r \<longleftrightarrow> client_run fs (ms_client st) (ms_client (snd r))"

definition others_run :: "main_env \<Rightarrow> bool" where
  "others_run E \<longleftrightarrow> (\<forall>k cl. client_run (me_fs E) cl (me_others E k cl))"

lemma runs_same [simp]: "ms_client st' = ms_client st \<Longrightarrow> runs fs st (r, st')"
  by (simp add: runs_def)

lemma runs_and_then:
  "runs fs st r \<Longrightarrow> (\<And>x s. runs fs s (f x s)) \<Longrightarrow> runs fs st (and_then r f)"
  by (cases r; cases "fst r") (auto simp: runs_def intro: client_run_trans)

lemma runs_call:
  assumes "others_run E" and "\<And>st. runs (me_fs E) st (f st)"
  shows "runs (me_fs E) st (call E k f st)"
  using assms client_run_trans unfolding call_def runs_def others_run_def
  by (metis main_state.select_convs(1) main_state.surjective main_state.update_convs(1))

lemma runs_in_client: "client_step fs ap (ms_client st) (snd (f (ms_client st))) \<Longrightarrow> runs fs st (in_client f st)"
  by (auto simp: runs_def in_client_def split: prod.splits intro: client_run_step)

lemma runs_in_manager: "runs fs st (in_client (in_manager f) st)"
  by (auto simp: in_manager_def split: prod.splits intro!: runs_in_client client_step.traffic)

lemma runs_login: "runs fs st (login E st)" and runs_logout: "runs fs st (logout E st)"
  by (simp_all add: login_def logout_def runs_in_manager)

lemma runs_make: "runs fs st (make E p t st)"
  by (auto simp: make_def Let_def runs_def split: prod.splits intro: client_run_step client_step.written)

lemma runs_add_and_start: "others_run E \<Longrightarrow> runs (me_fs E) st (add_and_start E path t st)"
  unfolding add_and_start_def
proof (intro runs_and_then runs_call)
  fix st
  let ?f = "\<lambda>cl. let (r, cl) = AddNewDownloadJob (me_fs E) path t (all_files t) ''/tmp/'' (-1) cl in (Ret r, cl)"
  have "snd (?f cl) = snd (AddNewDownloadJob (me_fs E) path t (all_files t) ''/tmp/'' (-1) cl)" for cl
    by (simp add: split_def Let_def)
  then show "runs (me_fs E) st (in_client ?f st)"
    by (intro runs_in_client) (simp add: client_step.add_download)
qed (auto simp: split_def wait_for_others_def intro!: runs_and_then runs_call runs_in_client client_step.start)

lemma runs_resume: "runs fs st (in_client (\<lambda>cl. let (r, cl) = ResumeJob h cl in (Ret (), cl)) st)"
proof (rule runs_in_client)
  fix ap
  have "snd (let (r, cl) = ResumeJob h cl in (Ret (), cl)) = snd (ResumeJob h cl)" for cl
    by (simp add: split_def Let_def)
  then show "client_step fs ap (ms_client st) (snd (let (r, cl) = ResumeJob h (ms_client st) in (Ret (), cl)))"
    by (simp add: client_step.resume)
qed

lemma runs_add_upload: "runs fs st (in_client (AddNewUploadJob fs ap path top_path t h) st)"
  by (rule runs_in_client) (rule client_step.add_upload)

lemma runs_add_and_resume:
  assumes "others_run E"
  shows "runs (me_fs E) st (add_and_resume E path top_path t st)"
  unfolding add_and_resume_def
  by (rule runs_and_then) (auto intro!: runs_call [OF assms] runs_resume [unfolded Let_def] runs_add_upload
      split: prod.split)

lemma runs_reload: "runs fs st (in_client (ReloadJobHistory fs filename) st)"
  by (intro runs_in_client) (rule client_step.reload)

lemmas runs_intros = runs_and_then runs_call runs_login runs_logout runs_make runs_add_and_start
  runs_add_and_resume runs_reload

lemma runs_main: "others_run E \<Longrightarrow> runs (me_fs E) st (client_main E args st)"
proof -
  assume others: "others_run E"
  have from_update: "runs fs st r" if "runs fs st' r" "ms_client st' = ms_client st" for fs st st' and r :: "(int, main_state) result"
    using that by (simp add: runs_def)
  have "runs (me_fs E) st (download_main E path st)" for path st
    unfolding download_main_def Let_def
    by (rule from_update [where st' = "st\<lparr>ms_history_file_path := ''/tmp/download.history'',
        ms_clientid := ''0123456789012345678901234567890123456789''\<rparr>"])
      (auto simp: split_def parse_def intro!: runs_intros others split: option.splits)
  moreover have "runs (me_fs E) st (upload_main E resource path st)" for resource path st
    unfolding upload_main_def Let_def
    by (rule from_update [where st' = "st\<lparr>ms_LOCAL_PORT := 9024, ms_history_file_path := ''/tmp/upload.history''\<rparr>"])
      (auto simp: split_def parse_def wait_for_others_def intro!: runs_intros others split: option.splits outcome.splits)
  ultimately show ?thesis
    by (auto simp: client_main_def split: list.splits)
qed

lemma join_thread_runs:
  "join_thread rounds st = Some (st', n) \<Longrightarrow> \<forall>f. Waited f \<in> set rounds \<longrightarrow> (\<forall>cl. client_run fs cl (f cl)) \<Longrightarrow>
     client_run fs (ms_client st) (ms_client st')"
proof (induction rounds arbitrary: st n)
  case (Cons r rounds)
  then show ?case
  proof (cases r)
    case (Waited f)
    with Cons.prems obtain k where "join_thread rounds (st\<lparr>ms_client := f (ms_client st)\<rparr>) = Some (st', k)" by auto
    from Cons.IH [OF this] Cons.prems(2) Waited show ?thesis by (auto intro: client_run_trans)
  qed simp
qed simp


section \<open>Lemmas: threads, torrents and files of a run\<close>

lemma in_client_result: "in_client f st = (r, st') \<longleftrightarrow> (\<exists>cl. f (ms_client st) = (r, cl) \<and> st' = st\<lparr>ms_client := cl\<rparr>)"
  by (auto simp: in_client_def split: prod.splits)

lemma table_paths_known:
  assumes "table_inv cl"
  shows "\<forall>h \<in> fst ` set (cl_jobs cl). sm_find (cl_torrent_path_map cl) h \<noteq> None"
proof
  fix h assume "h \<in> fst ` set (cl_jobs cl)"
  then have "views (cl_jobs cl) h \<noteq> None"
    using dom_sm_find [of "cl_jobs cl"] by (auto simp: views_def dom_def)
  then have "tids cl h \<noteq> None" by (auto simp: tids_def all_views_def)
  with assms show "sm_find (cl_torrent_path_map cl) h \<noteq> None" unfolding table_inv_def by blast
qed

lemma SaveJobHistory_Throw:
  assumes "SaveJobHistory fs filename cl = (Throw e, cl')" and "table_inv cl"
  shows "e = NullPointer"
proof -
  from assms(1) obtain js where "save_jobs (cl_torrent_path_map cl) (cl_jobs cl) = (Throw e, js)"
    by (auto simp: SaveJobHistory_def Let_def split: prod.splits outcome.splits option.splits if_splits)
  from save_jobs_Throw [OF this table_paths_known [OF assms(2)]] show ?thesis .
qed

text \<open>What reloading a history keeps and adds, even when it stops half-way.\<close>

definition reloads :: "cool_client \<Rightarrow> cool_client \<Rightarrow> bool" where
  "reloads cl cl' \<longleftrightarrow> cl_threads cl' = cl_threads cl \<and> cl_torrent_ids cl \<subseteq> cl_torrent_ids cl' \<and>
     disk_grew (cl_disk cl) (cl_disk cl')"

lemma reloads_refl [simp]: "reloads cl cl"
  by (simp add: reloads_def disk_grew_refl)

lemma reloads_trans: "reloads a b \<Longrightarrow> reloads b c \<Longrightarrow> reloads a c"
  by (auto simp: reloads_def intro: disk_grew_trans)

lemma ReloadOneJob_reloads:
  assumes "ReloadOneJob fs t hi cl = (r, cl')"
  shows "reloads cl cl'" and "r = Ret ret \<Longrightarrow> to_torrentid t \<in> cl_torrent_ids cl'"
proof -
  let ?cl = "RegisterTorrent (to_torrentid t) cl"
  obtain info cl1 where new: "new_job_info fs t (hi_localtoppath hi) (history_needs hi) ?cl = (info, cl1)"
    by (rule prod.exhaust)
  note grew = new_job_info_grew [OF new]
  have cl1: "cl_threads cl1 = cl_threads cl" "cl_torrent_ids cl1 = insert (to_torrentid t) (cl_torrent_ids cl)"
    by (subst grew(3), simp add: RegisterTorrent_def)+
  have "cl' = cl \<and> r = Throw AssertionViolation \<or> (cl_threads cl' = cl_threads cl1 \<and> cl_torrent_ids cl' = cl_torrent_ids cl1 \<and>
      cl_disk cl' = cl_disk cl1)"
    using assms new by (auto simp: ReloadOneJob_def check_def Let_def AddNewJob_def split: if_splits outcome.splits)
  moreover have "disk_grew (cl_disk cl) (cl_disk cl1)" using grew(1) by (simp add: RegisterTorrent_def)
  ultimately show "reloads cl cl'" "r = Ret ret \<Longrightarrow> to_torrentid t \<in> cl_torrent_ids cl'"
    using cl1 by (auto simp: reloads_def disk_grew_refl)
qed

lemma reload_jobs_reloads:
  assumes "reload_jobs fs hs cl = (r, cl')"
  shows "reloads cl cl' \<and> (\<forall>h t ret. r = Ret ret \<longrightarrow> h \<in> set hs \<longrightarrow>
    ParseTorrent fs (hi_torrentpath h) (cl_disk cl) = (ERROR_OK, Some t) \<longrightarrow> to_torrentid t \<in> cl_torrent_ids cl')"
  using assms
proof (induction hs arbitrary: cl)
  case (Cons h hs)
  show ?case
  proof (cases "\<exists>t. ParseTorrent fs (hi_torrentpath h) (cl_disk cl) = (ERROR_OK, Some t)")
    case True
    then obtain t where t: "ParseTorrent fs (hi_torrentpath h) (cl_disk cl) = (ERROR_OK, Some t)" by blast
    obtain q cl1 where one: "ReloadOneJob fs t h cl = (q, cl1)" by fastforce
    note first = ReloadOneJob_reloads [OF one]
    show ?thesis
    proof (cases q)
      case (Ret ret)
      with one t Cons.prems have "reload_jobs fs hs cl1 = (r, cl')" by simp
      note rest = Cons.IH [OF this]
      have "disk_grew (cl_disk cl) (cl_disk cl1)" using first(1) by (simp add: reloads_def)
      then have kept: "to_torrentid t' \<in> cl_torrent_ids cl'" if "r = Ret u" "x \<in> set hs"
        "ParseTorrent fs (hi_torrentpath x) (cl_disk cl) = (ERROR_OK, Some t')" for x t' u
        using rest that ParseTorrent_grew by blast
      moreover have "to_torrentid t \<in> cl_torrent_ids cl'"
        using rest first(2) [OF Ret] by (auto simp: reloads_def)
      moreover have "reloads cl cl'" using rest first(1) reloads_trans by blast
      ultimately show ?thesis using t by auto
    next
      case (Throw e)
      with one t Cons.prems first(1) show ?thesis by auto
    qed
  next
    case False
    with Cons.prems have "reload_jobs fs hs cl = (r, cl')"
      by (auto split: prod.splits retcode.splits option.splits)
    from Cons.IH [OF this] False show ?thesis by auto
  qed
qed auto

section \<open>Properties\<close>


text \<open>
  C28: a download that was interrupted is never taken up again: when the history on the disk lists the
  torrent, \<open>main\<close> finds it registered after the reload and starts nothing.  However the calls to the
  tracker end, no thread runs a job when \<open>main\<close> is through.
\<close>

theorem restart_never_resumes:
  assumes "cl_threads (ms_client st) = []" and "\<not> ms_init_error st"
    and "\<forall>k cl. cl_threads cl = [] \<longrightarrow> reloads cl (me_others E k cl)"
    and "\<not> d_refused (cl_disk (ms_client st)) ''/tmp/download.history''"
    and "d_files (cl_disk (ms_client st)) ''/tmp/download.history'' = Some bs"
    and "fs_get_history (me_fs E) bs = Some hs" and "hi \<in> set hs"
    and "ParseTorrent (me_fs E) (hi_torrentpath hi) (cl_disk (ms_client st)) = (ERROR_OK, Some t)"
    and "ParseTorrent (me_fs E) path (cl_disk (ms_client st)) = (ERROR_OK, Some t')"
    and "to_torrentid t' = to_torrentid t"
    and "client_main E [path] st = (r, st')"
  shows "cl_threads (ms_client st') = []"
proof -
  let ?st = "st\<lparr>ms_history_file_path := ''/tmp/download.history'',
    ms_clientid := ''0123456789012345678901234567890123456789''\<rparr>"
  define good where "good s \<longleftrightarrow> reloads (ms_client st) (ms_client s)" for s :: main_state
  have idle: "cl_threads (ms_client s) = []" if "good s" for s
    using that assms(1) by (simp add: good_def reloads_def)
  have others: "good (s\<lparr>ms_client := me_others E k (ms_client s)\<rparr>)" if "good s" for s k
    using that idle [OF that] assms(3) by (auto simp: good_def intro: reloads_trans)
  have traffic: "good (snd (in_client (in_manager f) s))" if "good s"
    for f :: "sock_manager \<Rightarrow> (retcode, sock_manager) result" and s
    using that by (auto simp: in_client_def in_manager_def good_def reloads_def split: prod.splits)
  obtain q0 s0 where login: "call E 0 (login E) ?st = (q0, s0)" by fastforce
  have "good ?st" by (simp add: good_def)
  then have s0: "good s0" "ms_history_file_path s0 = ''/tmp/download.history''"
    using login traffic [OF others [of ?st 0], of "LoginTracker (app_of E (?st\<lparr>ms_client := me_others E 0 (ms_client ?st)\<rparr>)) tracker_ip TRACKER_PORT"]
    by (auto simp: call_def login_def in_client_def split: prod.splits)
  obtain q1 s1 where reload: "call E 1 (in_client (ReloadJobHistory (me_fs E) (ms_history_file_path s0))) s0 = (q1, s1)"
    by fastforce
  let ?c0 = "me_others E 1 (ms_client s0)"
  have c0: "good (s0\<lparr>ms_client := ?c0\<rparr>)" by (rule others [OF s0(1)])
  then have grown: "disk_grew (cl_disk (ms_client st)) (cl_disk ?c0)" by (simp add: good_def reloads_def)
  then have open_history: "open_in ''/tmp/download.history'' (cl_disk ?c0) = Some bs"
    using assms(4,5) by (simp add: open_in_def disk_grew_def)
  have jobs: "reload_jobs (me_fs E) hs ?c0 = (q1, ms_client s1)" and s1: "s1 = s0\<lparr>ms_client := ms_client s1\<rparr>"
    using reload s0(2) open_history assms(6) by (auto simp: call_def in_client_result ReloadJobHistory_def)
  note reloaded = reload_jobs_reloads [OF jobs]
  have g1: "good s1" using c0 reloaded by (auto simp: good_def intro: reloads_trans)
  have known: "to_torrentid t \<in> cl_torrent_ids (ms_client s1)" if "q1 = Ret u" for u
    using reloaded that assms(7) ParseTorrent_grew [OF assms(8) grown] by blast
  let ?s2 = "s1\<lparr>ms_client := me_others E 2 (ms_client s1)\<rparr>"
  have g2: "good ?s2" by (rule others [OF g1])
  have parse: "call E 2 (parse E path) s1 = (Ret (ERROR_OK, Some t'), ?s2)"
    using ParseTorrent_grew [OF assms(9)] g2 by (simp add: call_def parse_def good_def reloads_def)
  have has: "HasThisTorrent (to_torrentid t') (ms_client ?s2)" if "q1 = Ret u" for u
    using known [OF that] assms(3,10) idle [OF g1] by (auto simp: HasThisTorrent_def reloads_def)
  obtain q3 s3 where logout: "call E 6 (logout E) ?s2 = (q3, s3)" by fastforce
  have g3: "good s3"
    using logout traffic [OF others [OF g2, of 6], of "LogoutTracker (app_of E (?s2\<lparr>ms_client := me_others E 6 (ms_client ?s2)\<rparr>)) tracker_ip TRACKER_PORT"]
    by (simp add: call_def logout_def)
  have "st' = s0 \<or> st' = s1 \<or> st' = s3"
    using assms(2,11) login reload parse logout has
    by (cases q0; cases q1; cases q3) (auto simp: client_main_def download_main_def Let_def split: if_splits)
  with s0(1) g1 g3 idle show ?thesis by blast
qed

text \<open>
  C29: a failed login erases the history: \<open>main\<close> has set the path of the history file when the login
  fails, but not read it; \<open>uninitialize\<close> then writes the empty job table over it.
\<close>

theorem failed_login_erases_history:
  assumes "\<not> ms_init_error st" and "cl_jobs (ms_client st) = []"
    and "\<forall>k. me_others E k (ms_client st) = ms_client st"
    and "ap_resolve (me_app E) tracker_ip TRACKER_PORT = Ret sa"
    and "lm_connects (cl_sockManager (ms_client st)) = None # ev"
    and "fs_put_history (me_fs E) [] = Some bs" and "fs_get_history (me_fs E) bs = Some []"
    and "\<not> d_refused (cl_disk (ms_client st)) ''/tmp/download.history''"
  shows "\<exists>st1 st2. client_main E [path] st = (Ret EXIT_TEMPFAIL, st1) \<and>
    uninitialize E [Joined] [Joined] st1 = Some (Ret (), st2) \<and>
    d_files (cl_disk (ms_client st2)) ''/tmp/download.history'' = Some bs \<and>
    (\<forall>m. cl_jobs (snd (ReloadJobHistory (me_fs E) ''/tmp/download.history'' (new_client m (cl_disk (ms_client st2))))) = [])"
proof -
  let ?cl = "(ms_client st)\<lparr>cl_sockManager := (cl_sockManager (ms_client st))\<lparr>lm_connects := ev\<rparr>\<rparr>"
  let ?st1 = "st\<lparr>ms_history_file_path := ''/tmp/download.history'',
    ms_clientid := ''0123456789012345678901234567890123456789'', ms_client := ?cl\<rparr>"
  have "client_main E [path] st = (Ret EXIT_TEMPFAIL, ?st1)"
    using assms(1,3-5)
    by (simp add: client_main_def download_main_def Let_def call_def login_def in_client_def in_manager_def
        LoginTracker_def connect_tracker_def make_connection_to_def make_connection_def app_of_def)
  moreover
  let ?d = "put_file ''/tmp/download.history'' bs (snd (open_out ''/tmp/download.history'' (cl_disk (ms_client st))))"
  let ?st2 = "?st1\<lparr>ms_exiting := True, ms_client := ?cl\<lparr>cl_disk := ?d, cl_jobs := []\<rparr>\<rparr>"
  have "uninitialize E [Joined] [Joined] ?st1 = Some (Ret (), ?st2)"
    using assms(2,6,8)
    by (simp add: uninitialize_def in_client_def SaveJobHistory_def open_out_def put_file_def)
  moreover have "d_files ?d ''/tmp/download.history'' = Some bs" by (simp add: put_file_def)
  moreover have "cl_jobs (snd (ReloadJobHistory (me_fs E) ''/tmp/download.history'' (new_client m ?d))) = []" for m
    using assms(7,8) by (simp add: ReloadJobHistory_def open_in_def put_file_def open_out_def new_client_def)
  ultimately show ?thesis by (intro exI [of _ ?st1] exI [of _ ?st2]) simp
qed

section \<open>Witnesses\<close>

definition demo_env :: main_env where
  "demo_env = \<lparr>me_fs = full_store, me_hash = (\<lambda>bs. ''0123''), me_app = demo_app, me_message_port = Ret 9025,
     me_history_path = None, me_current_dir = ''/home'', me_node_id = [1, 2, 3, 4, 5, 6],
     me_manager = Some (new_sock_manager [None]), me_tree = (\<lambda>_. None), me_current_time = ''now'',
     me_server_socket = (\<lambda>_. Ret ()), me_others = (\<lambda>_ cl. cl)\<rparr>"

definition demo_engine :: engine where "demo_engine = []"

text \<open>The disk as a first run left it: the torrent, and a history that lists it.\<close>

definition old_disk :: disk where
  "old_disk = empty_disk\<lparr>d_files := [''/t'' \<mapsto> [1], ''/tmp/download.history'' \<mapsto> [0]]\<rparr>"

definition started :: "disk \<Rightarrow> main_state" where
  "started d = \<lparr>ms_client = new_client (new_sock_manager [None]) d, ms_LOCAL_PORT = 9025, ms_clientid = ''me'',
     ms_history_file_path = ''/home/history'', ms_exiting = False, ms_init_error = False,
     ms_engine = demo_engine\<rparr>"


theorem restart_never_resumes_witness:
  "cl_threads (ms_client (snd (client_main demo_env [''/t''] (started old_disk)))) = []"
proof -
  have parse: "ParseTorrent full_store ''/t'' old_disk = (ERROR_OK, Some small_torrent)"
    by (simp add: ParseTorrent_def open_in_def old_disk_def empty_disk_def full_store_def demo_store_def)
  show ?thesis
    by (rule restart_never_resumes [where E = demo_env and st = "started old_disk" and bs = "[0]"
          and hs = "[full_history]" and hi = full_history and t = small_torrent and t' = small_torrent and path = "''/t''"
          and r = "fst (client_main demo_env [''/t''] (started old_disk))"])
      (simp_all add: demo_env_def started_def new_client_def full_history_def parse,
        simp_all add: old_disk_def empty_disk_def full_store_def full_history_def)
qed

theorem failed_login_erases_history_witness:
  "\<exists>st1. client_main (demo_env\<lparr>me_fs := demo_store\<rparr>) [''/t''] (started old_disk) = (Ret EXIT_TEMPFAIL, st1)"
proof -
  have "\<exists>st1 st2. client_main (demo_env\<lparr>me_fs := demo_store\<rparr>) [''/t''] (started old_disk) = (Ret EXIT_TEMPFAIL, st1) \<and>
    uninitialize (demo_env\<lparr>me_fs := demo_store\<rparr>) [Joined] [Joined] st1 = Some (Ret (), st2) \<and>
    d_files (cl_disk (ms_client st2)) ''/tmp/download.history'' = Some [0] \<and>
    (\<forall>m. cl_jobs (snd (ReloadJobHistory (me_fs (demo_env\<lparr>me_fs := demo_store\<rparr>)) ''/tmp/download.history''
      (new_client m (cl_disk (ms_client st2))))) = [])"
    by (rule failed_login_erases_history [where sa = "''127.0.0.1:9025''" and ev = "[]"])
      (simp_all add: demo_env_def started_def new_client_def new_sock_manager_def demo_app_def demo_resolve_def
        tracker_ip_def old_disk_def empty_disk_def demo_store_def)
  then show ?thesis by blast
qed

end
