(* ===== verification/ClientHandler.thy ===== *)
theory ClientHandler
  imports MakeTorrent ClientTable
begin

text \<open>
  \<open>client/src/client_connection_handler.cc\<close>: the serving side of a client.  One handler belongs to
  one accepted connection; it answers a hand-shake with the bitmap of a file and an upload request
  with a return code, and then starts the upload.  Its state is its socket, the flag
  \<open>last_request_upload\<close>, the task it has made and not yet started, whether it has deleted itself,
  the client it asks for jobs and the uploads the client's upload manager runs.
\<close>

record peer_handler =
  ph_sock :: sock
  ph_last_request_upload :: bool
  ph_pTask :: "upload_task option"
  ph_deleted :: bool
  ph_client :: cool_client
  ph_uploads :: "upload_task list"

definition new_peer_handler :: "sock \<Rightarrow> cool_client \<Rightarrow> upload_task list \<Rightarrow> peer_handler" where
  "new_peer_handler s cl ups = \<lparr>ph_sock = s, ph_last_request_upload = False, ph_pTask = None,
     ph_deleted = False, ph_client = cl, ph_uploads = ups\<rparr>"

text \<open>
  The reply's code is \<open>ERROR_UNKNOWN\<close> until the task is made.  The chunk number is an \<open>int64\<close> of
  the message and an \<open>int\<close> of the handler.  \<open>peer\<close> is what \<open>peerAddress()\<close> gives on the socket.
\<close>

definition HandleUploadRequest ::
    "string outcome \<Rightarrow> message option \<Rightarrow> cool_client
      \<Rightarrow> (retcode \<times> upload_reply \<times> upload_task option) outcome" where
  "HandleUploadRequest peer msg cl =
     (let reply = \<lparr>up_returncode = Some (retcode_value ERROR_UNKNOWN)\<rparr>
      in case cast_upload_request msg of
        None \<Rightarrow> Ret (ERROR_PROTO_TYPE_ERROR, reply, None)
      | Some req \<Rightarrow>
          let fileid = ur_fileid req; chunk_pos = to_i32 (ur_chunknumber req)
          in (case GetJobByFileid fileid cl of
             None \<Rightarrow> Ret (ERROR_FILE_NOT_EXISTS, reply, None)
           | Some (handle, j) \<Rightarrow>
               let path = get_file fileid (ji_localFileInfo (cj_info j))
               in (case get_one_file_of_same_fileid (ji_torrentInfo (cj_info j)) fileid of
                  Throw e \<Rightarrow> Throw e
                | Ret info \<Rightarrow>
               (case chunk_offset info chunk_pos of
                  Throw e \<Rightarrow> Throw e
                | Ret offset \<Rightarrow>
               (case chunk_size info chunk_pos of
                  Throw e \<Rightarrow> Throw e
                | Ret chunk_sz \<Rightarrow>
                    if path = None \<or> \<not> chunk_sz > 0 then Throw AssertionViolation
                    else map_outcome (\<lambda>t. (ERROR_OK, \<lparr>up_returncode = Some (retcode_value ERROR_OK)\<rparr>, Some t))
                      (upload_task_of peer path offset chunk_sz))))))"

definition no_file_reply :: "shake_hand_msg \<Rightarrow> client_file_info \<Rightarrow> shake_hand_msg" where
  "no_file_reply reply info =
     reply\<lparr>sh_info := Some (info\<lparr>fi_hasfile := Some 0, fi_percentage := Some 0, fi_filebitcount := Some 0\<rparr>)\<rparr>"

definition HandleShakeHand ::
    "string \<Rightarrow> message option \<Rightarrow> cool_client \<Rightarrow> (retcode \<times> shake_hand_msg, cool_client) result" where
  "HandleShakeHand clientid msg cl =
     (case cast_shake_hand msg of
        None \<Rightarrow> (Ret (ERROR_PROTO_TYPE_ERROR, empty_shake_hand), cl)
      | Some req \<Rightarrow>
          let fileid = string_field (fi_fileid (info_field req));
              info = empty_file_info\<lparr>fi_fileid := Some fileid\<rparr>;
              reply = empty_shake_hand\<lparr>sh_clientid := Some clientid, sh_info := Some info\<rparr>
          in (case GetJobByFileid fileid cl of
             None \<Rightarrow> (Ret (ERROR_OK, no_file_reply reply info), cl)
           | Some (handle, j) \<Rightarrow>
               if \<not> has_file fileid (ji_localFileInfo (cj_info j))
               then (Ret (ERROR_OK, no_file_reply reply info), cl)
               else
                 let (bitmap, bm) = sm_get None fileid (bitmap_map (downloadInfo j));
                     j = map_downloadInfo (\<lambda>di. di\<lparr>bitmap_map := bm\<rparr>) j
                 in (case bitmap of
                    None \<Rightarrow> (Throw NullPointer, set_job handle j cl)
                  | Some b \<Rightarrow>
                      let (percentage, pm) = sm_get 0 fileid (percentage_map (downloadInfo j));
                          j = map_downloadInfo (\<lambda>di. di\<lparr>percentage_map := pm\<rparr>) j;
                          info = info\<lparr>fi_hasfile := Some 1, fi_percentage := Some percentage\<rparr>
                      in (map_outcome (\<lambda>info. (ERROR_OK, reply\<lparr>sh_info := Some info\<rparr>))
                            (convert_bitmap_to_transport_format (Some b) info), set_job handle j cl))))"

definition Process :: "app \<Rightarrow> string outcome \<Rightarrow> netpack \<Rightarrow> peer_handler \<Rightarrow> (netpack, peer_handler) result" where
  "Process ap peer req ph =
     (let msg = np_message (ap_pb ap) req
      in if np_payloadType req = PAYLOAD_SHAKE_HAND then
           (case HandleShakeHand (ap_clientid ap) msg (ph_client ph) of
              (Throw e, cl) \<Rightarrow> (Throw e, ph\<lparr>ph_client := cl\<rparr>)
            | (Ret (ret, sh), cl) \<Rightarrow>
                (Ret (set_message (ap_pb ap) PAYLOAD_SHAKE_HAND (ShakeHandMsg sh) new_netpack),
                 ph\<lparr>ph_client := cl, ph_last_request_upload := False\<rparr>))
         else if np_payloadType req = PAYLOAD_UPLOAD_REQUEST then
           (case HandleUploadRequest peer msg (ph_client ph) of
              Throw e \<Rightarrow> (Throw e, ph)
            | Ret (ret, ur, task) \<Rightarrow>
                let out = set_message (ap_pb ap) PAYLOAD_UPLOAD_REPLY (UploadReplyMsg ur) new_netpack
                in if ret \<noteq> ERROR_OK then (Ret out, ph\<lparr>ph_last_request_upload := True\<rparr>)
                   else check (task \<noteq> None) ph
                     (Ret out, ph\<lparr>ph_pTask := task, ph_last_request_upload := True\<rparr>))
         else (Ret new_netpack, ph))"

text \<open>
  \<open>TaskManager::start\<close> dereferences the task, and throws when the 16 threads of the default pool
  are taken.
\<close>

definition upload_threads :: nat where
  "upload_threads = 16"

definition start_upload :: "peer_handler \<Rightarrow> (unit, peer_handler) result" where
  "start_upload ph =
     (case ph_pTask ph of
        None \<Rightarrow> (Throw NullPointer, ph)
      | Some t \<Rightarrow>
          if length (ph_uploads ph) \<ge> upload_threads then (Throw NoThreadAvailable, ph)
          else (Ret (), ph\<lparr>ph_uploads := ph_uploads ph @ [t], ph_pTask := None\<rparr>))"

definition on_peer_sock ::
    "(sock \<Rightarrow> ('a, sock) result) \<Rightarrow> peer_handler \<Rightarrow> ('a, peer_handler) result" where
  "on_peer_sock f ph = (let (r, s) = f (ph_sock ph) in (r, ph\<lparr>ph_sock := s\<rparr>))"

definition onReadable :: "app \<Rightarrow> string outcome \<Rightarrow> peer_handler \<Rightarrow> (unit, peer_handler) result" where
  "onReadable ap peer ph =
     and_then (on_peer_sock (receive_packet (ap_pb ap) (ap_junk ap) new_netpack) ph) (\<lambda>(ret, req) ph.
       if ret \<noteq> ERROR_OK then (Ret (), ph\<lparr>ph_deleted := True\<rparr>)
       else and_then (Process ap peer req ph) (\<lambda>out ph.
         and_then (on_peer_sock (sendBy (ap_pb ap) out) ph) (\<lambda>ret ph.
           if ret \<noteq> ERROR_OK then
             (Ret (), (if ph_last_request_upload ph then ph\<lparr>ph_pTask := None\<rparr> else ph)\<lparr>ph_deleted := True\<rparr>)
           else if ph_last_request_upload ph then start_upload ph
           else (Ret (), ph))))"

definition onShutdown :: "peer_handler \<Rightarrow> peer_handler" where
  "onShutdown ph = ph\<lparr>ph_deleted := True\<rparr>"

section \<open>Lemmas: one request\<close>

lemma receive_request:
  assumes "request_waiting (ap_pb ap) t msg (ph_sock ph)"
  obtains s' where "on_peer_sock (receive_packet (ap_pb ap) (ap_junk ap) new_netpack) ph =
      (Ret (ERROR_OK, netpack_of (ap_pb ap) t msg), ph\<lparr>ph_sock := s'\<rparr>)"
    and "tx s' = tx (ph_sock ph)" and "tx_ev s' = tx_ev (ph_sock ph)"
    and "np_message (ap_pb ap) (netpack_of (ap_pb ap) t msg) = Some msg"
proof -
  obtain s' where "receiveFrom (ap_pb ap) (ap_junk ap) new_netpack (ph_sock ph) =
      (Ret ERROR_OK, (netpack_of (ap_pb ap) t msg, s'))"
    "tx s' = tx (ph_sock ph)" "tx_ev s' = tx_ev (ph_sock ph)"
    "np_message (ap_pb ap) (netpack_of (ap_pb ap) t msg) = Some msg"
    by (rule receive_waiting [OF assms])
  then show ?thesis by (intro that [of s']) (simp_all add: on_peer_sock_def receive_packet_def)
qed

lemma send_reply:
  assumes "header_codec pb (np_header p)" and "tx_ev (ph_sock ph) = []"
  shows "on_peer_sock (sendBy pb p) ph =
    (Ret ERROR_OK, ph\<lparr>ph_sock := (ph_sock ph)\<lparr>tx := tx (ph_sock ph) @ frame pb p\<rparr>\<rparr>)"
  by (simp add: on_peer_sock_def sendBy_frame [OF assms])

abbreviation upload_reply_pack :: "app \<Rightarrow> retcode \<Rightarrow> netpack" where
  "upload_reply_pack ap ret \<equiv> netpack_of (ap_pb ap) PAYLOAD_UPLOAD_REPLY
     (UploadReplyMsg \<lparr>up_returncode = Some (retcode_value ret)\<rparr>)"

text \<open>An upload request whose reply goes out: what is left is to start the task.\<close>

lemma onReadable_upload:
  assumes "request_waiting (ap_pb ap) PAYLOAD_UPLOAD_REQUEST (UploadRequestMsg req) (ph_sock ph)"
    and "tx_ev (ph_sock ph) = []" and "header_codec (ap_pb ap) (np_header (upload_reply_pack ap code))"
    and "HandleUploadRequest peer (Some (UploadRequestMsg req)) (ph_client ph) =
      Ret (ret, \<lparr>up_returncode = Some (retcode_value code)\<rparr>, task)"
    and "ret = ERROR_OK \<Longrightarrow> task \<noteq> None"
  obtains s' where "tx s' = tx (ph_sock ph) @ frame (ap_pb ap) (upload_reply_pack ap code)"
    and "onReadable ap peer ph = start_upload (ph\<lparr>ph_sock := s',
      ph_pTask := (if ret = ERROR_OK then task else ph_pTask ph), ph_last_request_upload := True\<rparr>)"
proof -
  obtain s1 where recv: "on_peer_sock (receive_packet (ap_pb ap) (ap_junk ap) new_netpack) ph =
      (Ret (ERROR_OK, netpack_of (ap_pb ap) PAYLOAD_UPLOAD_REQUEST (UploadRequestMsg req)), ph\<lparr>ph_sock := s1\<rparr>)"
    and s1: "tx s1 = tx (ph_sock ph)" "tx_ev s1 = tx_ev (ph_sock ph)"
    and msg: "np_message (ap_pb ap) (netpack_of (ap_pb ap) PAYLOAD_UPLOAD_REQUEST (UploadRequestMsg req))
      = Some (UploadRequestMsg req)"
    by (rule receive_request [OF assms(1)])
  let ?ph = "ph\<lparr>ph_sock := s1, ph_pTask := (if ret = ERROR_OK then task else ph_pTask ph),
    ph_last_request_upload := True\<rparr>"
  have "Process ap peer (netpack_of (ap_pb ap) PAYLOAD_UPLOAD_REQUEST (UploadRequestMsg req)) (ph\<lparr>ph_sock := s1\<rparr>)
      = (Ret (upload_reply_pack ap code), ?ph)"
    using assms(4,5) msg
    by (cases "ret = ERROR_OK") (auto simp: Process_def set_message_eq payload_defs Let_def)
  moreover have "on_peer_sock (sendBy (ap_pb ap) (upload_reply_pack ap code)) ?ph = (Ret ERROR_OK,
      ?ph\<lparr>ph_sock := s1\<lparr>tx := tx s1 @ frame (ap_pb ap) (upload_reply_pack ap code)\<rparr>\<rparr>)"
    using send_reply [of "ap_pb ap" "upload_reply_pack ap code" ?ph] assms(2,3) s1 by simp
  ultimately have run: "onReadable ap peer ph = start_upload
      (?ph\<lparr>ph_sock := s1\<lparr>tx := tx s1 @ frame (ap_pb ap) (upload_reply_pack ap code)\<rparr>\<rparr>)"
    using recv by (simp add: onReadable_def)
  have order: "?ph\<lparr>ph_sock := x\<rparr> = ph\<lparr>ph_sock := x, ph_pTask := (if ret = ERROR_OK then task else ph_pTask ph),
      ph_last_request_upload := True\<rparr>" for x by (cases ph) simp
  show ?thesis
    by (rule that [OF _ run [unfolded order]]) (simp add: s1(1))
qed

text \<open>The task that is made for chunk \<open>n\<close> of a file.\<close>

definition chunk_upload :: "torrent_file \<Rightarrow> string \<Rightarrow> nat \<Rightarrow> upload_task" where
  "chunk_upload f path n = \<lparr>ut_file = Some path,
     ut_offset = word_of_int (ck_size (tf_chunk f ! 0)) * word_of_int (int n),
     ut_chunk_size = ck_size (tf_chunk f ! n)\<rparr>"

lemma HandleUploadRequest_task:
  assumes "GetJobByFileid (ur_fileid req) cl = Some (h, j)"
    and "get_file (ur_fileid req) (ji_localFileInfo (cj_info j)) = Some path"
    and "get_one_file_of_same_fileid (ji_torrentInfo (cj_info j)) (ur_fileid req) = Ret (torrent_file_info_of f)"
    and "ur_chunknumber req = int n" and "n < length (tf_chunk f)" and "n < 2 ^ 31"
    and "0 < ck_size (tf_chunk f ! n)" and "peer = Ret a"
  shows "HandleUploadRequest peer (Some (UploadRequestMsg req)) cl =
    Ret (ERROR_OK, \<lparr>up_returncode = Some (retcode_value ERROR_OK)\<rparr>, Some (chunk_upload f path n))"
proof -
  have n: "to_i32 (ur_chunknumber req) = int n" "tf_chunk f \<noteq> []" using assms(4-6) by auto
  with assms show ?thesis
    by (simp add: HandleUploadRequest_def Let_def chunk_offset_def chunk_size_def chunk_get_def
        torrent_file_info_of_def upload_task_of_def chunk_upload_def)
qed

section \<open>Properties\<close>


text \<open>
  An upload request that fails, for a file no job has, is still taken for one that made a task:
  the peer gets its \<open>ERROR_UNKNOWN\<close>, and then \<open>onReadable\<close> starts the task pointer, which is null.
\<close>

theorem failed_upload_request_starts_null:
  assumes "request_waiting (ap_pb ap) PAYLOAD_UPLOAD_REQUEST (UploadRequestMsg req) (ph_sock ph)"
    and "tx_ev (ph_sock ph) = []" and "header_codec (ap_pb ap) (np_header (upload_reply_pack ap ERROR_UNKNOWN))"
    and "GetJobByFileid (ur_fileid req) (ph_client ph) = None" and "ph_pTask ph = None"
  shows "\<exists>ph'. onReadable ap peer ph = (Throw NullPointer, ph') \<and> ph_uploads ph' = ph_uploads ph \<and>
    tx (ph_sock ph') = tx (ph_sock ph) @ frame (ap_pb ap) (upload_reply_pack ap ERROR_UNKNOWN)"
proof -
  have "HandleUploadRequest peer (Some (UploadRequestMsg req)) (ph_client ph) =
      Ret (ERROR_FILE_NOT_EXISTS, \<lparr>up_returncode = Some (retcode_value ERROR_UNKNOWN)\<rparr>, None)"
    using assms(4) by (simp add: HandleUploadRequest_def Let_def)
  from onReadable_upload [OF assms(1-3) this] obtain s' where
    "tx s' = tx (ph_sock ph) @ frame (ap_pb ap) (upload_reply_pack ap ERROR_UNKNOWN)"
    "onReadable ap peer ph = start_upload (ph\<lparr>ph_sock := s', ph_pTask := None, ph_last_request_upload := True\<rparr>)"
    using assms(5) by auto
  then show ?thesis by (simp add: start_upload_def)
qed

text \<open>
  C37: a file whose size is a multiple of the piece size can never be served whole: the torrent
  \<open>MakeTorrent\<close> makes of it gives its last piece the size 0, and \<open>HandleUploadRequest\<close> asserts a
  positive size, so the request for the last piece always throws.
\<close>

theorem last_piece_never_served:
  assumes "describes H c content f" and "0 < c" and "c dvd int (length content)"
    and "GetJobByFileid (ur_fileid req) cl = Some (h, j)"
    and "get_one_file_of_same_fileid (ji_torrentInfo (cj_info j)) (ur_fileid req) = Ret (torrent_file_info_of f)"
    and "ur_chunknumber req = int (length (tf_chunk f)) - 1" and "length (tf_chunk f) < 2 ^ 31"
  shows "HandleUploadRequest peer (Some (UploadRequestMsg req)) cl = Throw AssertionViolation"
proof -
  have ne: "tf_chunk f \<noteq> []" and zero: "ck_size (last (tf_chunk f)) = 0"
    using describes_sizes [OF assms(1,2)] assms(3) by simp_all
  let ?n = "length (tf_chunk f) - 1"
  have n: "to_i32 (ur_chunknumber req) = int ?n" using assms(6,7) ne by (simp add: of_nat_diff Suc_leI)
  have "?n < length (tf_chunk f)" "nat (int (length (tf_chunk f)) - 1) = length (tf_chunk f) - Suc 0"
    using ne by simp_all
  with assms(4,5) n zero ne show ?thesis
    by (simp add: HandleUploadRequest_def Let_def chunk_offset_def chunk_size_def chunk_get_def
        torrent_file_info_of_def last_conv_nth)
qed

text \<open>
  C38: the answer to a hand-shake about a file the client has: its bitmap, from which the peer's
  \<open>conver_transport_format_bitmap\<close> makes the same bitmap, and the percentage of the last wake-up of
  the collector.
\<close>

theorem shake_hand_tells_bitmap:
  assumes "GetJobByFileid (string_field (fi_fileid (info_field req))) cl = Some (h, j)"
    and "has_file (string_field (fi_fileid (info_field req))) (ji_localFileInfo (cj_info j))"
    and "sm_find (bitmap_map (downloadInfo j)) (string_field (fi_fileid (info_field req))) = Some (Some b)"
    and "length b < 2 ^ 31"
  shows "\<exists>reply cl'. HandleShakeHand clientid (Some (ShakeHandMsg req)) cl = (Ret (ERROR_OK, reply), cl') \<and>
    sh_clientid reply = Some clientid \<and> int_field (fi_hasfile (info_field reply)) = 1 \<and>
    conver_transport_format_bitmap (info_field reply) = Ret b \<and>
    int_field (fi_percentage (info_field reply)) =
      (case sm_find (percentage_map (downloadInfo j)) (string_field (fi_fileid (info_field req))) of
         Some p \<Rightarrow> p | None \<Rightarrow> 0)"
proof -
  let ?f = "string_field (fi_fileid (info_field req))"
  have get: "sm_get None ?f (bitmap_map (downloadInfo j)) = (Some b, bitmap_map (downloadInfo j))"
    using assms(3) by (simp add: sm_get_def)
  obtain p pm where pct: "sm_get 0 ?f (percentage_map (downloadInfo j)) = (p, pm)" by (rule prod.exhaust)
  have p: "p = (case sm_find (percentage_map (downloadInfo j)) ?f of Some p \<Rightarrow> p | None \<Rightarrow> 0)"
    using sm_get_find [of 0 ?f "percentage_map (downloadInfo j)"] pct by simp
  have len: "to_i32 (int (length b)) = int (length b)" using assms(4) by simp
  have reply: "conver_transport_format_bitmap (x\<lparr>fi_filebitcount := Some (int (length b)), fi_filebit := bs_to_blocks b\<rparr>) = Ret b" for x
    by (simp add: conver_transport_format_bitmap_def bs_blocks_roundtrip)
  let ?info = "empty_file_info\<lparr>fi_fileid := Some ?f, fi_hasfile := Some 1, fi_percentage := Some p,
    fi_filebitcount := Some (int (length b)), fi_filebit := bs_to_blocks b\<rparr>"
  let ?reply = "\<lparr>sh_clientid = Some clientid, sh_info = Some ?info\<rparr>"
  have "\<exists>cl'. HandleShakeHand clientid (Some (ShakeHandMsg req)) cl = (Ret (ERROR_OK, ?reply), cl')"
    using assms(1,2) get pct len
    by (simp add: HandleShakeHand_def Let_def map_downloadInfo_def convert_bitmap_to_transport_format_def
        empty_file_info_def empty_shake_hand_def)
  moreover have "info_field ?reply = ?info" by (simp add: info_field_def)
  moreover have "conver_transport_format_bitmap ?info = Ret b" by (rule reply)
  ultimately show ?thesis using p by fastforce
qed

section \<open>Witnesses\<close>

definition ask_for :: "string \<Rightarrow> upload_request" where
  "ask_for fileid = \<lparr>ur_clientid = ''p'', ur_fileid = fileid, ur_chunknumber = 0\<rparr>"

definition serving_app :: "string \<Rightarrow> app" where
  "serving_app fileid = demo_app\<lparr>ap_pb := sample_pb [UploadRequestMsg (ask_for fileid),
     UploadReplyMsg \<lparr>up_returncode = Some 0\<rparr>, UploadReplyMsg \<lparr>up_returncode = Some 1\<rparr>]\<rparr>"

definition asked_handler :: "string \<Rightarrow> peer_handler" where
  "asked_handler fileid = new_peer_handler (idle_sock (frame (ap_pb (serving_app fileid))
     (netpack_of (ap_pb (serving_app fileid)) PAYLOAD_UPLOAD_REQUEST (UploadRequestMsg (ask_for fileid)))))
     demo_client []"

lemma asked_handler_fields [simp]:
  "ph_client (asked_handler f) = demo_client" "ph_uploads (asked_handler f) = []"
  "ph_pTask (asked_handler f) = None" "\<not> ph_deleted (asked_handler f)"
  "tx_ev (ph_sock (asked_handler f)) = []"
  by (simp_all add: asked_handler_def new_peer_handler_def idle_sock_def)

lemma asked_waiting:
  assumes "f = ''c'' \<or> f = ''z''"
  shows "request_waiting (ap_pb (serving_app f)) PAYLOAD_UPLOAD_REQUEST (UploadRequestMsg (ask_for f))
    (ph_sock (asked_handler f))"
proof -
  have "np_wf (netpack_of (ap_pb (serving_app f)) PAYLOAD_UPLOAD_REQUEST (UploadRequestMsg (ask_for f)))"
    by (rule np_wf_netpack_of) (simp add: serving_app_def sample_pb_def)
  then show ?thesis
    by (simp add: request_waiting_def asked_handler_def new_peer_handler_def serving_app_def idle_sock_def
        np_message_def header_codec_def header_fits_def netpack_of_def payload_defs Let_def)
      (simp add: sample_defs)
qed

lemma serving_reply:
  assumes "code = ERROR_OK \<or> code = ERROR_UNKNOWN"
  shows "header_codec (ap_pb (serving_app f)) (np_header (upload_reply_pack (serving_app f) code))"
  using assms
  by (auto simp: serving_app_def header_codec_def netpack_of_def payload_defs Let_def) (simp_all add: sample_defs)

lemma demo_client_files:
  "GetJobByFileid ''c'' demo_client = Some (0, table_job)" "GetJobByFileid ''z'' demo_client = None"
  by (simp_all add: GetJobByFileid_def table_job_def)

lemma table_job_file:
  "get_file ''c'' (ji_localFileInfo (cj_info table_job)) = Some ''/tmp/d/y''"
  "get_one_file_of_same_fileid (ji_torrentInfo (cj_info table_job)) ''c'' = Ret (torrent_file_info_of small_file)"
  by (simp_all add: table_job_def small_local get_one_file_of_same_fileid_def small_map)


theorem failed_upload_request_starts_null_witness:
  "\<exists>ph'. onReadable (serving_app ''z'') (Ret ''p:1'') (asked_handler ''z'') = (Throw NullPointer, ph') \<and>
     ph_uploads ph' = []"
proof -
  have "ur_fileid (ask_for ''z'') = ''z''" by (simp add: ask_for_def)
  with failed_upload_request_starts_null [where ap = "serving_app ''z''" and req = "ask_for ''z''"
      and ph = "asked_handler ''z''" and peer = "Ret ''p:1''"]
    asked_waiting [of "''z''"] serving_reply [of ERROR_UNKNOWN "''z''"]
  show ?thesis by (auto simp: demo_client_files)
qed

definition even_file :: torrent_file where
  "even_file = \<lparr>tf_checksum = ''xx'', tf_relativepath = [], tf_filename = ''f'', tf_size = 2,
     tf_chunk = [\<lparr>ck_checksum = ''xx'', ck_size = 0\<rparr>]\<rparr>"

definition even_client :: cool_client where
  "even_client = demo_client\<lparr>cl_jobs := [(0, table_job\<lparr>cj_info := small_job_info\<lparr>ji_fileidlist := [''xx''],
     ji_torrentInfo := torrent_info_of (demo_torrent\<lparr>to_file := [even_file]\<rparr>)\<rparr>\<rparr>)]\<rparr>"

theorem last_piece_never_served_witness:
  "HandleUploadRequest (Ret ''p:1'') (Some (UploadRequestMsg (ask_for ''xx''))) even_client
     = Throw AssertionViolation"
proof -
  let ?j = "table_job\<lparr>cj_info := small_job_info\<lparr>ji_fileidlist := [''xx''],
     ji_torrentInfo := torrent_info_of (demo_torrent\<lparr>to_file := [even_file]\<rparr>)\<rparr>\<rparr>"
  have "describes unary_hash 2 [1, 2] even_file"
    by (simp add: describes_def even_file_def unary_hash_def pieces.simps [of 2 "[1, 2]"])
  moreover have "GetJobByFileid ''xx'' even_client = Some (0, ?j)"
    by (simp add: GetJobByFileid_def even_client_def)
  moreover have "get_one_file_of_same_fileid (ji_torrentInfo (cj_info ?j)) ''xx'' = Ret (torrent_file_info_of even_file)"
    by (simp add: get_one_file_eq even_file_def)
  moreover have "ur_chunknumber (ask_for ''xx'') = int (length (tf_chunk even_file)) - 1"
    "length (tf_chunk even_file) < 2 ^ 31" "ur_fileid (ask_for ''xx'') = ''xx''"
    by (simp_all add: ask_for_def even_file_def)
  ultimately show ?thesis
    using last_piece_never_served [of unary_hash 2 "[1, 2]" even_file "ask_for ''xx''" even_client 0 ?j]
    by simp
qed

theorem shake_hand_tells_bitmap_witness:
  "\<exists>reply cl'. HandleShakeHand ''me'' (Some (ShakeHandMsg (empty_shake_hand\<lparr>sh_info :=
       Some (empty_file_info\<lparr>fi_fileid := Some ''c''\<rparr>)\<rparr>))) demo_client = (Ret (ERROR_OK, reply), cl') \<and>
     conver_transport_format_bitmap (info_field reply) = Ret [False]"
proof -
  let ?req = "empty_shake_hand\<lparr>sh_info := Some (empty_file_info\<lparr>fi_fileid := Some ''c''\<rparr>)\<rparr>"
  have f: "string_field (fi_fileid (info_field ?req)) = ''c''" by (simp add: info_field_def empty_shake_hand_def)
  have "has_file ''c'' (ji_localFileInfo (cj_info table_job))"
    by (simp add: has_file_def table_job_def small_job_info_def)
  with shake_hand_tells_bitmap [of ?req demo_client 0 table_job "[False]" "''me''", unfolded f]
  show ?thesis by (auto simp: demo_client_files)
qed

end
