(* ===== verification/ChunkExchange.thy ===== *)
theory ChunkExchange
  imports ClientHandler
begin

text \<open>
  One chunk on its whole way between two clients: the download task of one, the connection handler
  and the upload task of the other, over a connection that carries to each side the bytes the other
  has sent.  And a file that is put together from its chunks, in whatever order they come.
\<close>

section \<open>Both ends of the connection\<close>

text \<open>A message that protobuf and the packet's header carry whole.\<close>

definition carried :: "protobuf \<Rightarrow> int \<Rightarrow> message \<Rightarrow> bool" where
  "carried pb t msg \<longleftrightarrow>
     (let p = netpack_of pb t msg in header_codec pb (np_header p) \<and> header_fits pb (np_header p) \<and>
        np_wf p \<and> np_message pb p = Some msg)"

abbreviation request_msg :: "download_task \<Rightarrow> message" where
  "request_msg dt \<equiv> UploadRequestMsg \<lparr>ur_clientid = dt_clientid dt,
     ur_fileid = tfi_fileid (dt_fileInfo dt), ur_chunknumber = dt_chunk_pos dt\<rparr>"

abbreviation ok_msg :: message where
  "ok_msg \<equiv> UploadReplyMsg \<lparr>up_returncode = Some (retcode_value ERROR_OK)\<rparr>"

text \<open>A client that has a place for the file \<open>f\<close> of a torrent.\<close>

definition serves :: "torrent_file \<Rightarrow> string \<Rightarrow> cool_client \<Rightarrow> bool" where
  "serves f path cl \<longleftrightarrow> (\<exists>h j. GetJobByFileid (tf_checksum f) cl = Some (h, j) \<and>
     get_file (tf_checksum f) (ji_localFileInfo (cj_info j)) = Some path \<and>
     get_one_file_of_same_fileid (ji_torrentInfo (cj_info j)) (tf_checksum f) = Ret (torrent_file_info_of f))"

definition chunk_off :: "torrent_file \<Rightarrow> nat \<Rightarrow> u64" where
  "chunk_off f n = word_of_int (ck_size (tf_chunk f ! 0)) * word_of_int (int n)"

text \<open>A file on a disk that has room for chunk \<open>n\<close>, and the bytes it has there.\<close>

definition room_for :: "torrent_file \<Rightarrow> nat \<Rightarrow> string \<Rightarrow> disk \<Rightarrow> bool" where
  "room_for f n path d \<longleftrightarrow> \<not> d_refused d path \<and> 0 < ck_size (tf_chunk f ! n) \<and>
     (\<exists>bs. d_files d path = Some bs \<and> unat (chunk_off f n) + nat (ck_size (tf_chunk f ! n)) \<le> length bs)"

definition chunk_bytes :: "torrent_file \<Rightarrow> nat \<Rightarrow> byte list \<Rightarrow> byte list" where
  "chunk_bytes f n bs = take (nat (ck_size (tf_chunk f ! n))) (drop (unat (chunk_off f n)) bs)"

lemma length_chunk_bytes:
  "unat (chunk_off f n) + nat (ck_size (tf_chunk f ! n)) \<le> length bs \<Longrightarrow>
     length (chunk_bytes f n bs) = nat (ck_size (tf_chunk f ! n))"
  by (simp add: chunk_bytes_def)

lemma chunk_geometry:
  assumes "n < length (tf_chunk f)"
  shows "chunk_size (torrent_file_info_of f) (int n) = Ret (ck_size (tf_chunk f ! n))"
    and "chunk_offset (torrent_file_info_of f) (int n) = Ret (chunk_off f n)"
proof -
  have "tf_chunk f \<noteq> []" using assms by auto
  with assms show "chunk_size (torrent_file_info_of f) (int n) = Ret (ck_size (tf_chunk f ! n))"
    "chunk_offset (torrent_file_info_of f) (int n) = Ret (chunk_off f n)"
    by (simp_all add: chunk_size_def chunk_offset_def chunk_get_def torrent_file_info_of_def chunk_off_def)
qed

lemma room_map_file: "room_for f n path d \<Longrightarrow> d_files d path = Some bs \<Longrightarrow> map_file path d = Ret bs"
  by (auto simp: room_for_def map_file_def)

section \<open>Lemmas: the uploading side\<close>

lemma send_chunk_returns:
  assumes "\<forall>f \<in> set env. benign f" and "nSend \<le> n" and "0 \<le> nSend" and "int (length content) = n"
    and "nat (n - nSend) \<le> length env" and "\<forall>e \<in> set (tx_ev (ts_sock s)). e \<noteq> IoFail \<and> e \<noteq> Io 0"
  shows "\<exists>t. send_chunk content n env nSend s = Some (Ret n, t)"
  using assms
proof (induction env arbitrary: nSend s)
  case Nil
  then show ?case by (simp add: send_chunk_Nil)
next
  case (Cons f env)
  show ?case
  proof (cases "nSend < n")
    case True
    let ?rest = "take (nat (n - nSend)) (drop (nat nSend) content)"
    have ne: "?rest \<noteq> []" using True Cons.prems(3,4) by auto
    obtain j sk where send: "sendBytes ?rest (ts_sock s) = (Ret j, sk)" "0 < j"
      "\<forall>e \<in> set (tx_ev sk). e \<noteq> IoFail \<and> e \<noteq> Io 0"
    proof (cases "tx_ev (ts_sock s)")
      case Nil
      with ne that show ?thesis by (simp add: sendBytes_def)
    next
      case (Cons e ev)
      with \<open>\<forall>e \<in> set (tx_ev (ts_sock s)). e \<noteq> IoFail \<and> e \<noteq> Io 0\<close> obtain k where "e = Io k" "0 < k"
        by (cases e) auto
      with ne that Cons Cons.prems(6) show ?thesis by (simp add: sendBytes_def)
    qed
    have "int (length ?rest) = n - nSend" using Cons.prems(2-4) by simp
    with sendBytes_prefix [OF send(1)] have "j \<le> n - nSend" by simp
    then have "\<exists>t. send_chunk content n env (nSend + j) s' = Some (Ret n, t)"
      if "ts_sock s' = sk" for s'
      using Cons.prems send that by (intro Cons.IH) auto
    moreover have "\<not> is_stopped (f (ts_info s))" "\<not> is_job_removed (f (ts_info s))"
      using Cons.prems(1) by (auto simp: benign_def)
    ultimately show ?thesis
      using True send by (simp add: send_chunk_Cons Let_def)
  next
    case False
    then have "send_chunk content n (f # env) nSend s = Some (Ret nSend, s)" by (subst send_chunk.simps) simp
    with False Cons.prems(2) show ?thesis by simp
  qed
qed

text \<open>An upload ends with its chunk on the connection, however the connection portions it.\<close>

lemma chunk_upload_runs:
  assumes "room_for f n path (ts_disk s)" and "d_files (ts_disk s) path = Some bs"
    and "\<forall>g \<in> set env. benign g" and "nat (ck_size (tf_chunk f ! n)) \<le> length env"
    and "\<forall>e \<in> set (tx_ev (ts_sock s)). e \<noteq> IoFail \<and> e \<noteq> Io 0"
  shows "\<exists>t. upload_run H env (chunk_upload f path n) s = Some (Ret (), t) \<and>
    tx (ts_sock t) = tx (ts_sock s) @ chunk_bytes f n bs"
proof -
  let ?size = "ck_size (tf_chunk f ! n)"
  have room: "0 < ?size" "unat (chunk_off f n) + nat ?size \<le> length bs"
    using assms(1,2) by (auto simp: room_for_def)
  note len = length_chunk_bytes [OF room(2)]
  have read: "read_mapped path (chunk_off f n) ?size (ts_disk s) = Ret (chunk_bytes f n bs)"
    using room by (simp add: read_mapped_def room_map_file [OF assms(1,2)] chunk_bytes_def)
  obtain t where send: "send_chunk (chunk_bytes f n bs) ?size env 0 s = Some (Ret ?size, t)"
    using send_chunk_returns [OF assms(3), of 0 ?size "chunk_bytes f n bs" s] len room(1) assms(4,5) by auto
  have "chunk_upload f path n = \<lparr>ut_file = Some path, ut_offset = chunk_off f n, ut_chunk_size = ?size\<rparr>"
    by (simp add: chunk_upload_def chunk_off_def)
  with send_chunk_result [OF send] send len room(1) read show ?thesis
    by (simp add: upload_run_def get_verification_code_def vc_without_lock_eq)
qed

section \<open>Lemmas: the downloading side\<close>

lemma request_chunk_answered:
  assumes "carried pb PAYLOAD_UPLOAD_REQUEST (request_msg dt)" and "carried pb PAYLOAD_UPLOAD_REPLY ok_msg"
    and "tx_ev sk = []" and "rx_ev sk = []"
    and "rx sk = frame pb (netpack_of pb PAYLOAD_UPLOAD_REPLY ok_msg) @ behind"
  shows "request_chunk pb junk dt sk = (Ret (),
    sk\<lparr>tx := tx sk @ frame pb (netpack_of pb PAYLOAD_UPLOAD_REQUEST (request_msg dt)), rx := behind\<rparr>)"
proof -
  let ?req = "netpack_of pb PAYLOAD_UPLOAD_REQUEST (request_msg dt)"
  let ?reply = "netpack_of pb PAYLOAD_UPLOAD_REPLY ok_msg"
  have send: "sendBy pb ?req sk = (Ret ERROR_OK, sk\<lparr>tx := tx sk @ frame pb ?req\<rparr>)"
    using assms(1,3) by (simp add: carried_def Let_def sendBy_frame)
  have "receiveFrom pb junk ?req (sk\<lparr>tx := tx sk @ frame pb ?req\<rparr>) =
      (Ret ERROR_OK, (?reply, sk\<lparr>tx := tx sk @ frame pb ?req, rx := behind\<rparr>))"
    using assms(2,4,5) receiveFrom_frame [of pb ?reply "sk\<lparr>tx := tx sk @ frame pb ?req\<rparr>" behind junk ?req]
    by (simp add: carried_def Let_def)
  moreover have "np_message pb ?reply = Some ok_msg" using assms(2) by (simp add: carried_def Let_def)
  ultimately show ?thesis
    using send by (simp add: request_chunk_def Let_def)
qed

lemma store_chunk_stores:
  assumes "room_for f n (dt_file dt) (ts_disk s)" and "d_files (ts_disk s) (dt_file dt) = Some old"
    and "dt_fileInfo dt = torrent_file_info_of f" and "dt_chunk_pos dt = int n" and "n < length (tf_chunk f)"
    and "H content = dt_check_sum dt" and "length content = nat (ck_size (tf_chunk f ! n))"
  shows "\<exists>t. store_chunk H dt content s = (Ret (), t) \<and> ts_sock t = ts_sock s \<and>
    d_files (ts_disk t) = (d_files (ts_disk s))(dt_file dt \<mapsto> splice (unat (chunk_off f n)) content old)"
proof -
  have "unat (chunk_off f n) + length content \<le> length old"
    using assms(1,2,7) by (auto simp: room_for_def)
  then show ?thesis
    using assms(3,4,6) chunk_geometry [OF assms(5)]
    by (simp add: store_chunk_def get_verification_code_def vc_without_lock_eq write_mapped_def
        room_map_file [OF assms(1,2)])
qed

lemma receive_chunk_tx: "receive_chunk n env buf nLeft s = Some (r, t) \<Longrightarrow> tx (ts_sock t) = tx (ts_sock s)"
proof (induction env arbitrary: buf nLeft s)
  case (Cons f env)
  have "receiveBytes k x = (q, y) \<Longrightarrow> tx y = tx x" for k x q y
    by (auto simp: receiveBytes_def Let_def split: list.splits io.splits)
  with Cons show ?case
    by (fastforce simp: receive_chunk_Cons Let_def split: if_splits prod.splits outcome.splits)
qed (auto simp: receive_chunk_Nil split: if_splits)

text \<open>A download for which the answer and the content are on the connection succeeds.\<close>

lemma chunk_download_runs:
  assumes dt: "dt_fileInfo dt = torrent_file_info_of f" "dt_chunk_pos dt = int n" "n < length (tf_chunk f)"
    and wire: "carried pb PAYLOAD_UPLOAD_REQUEST (request_msg dt)" "carried pb PAYLOAD_UPLOAD_REPLY ok_msg"
    and sock: "tx_ev (ts_sock s) = []" "rx_ev (ts_sock s) = []"
      "rx (ts_sock s) = frame pb (netpack_of pb PAYLOAD_UPLOAD_REPLY ok_msg) @ content"
    and content: "length content = nat (ck_size (tf_chunk f ! n))" "H content = dt_check_sum dt"
    and disk: "room_for f n (dt_file dt) (ts_disk s)" "d_files (ts_disk s) (dt_file dt) = Some old"
    and rounds: "\<forall>g \<in> set env. benign g" "length content \<le> length (filter lets_through env)"
  shows "\<exists>t. download_run pb H junk env dt s = Some (Ret (), t) \<and> rx (ts_sock t) = [] \<and>
    tx (ts_sock t) = tx (ts_sock s) @ frame pb (netpack_of pb PAYLOAD_UPLOAD_REQUEST (request_msg dt)) \<and>
    d_files (ts_disk t) = (d_files (ts_disk s))(dt_file dt \<mapsto> splice (unat (chunk_off f n)) content old)"
proof -
  let ?size = "ck_size (tf_chunk f ! n)"
  define sk where "sk = (ts_sock s)\<lparr>tx := tx (ts_sock s) @
    frame pb (netpack_of pb PAYLOAD_UPLOAD_REQUEST (request_msg dt)), rx := content\<rparr>"
  have req: "request_chunk pb junk dt (ts_sock s) = (Ret (), sk)"
    unfolding sk_def by (rule request_chunk_answered [OF wire sock])
  have size: "0 < ?size" using disk(1) by (simp add: room_for_def)
  then have len: "int (length content) = ?size" using content(1) by simp
  have "\<exists>got s1. receive_chunk ?size env [] ?size (s\<lparr>ts_sock := sk\<rparr>) = Some (Ret got, s1)"
    by (rule receive_chunk_returns [OF rounds(1)])
      (use size rounds(2) sock in \<open>simp_all add: sk_def flip: content(1)\<close>)
  then obtain got s1 where recv: "receive_chunk ?size env [] ?size (s\<lparr>ts_sock := sk\<rparr>) = Some (Ret got, s1)" by blast
  from receive_chunk_keeps [OF recv] size len
  have got: "got = content" "rx (ts_sock s1) = []" "ts_disk s1 = ts_disk s"
    by (auto simp: sk_def append_eq_append_conv2 append_eq_Cons_conv)
  obtain t where "store_chunk H dt content s1 = (Ret (), t)" "ts_sock t = ts_sock s1"
    "d_files (ts_disk t) = (d_files (ts_disk s))(dt_file dt \<mapsto> splice (unat (chunk_off f n)) content old)"
    using store_chunk_stores [of f n dt s1 old H content] disk dt content got(3) by auto
  moreover have "tx (ts_sock s1) = tx sk" using receive_chunk_tx [OF recv] by simp
  ultimately show ?thesis
    using req recv got len size dt chunk_geometry(1) [OF dt(3)]
    by (simp add: download_run_def sk_def)
qed

section \<open>Lemmas: a file from its chunks\<close>

lemma download_run_writes:
  assumes "download_run pb H junk env dt s = Some (r, t)"
  shows "(r \<noteq> Ret () \<longrightarrow> ts_disk t = ts_disk s) \<and>
    (r = Ret () \<longrightarrow> (\<exists>content off bs.
       chunk_size (dt_fileInfo dt) (dt_chunk_pos dt) = Ret (int (length content)) \<and>
       H content = dt_check_sum dt \<and> chunk_offset (dt_fileInfo dt) (dt_chunk_pos dt) = Ret off \<and>
       d_files (ts_disk s) (dt_file dt) = Some bs \<and> unat off + length content \<le> length bs \<and>
       ts_disk t = (ts_disk s)\<lparr>d_files := (d_files (ts_disk s))(dt_file dt \<mapsto> splice (unat off) content bs)\<rparr>))"
  using download_run_ended [OF assms]
proof (elim disjE exE conjE)
  fix sk n content s1
  assume n: "chunk_size (dt_fileInfo dt) (dt_chunk_pos dt) = Ret n" "int (length content) = n"
    and recv: "receive_chunk n env [] n (s\<lparr>ts_sock := sk\<rparr>) = Some (Ret content, s1)"
    and store: "store_chunk H dt content s1 = (r, t)"
  have kept: "ts_disk s1 = ts_disk s" using receive_chunk_keeps [OF recv] by simp
  show ?thesis
  proof (cases "r = Ret ()")
    case True
    with store_chunk_result [OF store] obtain off bs where "H content = dt_check_sum dt"
      "chunk_offset (dt_fileInfo dt) (dt_chunk_pos dt) = Ret off"
      "d_files (ts_disk s1) (dt_file dt) = Some bs" "unat off + length content \<le> length bs"
      "ts_disk t = (ts_disk s1)\<lparr>d_files := (d_files (ts_disk s1))(dt_file dt \<mapsto> splice (unat off) content bs)\<rparr>"
      by blast
    with True n show ?thesis unfolding kept by auto
  qed (use store_chunk_result [OF store] kept in simp)
qed auto

text \<open>
  What happens to one file of the disk while it is downloaded: download tasks for its chunks end, in
  any order and any way, and everything else leaves it alone.  Beside the disk stand the chunks whose
  task has succeeded.
\<close>

inductive file_step ::
    "protobuf \<Rightarrow> (byte list \<Rightarrow> string) \<Rightarrow> torrent_file \<Rightarrow> string \<Rightarrow> disk \<times> nat set \<Rightarrow> disk \<times> nat set \<Rightarrow> bool"
  for pb H f path where
  ended: "download_task_of peer (torrent_file_info_of f) clientid sock (int n) path = Ret dt \<Longrightarrow>
    download_run pb H junk env dt s = Some (r, t) \<Longrightarrow>
    file_step pb H f path (ts_disk s, got) (ts_disk t, if r = Ret () then insert n got else got)"
| elsewhere: "d_files d' path = d_files d path \<Longrightarrow> file_step pb H f path (d, got) (d', got)"

text \<open>The chunks lie one behind the other.\<close>

definition chunks_apart :: "torrent_file \<Rightarrow> bool" where
  "chunks_apart f \<longleftrightarrow> (\<forall>m < length (tf_chunk f). \<forall>n < length (tf_chunk f). m < n \<longrightarrow>
     unat (chunk_off f m) + nat (ck_size (tf_chunk f ! m)) \<le> unat (chunk_off f n))"

definition file_verified :: "(byte list \<Rightarrow> string) \<Rightarrow> torrent_file \<Rightarrow> string \<Rightarrow> nat \<Rightarrow> disk \<times> nat set \<Rightarrow> bool" where
  "file_verified H f path len dg \<longleftrightarrow> (\<exists>bs. d_files (fst dg) path = Some bs \<and> length bs = len \<and>
     (\<forall>n \<in> snd dg. n < length (tf_chunk f) \<and> H (chunk_bytes f n bs) = ck_checksum (tf_chunk f ! n)))"

lemma splice_apart:
  assumes "i + k \<le> off \<or> off + length new \<le> i" and "off + length new \<le> length bs"
  shows "take k (drop i (splice off new bs)) = take k (drop i bs)"
  by (rule nth_equalityI) (use assms in \<open>auto simp: length_splice nth_splice\<close>)

lemma chunk_bytes_splice:
  assumes "chunks_apart f" and "m < length (tf_chunk f)" and "n < length (tf_chunk f)"
    and "length content = nat (ck_size (tf_chunk f ! n))" and "unat (chunk_off f n) + length content \<le> length bs"
  shows "chunk_bytes f m (splice (unat (chunk_off f n)) content bs) = (if m = n then content else chunk_bytes f m bs)"
proof (cases "m = n")
  case True
  with slice_splice [OF assms(5)] assms(4) show ?thesis by (simp add: chunk_bytes_def)
next
  case False
  then have "m < n \<or> n < m" by linarith
  with assms(1-4) have "unat (chunk_off f m) + nat (ck_size (tf_chunk f ! m)) \<le> unat (chunk_off f n) \<or>
      unat (chunk_off f n) + length content \<le> unat (chunk_off f m)"
    by (auto simp: chunks_apart_def)
  with False assms(5) show ?thesis by (simp add: chunk_bytes_def splice_apart)
qed

lemma file_step_verified:
  assumes "file_step pb H f path dg dg'" and "chunks_apart f" and "file_verified H f path len dg"
  shows "file_verified H f path len dg'"
  using assms
proof (induction rule: file_step.induct)
  case (ended peer clientid sock n dt junk env s r t got)
  obtain bs where bs: "d_files (ts_disk s) path = Some bs" "length bs = len"
    "\<forall>n \<in> got. n < length (tf_chunk f) \<and> H (chunk_bytes f n bs) = ck_checksum (tf_chunk f ! n)"
    using ended.prems(2) by (auto simp: file_verified_def)
  from ended.hyps(1) have dt: "dt_fileInfo dt = torrent_file_info_of f" "dt_chunk_pos dt = int n"
    "dt_file dt = path" "chunk_checksum (torrent_file_info_of f) (int n) = Ret (dt_check_sum dt)"
    by (auto simp: download_task_of_def split: outcome.splits)
  note written = download_run_writes [OF ended.hyps(2), unfolded dt(1-3)]
  show ?case
  proof (cases "r = Ret ()")
    case True
    with written obtain content off where run: "chunk_size (torrent_file_info_of f) (int n) = Ret (int (length content))"
      "H content = dt_check_sum dt" "chunk_offset (torrent_file_info_of f) (int n) = Ret off"
      "unat off + length content \<le> length bs"
      "d_files (ts_disk t) = (d_files (ts_disk s))(path \<mapsto> splice (unat off) content bs)"
      using bs(1) by auto
    have n: "n < length (tf_chunk f)"
      using run(1) by (auto simp: chunk_size_def torrent_file_info_of_def split: if_splits)
    with run(1,3) have geo: "length content = nat (ck_size (tf_chunk f ! n))" "off = chunk_off f n"
      by (simp_all add: chunk_geometry)
    have sum: "dt_check_sum dt = ck_checksum (tf_chunk f ! n)"
      using dt(4) n by (auto simp: chunk_checksum_def chunk_get_def torrent_file_info_of_def)
    have "chunk_bytes f m (splice (unat off) content bs) = (if m = n then content else chunk_bytes f m bs)"
      if "m < length (tf_chunk f)" for m
      using chunk_bytes_splice [OF ended.prems(1) that n geo(1)] run(4) geo(2) by simp
    with True n bs run sum show ?thesis by (auto simp: file_verified_def length_splice)
  next
    case False
    with written bs show ?thesis by (auto simp: file_verified_def)
  qed
next
  case (elsewhere d' d got)
  then show ?case by (auto simp: file_verified_def)
qed

lemma file_steps_verified:
  "(file_step pb H f path)\<^sup>*\<^sup>* dg dg' \<Longrightarrow> chunks_apart f \<Longrightarrow> file_verified H f path len dg \<Longrightarrow>
     file_verified H f path len dg'"
  by (induction rule: rtranclp_induct) (auto intro: file_step_verified)

text \<open>
  The chunks of a torrent that \<open>MakeTorrent\<close> has made are the pieces of the file, but for the last one
  of a file whose size is a multiple of the piece size.
\<close>

lemma described_chunks:
  assumes f: "describes H c content f" and c: "0 < c" "\<not> c dvd int (length content)"
    and len: "length content < 2 ^ 64"
  shows "length (tf_chunk f) = Suc (length content div nat c)"
    and "n < length (tf_chunk f) \<Longrightarrow> unat (chunk_off f n) = n * nat c"
    and "n < length (tf_chunk f) \<Longrightarrow>
      nat (ck_size (tf_chunk f ! n)) = (if n = length content div nat c then length content mod nat c else nat c)"
proof -
  define k where "k = nat c"
  have k: "0 < k" "c = int k" using c(1) by (simp_all add: k_def)
  have rest: "0 < length content mod k" using c(2) unfolding k(2) by (metis int_dvd_int_iff mod_greater_zero_iff_not_dvd)
  have "length (tf_chunk f) = length (pieces k content)"
    using f unfolding describes_def k_def by (metis length_map)
  also have "\<dots> = max 1 ((length content + k - 1) div k)" by (rule length_pieces [OF k(1)])
  also have "(length content + k - 1) div k = Suc (length content div k)"
  proof -
    have "(q * k + r + k - 1) div k = Suc q" if "0 < r" "r < k" for q r
      by (rule div_nat_eqI) (use that in \<open>simp_all add: algebra_simps\<close>)
    from this [OF rest mod_less_divisor [OF k(1)], of "length content div k"] show ?thesis by simp
  qed
  finally show count: "length (tf_chunk f) = Suc (length content div nat c)" by (simp add: k_def)
  have size: "ck_size (tf_chunk f ! i) = (if Suc i = length (tf_chunk f) then int (length content) mod c else c)"
    if "i < length (tf_chunk f)" for i using f that by (simp add: describes_def)
  show "nat (ck_size (tf_chunk f ! n)) = (if n = length content div nat c then length content mod nat c else nat c)"
    if "n < length (tf_chunk f)"
    using size [OF that] count by (simp add: k(2) nat_mod_distrib)
  show "unat (chunk_off f n) = n * nat c" if n: "n < length (tf_chunk f)"
  proof (cases "n = 0")
    case False
    with n count have "Suc 0 \<noteq> length (tf_chunk f)" by simp
    then have "ck_size (tf_chunk f ! 0) = int k" using size [of 0] count k(2) by simp
    then have "chunk_off f n = word_of_nat (k * n)" by (simp add: chunk_off_def)
    moreover have "n \<le> length content div k" using n count by (simp add: k(2))
    then have "k * n \<le> k * (length content div k)" by (rule mult_le_mono2)
    then have "k * n \<le> length content" using times_div_less_eq_dividend le_trans by blast
    then have "unat (word_of_nat (k * n) :: u64) = k * n"
      using len by (simp add: unsigned_of_nat take_bit_nat_eq_self del: of_nat_mult)
    ultimately show ?thesis by (simp add: k(2) mult.commute del: of_nat_mult)
  qed (simp add: chunk_off_def)
qed

lemma described_apart:
  assumes "describes H c content f" and "0 < c" and "\<not> c dvd int (length content)" and "length content < 2 ^ 64"
  shows "chunks_apart f"
  unfolding chunks_apart_def
proof (intro allI impI)
  fix m n assume mn: "m < length (tf_chunk f)" "n < length (tf_chunk f)" "m < n"
  note facts = described_chunks [OF assms]
  from mn facts(1) have "m \<noteq> length content div nat c" by simp
  then have "nat (ck_size (tf_chunk f ! m)) = nat c" using facts(3) [OF mn(1)] by simp
  moreover have "m * nat c + nat c \<le> n * nat c" using mult_le_mono1 [of "Suc m" n "nat c"] mn(3) by simp
  ultimately show "unat (chunk_off f m) + nat (ck_size (tf_chunk f ! m)) \<le> unat (chunk_off f n)"
    using facts(2) [OF mn(1)] facts(2) [OF mn(2)] by simp
qed

lemma described_piece:
  assumes "describes H c content f" and "0 < c" and "\<not> c dvd int (length content)" and "length content < 2 ^ 64"
    and "n < length (tf_chunk f)" and "length bs = length content"
  shows "n < length (pieces (nat c) bs)" and "chunk_bytes f n bs = pieces (nat c) bs ! n"
proof -
  note facts = described_chunks [OF assms(1-4)]
  have "length (pieces (nat c) bs) = length (pieces (nat c) content)"
    using assms(2,6) by (simp add: length_pieces)
  also have "\<dots> = length (tf_chunk f)" using assms(1) unfolding describes_def by (metis length_map)
  finally show n: "n < length (pieces (nat c) bs)" using assms(5) by simp
  have "take (length content mod nat c) (drop (n * nat c) bs) = take (nat c) (drop (n * nat c) bs)"
    if "n = length content div nat c"
  proof -
    have "length (drop (n * nat c) bs) = length content mod nat c"
      using that assms(6) by (simp add: minus_div_mult_eq_mod)
    then show ?thesis using assms(2) by simp
  qed
  then show "chunk_bytes f n bs = pieces (nat c) bs ! n"
    using pieces_nth [OF n] assms(2) facts(2) [OF assms(5)] facts(3) [OF assms(5)]
    by (simp add: chunk_bytes_def)
qed

section \<open>Properties\<close>

text \<open>
  C4: a chunk gets from one client to another.  The request of the download task makes the peer's
  handler answer and start one upload; that task ends and has put the chunk of the uploader's file on
  the connection; the download task, which finds the answer and the chunk there, ends without an error,
  with exactly the chunk's range of its file replaced by the uploader's bytes and nothing left on the
  connection.  The connection may cut the chunk into any portions, and the limit of speed hold the
  downloader up.
\<close>

theorem chunk_travels_between_clients:
  assumes "dt_fileInfo dt = torrent_file_info_of f" and "dt_chunk_pos dt = int n" and "n < length (tf_chunk f)"
    and "n < 2 ^ 31" and "dt_check_sum dt = H (chunk_bytes f n bs)"
    and "carried (ap_pb ap) PAYLOAD_UPLOAD_REQUEST (request_msg dt)" and "carried (ap_pb ap) PAYLOAD_UPLOAD_REPLY ok_msg"
    and "rx (ph_sock ph) = frame (ap_pb ap) (netpack_of (ap_pb ap) PAYLOAD_UPLOAD_REQUEST (request_msg dt))"
    and "rx_ev (ph_sock ph) = []" and "tx_ev (ph_sock ph) = []"
    and "serves f path (ph_client ph)" and "length (ph_uploads ph) < upload_threads" and "peer = Ret a"
    and "room_for f n path (ts_disk su)" and "d_files (ts_disk su) path = Some bs"
    and "\<forall>g \<in> set env_u. benign g" and "nat (ck_size (tf_chunk f ! n)) \<le> length env_u"
    and "\<forall>e \<in> set ev. e \<noteq> IoFail \<and> e \<noteq> Io 0"
    and "room_for f n (dt_file dt) (ts_disk s)" and "d_files (ts_disk s) (dt_file dt) = Some old"
    and "rx_ev (ts_sock s) = []" and "tx_ev (ts_sock s) = []"
    and "\<forall>g \<in> set env_d. benign g" and "nat (ck_size (tf_chunk f ! n)) \<le> length (filter lets_through env_d)"
  shows "\<exists>ph' ut tu t. onReadable ap peer ph = (Ret (), ph') \<and> ph_uploads ph' = ph_uploads ph @ [ut] \<and>
    upload_run H env_u ut (su\<lparr>ts_sock := (ph_sock ph')\<lparr>tx_ev := ev\<rparr>\<rparr>) = Some (Ret (), tu) \<and>
    download_run (ap_pb ap) H junk env_d dt
      (s\<lparr>ts_sock := (ts_sock s)\<lparr>rx := drop (length (tx (ph_sock ph))) (tx (ts_sock tu))\<rparr>\<rparr>) = Some (Ret (), t) \<and>
    tx (ts_sock t) = tx (ts_sock s) @ rx (ph_sock ph) \<and> rx (ts_sock t) = [] \<and>
    d_files (ts_disk t) = (d_files (ts_disk s))
      (dt_file dt \<mapsto> splice (unat (chunk_off f n)) (chunk_bytes f n bs) old)"
proof -
  let ?pb = "ap_pb ap"
  let ?req = "\<lparr>ur_clientid = dt_clientid dt, ur_fileid = tfi_fileid (dt_fileInfo dt), ur_chunknumber = dt_chunk_pos dt\<rparr>"
  have size: "0 < ck_size (tf_chunk f ! n)" "length (chunk_bytes f n bs) = nat (ck_size (tf_chunk f ! n))"
    using assms(14,15) by (auto simp: room_for_def intro: length_chunk_bytes)
  obtain h j where job: "GetJobByFileid (tf_checksum f) (ph_client ph) = Some (h, j)"
    "get_file (tf_checksum f) (ji_localFileInfo (cj_info j)) = Some path"
    "get_one_file_of_same_fileid (ji_torrentInfo (cj_info j)) (tf_checksum f) = Ret (torrent_file_info_of f)"
    using assms(11) by (auto simp: serves_def)
  have fileid: "ur_fileid ?req = tf_checksum f" using assms(1) by (simp add: torrent_file_info_of_def)
  have waiting: "request_waiting ?pb PAYLOAD_UPLOAD_REQUEST (UploadRequestMsg ?req) (ph_sock ph)"
    using assms(6,8,9) by (simp add: request_waiting_def carried_def Let_def)
  have codec: "header_codec ?pb (np_header (upload_reply_pack ap ERROR_OK))"
    using assms(7) by (simp add: carried_def Let_def)
  have task: "HandleUploadRequest peer (Some (UploadRequestMsg ?req)) (ph_client ph) =
      Ret (ERROR_OK, \<lparr>up_returncode = Some (retcode_value ERROR_OK)\<rparr>, Some (chunk_upload f path n))"
    by (rule HandleUploadRequest_task [where req = ?req, unfolded fileid, OF job]) (use assms(2-4,13) size(1) in simp_all)
  from onReadable_upload [OF waiting assms(10) codec task] obtain s' where
    tx: "tx s' = tx (ph_sock ph) @ frame ?pb (upload_reply_pack ap ERROR_OK)"
    and run: "onReadable ap peer ph = start_upload (ph\<lparr>ph_sock := s',
      ph_pTask := Some (chunk_upload f path n), ph_last_request_upload := True\<rparr>)" by auto
  let ?ph' = "ph\<lparr>ph_sock := s', ph_pTask := None, ph_last_request_upload := True,
    ph_uploads := ph_uploads ph @ [chunk_upload f path n]\<rparr>"
  have served: "onReadable ap peer ph = (Ret (), ?ph')" using run assms(12) by (simp add: start_upload_def)
  obtain tu where up: "upload_run H env_u (chunk_upload f path n) (su\<lparr>ts_sock := s'\<lparr>tx_ev := ev\<rparr>\<rparr>) = Some (Ret (), tu)"
    "tx (ts_sock tu) = tx s' @ chunk_bytes f n bs"
    using chunk_upload_runs [of f n path "su\<lparr>ts_sock := s'\<lparr>tx_ev := ev\<rparr>\<rparr>" bs env_u H] assms(14-18) by auto
  let ?s = "s\<lparr>ts_sock := (ts_sock s)\<lparr>rx := drop (length (tx (ph_sock ph))) (tx (ts_sock tu))\<rparr>\<rparr>"
  have rx: "rx (ts_sock ?s) = frame ?pb (upload_reply_pack ap ERROR_OK) @ chunk_bytes f n bs" using up(2) tx by simp
  have "\<exists>t. download_run ?pb H junk env_d dt ?s = Some (Ret (), t) \<and> rx (ts_sock t) = [] \<and>
      tx (ts_sock t) = tx (ts_sock ?s) @ frame ?pb (netpack_of ?pb PAYLOAD_UPLOAD_REQUEST (request_msg dt)) \<and>
      d_files (ts_disk t) = (d_files (ts_disk ?s))
        (dt_file dt \<mapsto> splice (unat (chunk_off f n)) (chunk_bytes f n bs) old)"
    by (rule chunk_download_runs [OF assms(1-3) assms(6,7) _ _ rx size(2)])
      (use assms(5,19-24) size in simp_all)
  moreover have "upload_run H env_u (chunk_upload f path n) (su\<lparr>ts_sock := (ph_sock ?ph')\<lparr>tx_ev := ev\<rparr>\<rparr>) = Some (Ret (), tu)"
    "ph_uploads ?ph' = ph_uploads ph @ [chunk_upload f path n]" "tx (ts_sock ?s) = tx (ts_sock s)"
    "ts_disk ?s = ts_disk s" using up(1) by simp_all
  ultimately show ?thesis using served unfolding assms(8) by metis
qed

text \<open>
  C3: a file is put together from its chunks.  Take the entry that \<open>MakeTorrent\<close> makes of a file
  whose size is no multiple of the piece size, and a file of that size on another disk.  Let download
  tasks for its chunks end in any order, with success or without, more than once, while other files
  change as they like.  When for every chunk one task has succeeded, the file is the original, as far
  as the checksums tell the pieces apart.
\<close>

theorem file_put_together:
  assumes "describes H c content f" and "0 < c" and "\<not> c dvd int (length content)" and "length content < 2 ^ 64"
    and "\<forall>p \<in> set (pieces (nat c) content). \<forall>bs. H bs = H p \<longrightarrow> bs = p"
    and "d_files d0 path = Some blank" and "length blank = length content"
    and "(file_step pb H f path)\<^sup>*\<^sup>* (d0, {}) (d, {..<length (tf_chunk f)})"
  shows "d_files d path = Some content"
proof -
  have "file_verified H f path (length content) (d0, {})" using assms(6,7) by (simp add: file_verified_def)
  from file_steps_verified [OF assms(8) described_apart [OF assms(1-4)] this]
  obtain bs where bs: "d_files d path = Some bs" "length bs = length content"
    "\<forall>n < length (tf_chunk f). H (chunk_bytes f n bs) = ck_checksum (tf_chunk f ! n)"
    by (auto simp: file_verified_def)
  have sums: "map ck_checksum (tf_chunk f) = map H (pieces (nat c) content)"
    using assms(1) by (simp add: describes_def)
  have count: "length (pieces (nat c) content) = length (tf_chunk f)"
    using arg_cong [OF sums, of length] by simp
  have "pieces (nat c) bs ! n = pieces (nat c) content ! n" if "n < length (tf_chunk f)" for n
  proof -
    have "H (pieces (nat c) bs ! n) = H (pieces (nat c) content ! n)"
      using bs(3) described_piece(2) [OF assms(1-4) that bs(2)] that sums count
      by (metis nth_map)
    then show ?thesis using assms(5) that count by auto
  qed
  moreover have "length (pieces (nat c) bs) = length (pieces (nat c) content)"
    using assms(2) bs(2) by (simp add: length_pieces)
  ultimately have "pieces (nat c) bs = pieces (nat c) content" using count by (intro nth_equalityI) auto
  then show ?thesis using bs(1) by (metis concat_pieces)
qed

section \<open>Witnesses\<close>

definition fetch_task :: download_task where
  "fetch_task = \<lparr>dt_fileInfo = torrent_file_info_of small_file, dt_clientid = ''p'', dt_sock = 0,
     dt_chunk_pos = 0, dt_check_sum = ''h2'', dt_file = ''/x'', dt_reported = False\<rparr>"

definition task_at :: "sock \<Rightarrow> string \<Rightarrow> byte list \<Rightarrow> task_state" where
  "task_at sk path bs = \<lparr>ts_info = running_info, ts_sock = sk, ts_engine = [],
     ts_disk = empty_disk\<lparr>d_files := [path \<mapsto> bs]\<rparr>\<rparr>"

lemma task_at_fields [simp]:
  "ts_sock (task_at sk path bs) = sk" "d_files (ts_disk (task_at sk path bs)) = [path \<mapsto> bs]"
  "ts_info (task_at sk path bs) = running_info"
  by (simp_all add: task_at_def)

lemma fetch_request: "request_msg fetch_task = UploadRequestMsg (ask_for ''c'')"
  by (simp add: fetch_task_def ask_for_def torrent_file_info_of_def small_file_def)

lemma serving_carries:
  "carried (ap_pb (serving_app ''c'')) PAYLOAD_UPLOAD_REQUEST (request_msg fetch_task)"
  "carried (ap_pb (serving_app ''c'')) PAYLOAD_UPLOAD_REPLY ok_msg"
proof -
  show "carried (ap_pb (serving_app ''c'')) PAYLOAD_UPLOAD_REQUEST (request_msg fetch_task)"
    using asked_waiting [of "''c''"] unfolding fetch_request by (simp add: request_waiting_def carried_def Let_def)
  have "np_wf (netpack_of (ap_pb (serving_app ''c'')) PAYLOAD_UPLOAD_REPLY ok_msg)"
    by (rule np_wf_netpack_of) (simp add: serving_app_def sample_pb_def)
  then show "carried (ap_pb (serving_app ''c'')) PAYLOAD_UPLOAD_REPLY ok_msg"
    using serving_reply [of ERROR_OK "''c''"]
    by (simp add: carried_def Let_def serving_app_def np_message_def header_fits_def netpack_of_def payload_defs)
      (simp add: sample_defs ask_for_def)
qed

lemma small_room: "bs \<noteq> [] \<Longrightarrow> room_for small_file 0 path (ts_disk (task_at sk path bs))"
  by (cases bs) (simp_all add: room_for_def small_file_def chunk_off_def task_at_def empty_disk_def)

lemma running_rounds: "benign (\<lambda>_. running_info)" "lets_through (\<lambda>_. running_info)"
  by (simp_all add: benign_def lets_through_def open_quota_running) (simp add: running_info_def download_info_init_def)

theorem chunk_travels_between_clients_witness:
  "\<exists>ph' ut tu t. onReadable (serving_app ''c'') (Ret ''p:1'') (asked_handler ''c'') = (Ret (), ph') \<and>
    upload_run demo_hash [\<lambda>_. running_info] ut (task_at ((ph_sock ph')\<lparr>tx_ev := [Io 5]\<rparr>) ''/tmp/d/y'' [7, 8]) =
      Some (Ret (), tu) \<and>
    download_run (ap_pb (serving_app ''c'')) demo_hash 0 [\<lambda>_. running_info] fetch_task
      (task_at ((idle_sock [])\<lparr>rx := tx (ts_sock tu)\<rparr>) ''/x'' [0]) = Some (Ret (), t) \<and>
    d_files (ts_disk t) ''/x'' = Some [7]"
proof -
  let ?ap = "serving_app ''c''"
  let ?su = "task_at (idle_sock []) ''/tmp/d/y'' [7, 8]"
  let ?s = "task_at (idle_sock []) ''/x'' [0]"
  have size: "ck_size (tf_chunk small_file ! 0) = 1" "length (tf_chunk small_file) = 1" "tf_checksum small_file = ''c''"
    "chunk_off small_file 0 = 0"
    by (simp_all add: small_file_def chunk_off_def)
  have dt: "dt_fileInfo fetch_task = torrent_file_info_of small_file" "dt_chunk_pos fetch_task = int 0"
    "dt_check_sum fetch_task = demo_hash bs" "dt_file fetch_task = ''/x''" for bs
    by (simp_all add: fetch_task_def demo_hash_def)
  have serves: "serves small_file ''/tmp/d/y'' (ph_client (asked_handler ''c''))"
    using demo_client_files(1) table_job_file unfolding serves_def asked_handler_fields(1) size(3) by blast
  have asked: "rx (ph_sock (asked_handler ''c'')) = frame (ap_pb ?ap) (netpack_of (ap_pb ?ap) PAYLOAD_UPLOAD_REQUEST
      (request_msg fetch_task))" "rx_ev (ph_sock (asked_handler ''c'')) = []" "tx (ph_sock (asked_handler ''c'')) = []"
    unfolding fetch_request by (simp_all add: asked_handler_def new_peer_handler_def idle_sock_def)
  have "\<exists>ph' ut tu t. onReadable ?ap (Ret ''p:1'') (asked_handler ''c'') = (Ret (), ph') \<and>
    ph_uploads ph' = ph_uploads (asked_handler ''c'') @ [ut] \<and>
    upload_run demo_hash [\<lambda>_. running_info] ut (?su\<lparr>ts_sock := (ph_sock ph')\<lparr>tx_ev := [Io 5]\<rparr>\<rparr>) = Some (Ret (), tu) \<and>
    download_run (ap_pb ?ap) demo_hash 0 [\<lambda>_. running_info] fetch_task
      (?s\<lparr>ts_sock := (ts_sock ?s)\<lparr>rx := drop (length (tx (ph_sock (asked_handler ''c'')))) (tx (ts_sock tu))\<rparr>\<rparr>) =
        Some (Ret (), t) \<and>
    tx (ts_sock t) = tx (ts_sock ?s) @ rx (ph_sock (asked_handler ''c'')) \<and> rx (ts_sock t) = [] \<and>
    d_files (ts_disk t) = (d_files (ts_disk ?s))
      (dt_file fetch_task \<mapsto> splice (unat (chunk_off small_file 0)) (chunk_bytes small_file 0 [7, 8]) [0])"
    by (rule chunk_travels_between_clients [OF dt(1,2) _ _ dt(3) serving_carries asked(1,2) _ serves])
      (simp_all add: size dt(4) small_room running_rounds upload_threads_def, simp_all add: idle_sock_def)
  then show ?thesis
    unfolding asked(3) dt(4) by (force simp: task_at_def splice_def chunk_bytes_def size)
qed

definition one_hash :: "byte list \<Rightarrow> string" where
  "one_hash bs = (if bs = [7] then ''c'' else [])"

definition whole_file :: torrent_file where
  "whole_file = small_file\<lparr>tf_chunk := [\<lparr>ck_checksum = ''c'', ck_size = 1\<rparr>]\<rparr>"

definition whole_task :: download_task where
  "whole_task = fetch_task\<lparr>dt_fileInfo := torrent_file_info_of whole_file, dt_check_sum := ''c''\<rparr>"

theorem file_put_together_witness:
  "\<exists>t. download_run (ap_pb (serving_app ''c'')) one_hash 0 [\<lambda>_. running_info] whole_task
      (task_at (idle_sock (frame (ap_pb (serving_app ''c'')) (netpack_of (ap_pb (serving_app ''c''))
        PAYLOAD_UPLOAD_REPLY ok_msg) @ [7])) ''/x'' [0]) = Some (Ret (), t) \<and>
    d_files (ts_disk t) ''/x'' = Some [7]"
proof -
  let ?pb = "ap_pb (serving_app ''c'')"
  let ?s = "task_at (idle_sock (frame ?pb (netpack_of ?pb PAYLOAD_UPLOAD_REPLY ok_msg) @ [7])) ''/x'' [0]"
  have fs: "tf_chunk whole_file = [\<lparr>ck_checksum = ''c'', ck_size = 1\<rparr>]" "tf_checksum whole_file = ''c''"
    "tf_size whole_file = 1" by (simp_all add: whole_file_def small_file_def)
  have one: "pieces (nat 2) [7] = [[7]]" by (simp add: pieces.simps [of 2 "[7]"])
  have described: "describes one_hash 2 [7] whole_file"
    unfolding describes_def one by (simp add: fs one_hash_def)
  have "request_msg whole_task = request_msg fetch_task"
    by (simp add: whole_task_def fetch_task_def torrent_file_info_of_def whole_file_def small_file_def)
  note wire = serving_carries(1) [folded this] serving_carries(2)
  have task: "download_task_of (Ret ''A'') (torrent_file_info_of whole_file) ''p'' 0 (int 0) ''/x'' = Ret whole_task"
    by (simp add: download_task_of_def chunk_checksum_def chunk_get_def torrent_file_info_of_def fs
        whole_task_def fetch_task_def)
  have room: "room_for whole_file 0 ''/x'' (ts_disk ?s)"
    by (simp add: room_for_def fs chunk_off_def task_at_def empty_disk_def)
  have "\<exists>t. download_run ?pb one_hash 0 [\<lambda>_. running_info] whole_task ?s = Some (Ret (), t) \<and> rx (ts_sock t) = [] \<and>
      tx (ts_sock t) = tx (ts_sock ?s) @ frame ?pb (netpack_of ?pb PAYLOAD_UPLOAD_REQUEST (request_msg whole_task)) \<and>
      d_files (ts_disk t) = (d_files (ts_disk ?s))(dt_file whole_task \<mapsto> splice (unat (chunk_off whole_file 0)) [7] [0])"
    by (rule chunk_download_runs [OF _ _ _ wire, where f = whole_file and n = 0 and content = "[7]"])
      (use room in \<open>simp_all add: whole_task_def fetch_task_def fs one_hash_def running_rounds\<close>,
        simp_all add: idle_sock_def)
  then obtain t where t: "download_run ?pb one_hash 0 [\<lambda>_. running_info] whole_task ?s = Some (Ret (), t)" by blast
  have "{..<length (tf_chunk whole_file)} = insert 0 {}" by (auto simp: fs)
  with file_step.ended [OF task t, of "{}"]
  have step: "(file_step ?pb one_hash whole_file ''/x'')\<^sup>*\<^sup>* (ts_disk ?s, {}) (ts_disk t, {..<length (tf_chunk whole_file)})"
    by (simp add: r_into_rtranclp)
  have "d_files (ts_disk t) ''/x'' = Some [7]"
    by (rule file_put_together [OF described _ _ _ _ _ _ step, of "[0]"]) (unfold one, simp_all add: one_hash_def)
  with t show ?thesis by blast
qed

end
