(* ===== verification/BitmapTruth.thy ===== *)
theory BitmapTruth
  imports ChunkExchange
begin

text \<open>
  What a job's bitmaps say and what is on the disk: the loop of \<open>job.cc\<close>, the download tasks it starts
  and the ends of these tasks together.  A bit that is set stands for a chunk that is in its file with
  the checksum of the torrent.
\<close>

section \<open>Bits, tasks and files\<close>

definition chunk_there :: "(byte list \<Rightarrow> string) \<Rightarrow> job \<Rightarrow> string \<Rightarrow> nat \<Rightarrow> bool" where
  "chunk_there H j fileid n \<longleftrightarrow>
     (\<exists>f path bs. get_one_file_of_same_fileid (ji_torrentInfo (jobInfo j)) fileid = Ret (torrent_file_info_of f) \<and>
        get_file fileid (ji_localFileInfo (jobInfo j)) = Some path \<and> d_files (jb_disk j) path = Some bs \<and>
        n < length (tf_chunk f) \<and> H (chunk_bytes f n bs) = ck_checksum (tf_chunk f ! n))"

definition truthful :: "(byte list \<Rightarrow> string) \<Rightarrow> job \<Rightarrow> bool" where
  "truthful H j \<longleftrightarrow>
     (\<forall>fileid b n. sm_find (bitmap_map (ji_downloadInfo (jobInfo j))) fileid = Some (Some b) \<longrightarrow>
        n < length b \<longrightarrow> b ! n \<longrightarrow> chunk_there H j fileid n)"

text \<open>No two files of the job share a place, and the chunks of a file lie one behind the other.\<close>

definition laid_out :: "job \<Rightarrow> bool" where
  "laid_out j \<longleftrightarrow>
     (\<forall>fileid info. get_one_file_of_same_fileid (ji_torrentInfo (jobInfo j)) fileid = Ret info \<longrightarrow>
        (\<exists>f. info = torrent_file_info_of f \<and> tf_checksum f = fileid \<and> chunks_apart f)) \<and>
     (\<forall>fileid fileid' path. get_file fileid (ji_localFileInfo (jobInfo j)) = Some path \<longrightarrow>
        get_file fileid' (ji_localFileInfo (jobInfo j)) = Some path \<longrightarrow> fileid = fileid')"

text \<open>A task the job has made for one of its files.\<close>

definition task_fits :: "job \<Rightarrow> download_task \<Rightarrow> bool" where
  "task_fits j t \<longleftrightarrow>
     (\<exists>fileid info path peer clientid h.
        get_one_file_of_same_fileid (ji_torrentInfo (jobInfo j)) fileid = Ret info \<and>
        get_file fileid (ji_localFileInfo (jobInfo j)) = Some path \<and>
        download_task_of peer info clientid h (dt_chunk_pos t) path = Ret t)"

definition honest :: "(byte list \<Rightarrow> string) \<Rightarrow> job \<Rightarrow> bool" where
  "honest H j \<longleftrightarrow> truthful H j \<and> laid_out j \<and> (\<forall>t \<in> set (jb_tasks j). task_fits j t)"

text \<open>
  The end of a task as the thread of the pool brings it about: the task runs on the disk as it is, and
  then the observers are called.
\<close>

definition end_of ::
    "protobuf \<Rightarrow> (byte list \<Rightarrow> string) \<Rightarrow> int \<Rightarrow> interference list \<Rightarrow> download_task \<Rightarrow> task_state \<Rightarrow> job \<Rightarrow> job" where
  "end_of pb H junk env t s j =
     (if t \<notin> set (jb_tasks j) then j
      else case download_run pb H junk env t (s\<lparr>ts_disk := jb_disk j\<rparr>) of
        None \<Rightarrow> j
      | Some (r, s) \<Rightarrow> snd (task_end (r \<noteq> Ret ()) t (j\<lparr>jb_disk := ts_disk s\<rparr>)))"

text \<open>Other work that keeps this: it leaves the torrent and the places of the files as they are.\<close>

definition same_files :: "job \<Rightarrow> job \<Rightarrow> bool" where
  "same_files j j' \<longleftrightarrow> ji_torrentInfo (jobInfo j') = ji_torrentInfo (jobInfo j) \<and>
     lf_files (ji_localFileInfo (jobInfo j')) = lf_files (ji_localFileInfo (jobInfo j)) \<and>
     file_places (ji_localFileInfo (jobInfo j')) = file_places (ji_localFileInfo (jobInfo j))"

definition keeps_truth :: "(byte list \<Rightarrow> string) \<Rightarrow> (job \<Rightarrow> job) \<Rightarrow> bool" where
  "keeps_truth H f \<longleftrightarrow> (\<forall>j. honest H j \<longrightarrow> honest H (f j) \<and> same_files j (f j))"

section \<open>Lemmas: what leaves bits and files alone\<close>

text \<open>The parts of a job that matter here, the tasks apart.\<close>

definition same_place :: "job \<Rightarrow> job \<Rightarrow> bool" where
  "same_place j j' \<longleftrightarrow>
     ji_torrentInfo (jobInfo j') = ji_torrentInfo (jobInfo j) \<and>
     (\<forall>c b. sm_find (bitmap_map (ji_downloadInfo (jobInfo j'))) c = Some (Some b) \<longrightarrow>
        sm_find (bitmap_map (ji_downloadInfo (jobInfo j))) c = Some (Some b)) \<and>
     lf_files (ji_localFileInfo (jobInfo j')) = lf_files (ji_localFileInfo (jobInfo j)) \<and>
     file_places (ji_localFileInfo (jobInfo j')) = file_places (ji_localFileInfo (jobInfo j)) \<and>
     jb_disk j' = jb_disk j"

lemma same_place_refl [simp]: "same_place j j"
  by (simp add: same_place_def)

lemma same_place_trans: "same_place a b \<Longrightarrow> same_place b c \<Longrightarrow> same_place a c"
  by (simp add: same_place_def)

lemma same_place_chunks: "same_chunks j j' \<Longrightarrow> same_place j j'"
  by (simp add: same_chunks_def same_place_def)

lemma honest_same_place:
  assumes "honest H j" and "same_place j j'" and "set (jb_tasks j') \<subseteq> set (jb_tasks j)"
  shows "honest H j'"
proof -
  have same: "ji_torrentInfo (jobInfo j') = ji_torrentInfo (jobInfo j)" "jb_disk j' = jb_disk j"
    "get_file c (ji_localFileInfo (jobInfo j')) = get_file c (ji_localFileInfo (jobInfo j))" for c
    using assms(2) by (simp_all add: same_place_def get_file_def)
  have "chunk_there H j' = chunk_there H j" "task_fits j' = task_fits j" "laid_out j' = laid_out j"
    by (intro ext, simp add: chunk_there_def same) (intro ext, simp add: task_fits_def same, simp add: laid_out_def same)
  then show ?thesis
    using assms by (auto simp: honest_def truthful_def same_place_def)
qed

text \<open>A result that leaves them alone, or is honest when the state before was.\<close>

definition stays :: "job \<Rightarrow> ('a, job) result \<Rightarrow> bool" where
  "stays j r \<longleftrightarrow> same_place j (snd r) \<and> jb_tasks (snd r) = jb_tasks j"

lemma stays_honest: "stays j (x, j') \<Longrightarrow> honest H j \<Longrightarrow> honest H j'"
  by (auto simp: stays_def intro: honest_same_place)

lemma stays_quiet: "quiet j r \<Longrightarrow> stays j r"
  by (simp add: stays_def quiet_def same_place_chunks) (simp add: same_chunks_def)

lemma stays_on_sm: "stays j (on_sm f j)"
  by (simp add: stays_def on_sm_def same_place_def split: prod.split)

lemma report_chunk_snd: "\<exists>q. snd (report_chunk st base n f s) = s\<lparr>cs_queue := q\<rparr>"
proof (cases "get_priority (ji_ownerInfoMap (cs_jobInfo s))
    (new_chunk_info\<lparr>ci_status := st, ci_chunk_num := n, ci_fileid := f\<rparr>) base")
  case (Throw e)
  then have "snd (report_chunk st base n f s) = s\<lparr>cs_queue := cs_queue s\<rparr>" by (simp add: report_chunk_def)
  then show ?thesis by blast
qed (auto simp: report_chunk_def)

lemma stays_report: "stays j (on_cs (report_chunk st base n f) j)"
proof -
  obtain r q where "report_chunk st base n f (jb_cs j) = (r, (jb_cs j)\<lparr>cs_queue := q\<rparr>)"
    using report_chunk_snd [of st base n f "jb_cs j"] by (cases "report_chunk st base n f (jb_cs j)") auto
  then show ?thesis by (simp add: stays_def on_cs_def same_place_def)
qed

lemma stays_get_chunk: "get_chunk (jb_cs j) = (c, cs) \<Longrightarrow> stays j (x, j\<lparr>jb_cs := cs\<rparr>)"
  by (auto simp: get_chunk_def stays_def same_place_def split: if_splits)

text \<open>Filling the queue reads the bitmaps; \<open>operator[]\<close> may leave a null entry.\<close>

definition same_bits :: "selector \<Rightarrow> selector \<Rightarrow> bool" where
  "same_bits s s' \<longleftrightarrow> (\<exists>bm q. s' = (set_bitmap_map bm s)\<lparr>cs_queue := q\<rparr> \<and>
     (\<forall>c b. sm_find bm c = Some (Some b) \<longrightarrow> sm_find (bitmap_map (ji_downloadInfo (cs_jobInfo s))) c = Some (Some b)))"

lemma same_bits_queue [simp]: "same_bits s (s\<lparr>cs_queue := q\<rparr>)"
  unfolding same_bits_def
  by (rule exI [of _ "bitmap_map (ji_downloadInfo (cs_jobInfo s))"], rule exI [of _ q])
    (simp add: set_bitmap_map_def)

lemma same_bits_refl [simp]: "same_bits s s"
  using same_bits_queue [of s "cs_queue s"] by simp

lemma same_bits_trans:
  assumes "same_bits a b" and "same_bits b c"
  shows "same_bits a c"
proof -
  obtain bm q bm' q' where b: "b = (set_bitmap_map bm a)\<lparr>cs_queue := q\<rparr>" and c: "c = (set_bitmap_map bm' b)\<lparr>cs_queue := q'\<rparr>"
    and bits: "\<forall>x y. sm_find bm x = Some (Some y) \<longrightarrow> sm_find (bitmap_map (ji_downloadInfo (cs_jobInfo a))) x = Some (Some y)"
      "\<forall>x y. sm_find bm' x = Some (Some y) \<longrightarrow> sm_find (bitmap_map (ji_downloadInfo (cs_jobInfo b))) x = Some (Some y)"
    using assms unfolding same_bits_def by blast
  have "c = (set_bitmap_map bm' a)\<lparr>cs_queue := q'\<rparr>" by (simp add: b c set_bitmap_map_def)
  with bits show ?thesis unfolding same_bits_def by (auto simp: b set_bitmap_map_def)
qed

lemma same_bits_get:
  "same_bits s ((set_bitmap_map (snd (sm_get None f (bitmap_map (ji_downloadInfo (cs_jobInfo s))))) s)\<lparr>cs_queue := q\<rparr>)"
  unfolding same_bits_def
  by (intro exI conjI, rule refl) (auto simp: sm_get_def sm.find_set split: option.splits if_splits)

lemma init_chunk_bits: "same_bits s (snd (init_chunk f n s))"
proof -
  let ?g = "sm_get None f (bitmap_map (ji_downloadInfo (cs_jobInfo s)))"
  have "\<exists>q. snd (init_chunk f n s) = (set_bitmap_map (snd ?g) s)\<lparr>cs_queue := q\<rparr>"
  proof -
    have "set_bitmap_map (snd ?g) s = (set_bitmap_map (snd ?g) s)\<lparr>cs_queue := cs_queue s\<rparr>"
      by (simp add: set_bitmap_map_def)
    then show ?thesis
      by (simp add: init_chunk_def Let_def split_def split: option.split outcome.split) blast
  qed
  with same_bits_get show ?thesis by metis
qed

lemma same_bits_and_then:
  "same_bits s (snd r) \<Longrightarrow> (\<And>x t. same_bits t (snd (f x t))) \<Longrightarrow> same_bits s (snd (and_then r f))"
  by (cases r; cases "fst r") (auto intro: same_bits_trans)

lemma init_chunks_bits: "same_bits s (snd (init_chunks f ns s))"
  by (induction ns arbitrary: s) (auto intro!: same_bits_and_then init_chunk_bits)

lemma init_files_bits: "same_bits s (snd (init_files fs s))"
  by (induction fs arbitrary: s)
    (auto simp: check_def intro!: same_bits_and_then init_chunks_bits split: option.split)

lemma stays_init_queue: "stays j (on_cs init_queue j)"
proof -
  obtain r cs where init: "init_queue (jb_cs j) = (r, cs)" by fastforce
  have "same_bits (jb_cs j) cs"
    using same_bits_trans [OF same_bits_queue init_files_bits] init unfolding init_queue_def by (metis snd_conv)
  with init show ?thesis
    by (auto simp: stays_def on_cs_def same_place_def same_bits_def set_bitmap_map_def)
qed

section \<open>Lemmas: the loop\<close>

lemma same_files_refl [simp]: "same_files j j"
  by (simp add: same_files_def)

lemma same_files_trans: "same_files a b \<Longrightarrow> same_files b c \<Longrightarrow> same_files a c"
  by (simp add: same_files_def)

lemma same_place_files: "same_place j j' \<Longrightarrow> same_files j j'"
  by (simp add: same_place_def same_files_def)

text \<open>What a call with waits comes to.\<close>

definition goes_on :: "(byte list \<Rightarrow> string) \<Rightarrow> job \<Rightarrow> others list \<Rightarrow> job \<Rightarrow> others list \<Rightarrow> bool" where
  "goes_on H j env j' env' \<longleftrightarrow> honest H j' \<and> same_files j j' \<and> set env' \<subseteq> set env"

lemma goes_on_stays: "honest H j \<Longrightarrow> stays j (x, j') \<Longrightarrow> set env' \<subseteq> set env \<Longrightarrow> goes_on H j env j' env'"
  by (auto simp: goes_on_def intro: stays_honest) (simp add: stays_def same_place_files)

lemma goes_on_trans: "goes_on H a e b f \<Longrightarrow> goes_on H b f c g \<Longrightarrow> goes_on H a e c g"
  by (auto simp: goes_on_def intro: same_files_trans)

lemma goes_on_act:
  "honest H j \<Longrightarrow> keeps_truth H (acts f) \<Longrightarrow> set env' \<subseteq> set env \<Longrightarrow> goes_on H j env (acts f j) env'"
  by (simp add: goes_on_def keeps_truth_def)

lemma honest_wait_for_sock:
  "honest H j \<Longrightarrow> \<forall>f \<in> set env. keeps_truth H (acts f) \<Longrightarrow>
     wait_for_sock c env j = Some ((r, j'), env') \<Longrightarrow> goes_on H j env j' env'"
proof (induction env arbitrary: j)
  case Nil
  obtain q j1 where get: "on_sm (get_idle_client_sock c) j = (q, j1)" by fastforce
  from stays_on_sm [of j "get_idle_client_sock c"] have "stays j (q, j1)" unfolding get .
  with Nil get show ?case
    by (auto simp: wait_for_sock.simps [of c "[]"] intro: goes_on_stays
        split: outcome.splits option.splits prod.splits)
next
  case (Cons f env)
  obtain q j1 where get: "on_sm (get_idle_client_sock c) j = (q, j1)" by fastforce
  from stays_on_sm [of j "get_idle_client_sock c"] have stays: "stays j (q, j1)" unfolding get .
  then have first: "goes_on H j (f # env) j1 (f # env)" using Cons.prems(1) by (blast intro: goes_on_stays)
  show ?case
  proof (cases "q = Ret None \<and> (\<exists>x m. get_sock_idel_condition c (jb_sockManager j1) = (Ret x, m))")
    case True
    with Cons.prems(3) get have rest: "wait_for_sock c env (acts f j1) = Some ((r, j'), env')"
      by (subst (asm) wait_for_sock.simps) auto
    have "goes_on H j1 (f # env) (acts f j1) env"
      using first Cons.prems(2) by (auto simp: goes_on_def [of H j] intro!: goes_on_act)
    moreover from this have "goes_on H (acts f j1) env j' env'"
      using Cons.IH [OF _ _ rest] Cons.prems(2) by (simp add: goes_on_def)
    ultimately show ?thesis using first goes_on_trans by blast
  next
    case False
    with Cons.prems(3) get have "j' = j1 \<and> env' = f # env"
      by (subst (asm) wait_for_sock.simps) (auto split: outcome.splits option.splits prod.splits)
    with first show ?thesis by simp
  qed
qed

lemma honest_wait_for_thread:
  "honest H j \<Longrightarrow> \<forall>f \<in> set env. keeps_truth H (acts f) \<Longrightarrow>
     wait_for_thread env j = Some (j', env') \<Longrightarrow> goes_on H j env j' env'"
proof (induction env arbitrary: j)
  case Nil
  then show ?case by (subst (asm) wait_for_thread.simps) (auto simp: goes_on_def split: if_splits)
next
  case (Cons f env)
  show ?case
  proof (cases "length (jb_tasks j) < pool_capacity")
    case True
    with Cons.prems show ?thesis by (auto simp: wait_for_thread.simps [of "f # env"] goes_on_def)
  next
    case False
    then have rest: "wait_for_thread env (acts f j) = Some (j', env')"
      using Cons.prems(3) by (subst (asm) wait_for_thread.simps) simp
    have "goes_on H j (f # env) (acts f j) env" using Cons.prems(1,2) by (auto intro!: goes_on_act)
    moreover from this have "goes_on H (acts f j) env j' env'"
      using Cons.IH [OF _ _ rest] Cons.prems(2) by (simp add: goes_on_def)
    ultimately show ?thesis by (rule goes_on_trans)
  qed
qed

lemma honest_start_task:
  assumes "honest H j" and "\<forall>f \<in> set env. keeps_truth H (acts f)"
    and "get_one_file_of_same_fileid (ji_torrentInfo (jobInfo j)) fileid = Ret info"
    and "start_task info (get_file fileid (ji_localFileInfo (jobInfo j))) c h n env j = Some ((r, j'), env')"
  shows "goes_on H j env j' env'"
proof (cases "get_file fileid (ji_localFileInfo (jobInfo j))")
  case None
  with assms(1,4) show ?thesis by (simp add: start_task_def goes_on_def)
next
  case (Some path)
  with assms(4) obtain j1 where wait: "wait_for_thread env j = Some (j1, env')"
    by (auto simp: start_task_def split: option.splits outcome.splits exn.splits)
  note first = honest_wait_for_thread [OF assms(1,2) wait]
  show ?thesis
  proof (cases "download_task_of (peerAddress h (jb_sockManager j1)) info c h n path")
    case (Ret t)
    with assms(4) Some wait have j': "j' = j1\<lparr>jb_tasks := jb_tasks j1 @ [t]\<rparr>" by (simp add: start_task_def)
    have same: "ji_torrentInfo (jobInfo j1) = ji_torrentInfo (jobInfo j)"
      "get_file fileid (ji_localFileInfo (jobInfo j1)) = Some path"
      using first Some by (simp_all add: goes_on_def same_files_def get_file_def)
    have "dt_chunk_pos t = n" using Ret by (auto simp: download_task_of_def split: outcome.splits)
    with same Ret assms(3) have "task_fits j1 t" unfolding task_fits_def by metis
    moreover have "task_fits j' = task_fits j1" "truthful H j' = truthful H j1" "laid_out j' = laid_out j1"
      by (simp_all add: j' task_fits_def [abs_def] truthful_def chunk_there_def laid_out_def)
    ultimately show ?thesis using first by (auto simp: goes_on_def honest_def same_files_def j')
  next
    case (Throw e)
    with assms(4) Some wait have "j' = j1" by (auto simp: start_task_def split: exn.splits)
    with first show ?thesis by simp
  qed
qed

lemma honest_download_chunk:
  assumes "honest H j" and "\<forall>f \<in> set env. keeps_truth H (acts f)"
    and "download_chunk c env j = Some ((r, j'), env')"
  shows "goes_on H j env j' env'"
proof -
  let ?peer = "choose_owner (ci_clientLists c) j"
  obtain q j1 env1 where wait: "wait_for_sock ?peer env j = Some ((q, j1), env1)"
    using assms(3) by (auto simp: download_chunk_def Let_def split: option.splits)
  note first = honest_wait_for_sock [OF assms(1,2) wait]
  show ?thesis
  proof (cases "\<exists>h info. q = Ret h \<and>
      get_one_file_of_same_fileid (ji_torrentInfo (jobInfo j1)) (ci_fileid c) = Ret info")
    case True
    then obtain h info where q: "q = Ret h"
      and info: "get_one_file_of_same_fileid (ji_torrentInfo (jobInfo j1)) (ci_fileid c) = Ret info" by blast
    obtain has lf where local: "has_local_file (ci_fileid c) (tf_relativepath (tfi_file info))
        (tf_filename (tfi_file info)) (ji_localFileInfo (jobInfo j1)) = (has, lf)" by fastforce
    define j2 where "j2 = set_jobInfo ((jobInfo j1)\<lparr>ji_localFileInfo := lf\<rparr>) j1"
    have "stays j1 (Ret (), j2)"
      unfolding j2_def using has_local_file_files [OF local] has_local_file_places [OF local]
      by (simp add: stays_def same_place_def set_jobInfo_def)
    then have "goes_on H j1 env1 j2 env1" using first by (simp add: goes_on_stays goes_on_def [of H j])
    then have second: "goes_on H j env j2 env1" by (rule goes_on_trans [OF first])
    show ?thesis
    proof (cases has)
      case False
      with assms(3) wait q info local second show ?thesis by (auto simp: download_chunk_def Let_def j2_def)
    next
      case True
      with assms(3) wait q info local have start: "start_task info (get_file (ci_fileid c) (ji_localFileInfo (jobInfo j2)))
          ?peer h (ci_chunk_num c) env1 j2 = Some ((r, j'), env')"
        by (auto simp: download_chunk_def Let_def j2_def set_jobInfo_def)
      have "get_one_file_of_same_fileid (ji_torrentInfo (jobInfo j2)) (ci_fileid c) = Ret info"
        using info by (simp add: j2_def set_jobInfo_def)
      from honest_start_task [OF _ _ this start] second assms(2)
      have "goes_on H j2 env1 j' env'" by (auto simp: goes_on_def)
      then show ?thesis by (rule goes_on_trans [OF second])
    qed
  next
    case False
    with assms(3) wait have "j' = j1 \<and> env' = env1"
      by (auto simp: download_chunk_def Let_def split: outcome.splits)
    with first show ?thesis by simp
  qed
qed

lemma honest_round:
  assumes "honest H j" and "\<forall>f \<in> set env. keeps_truth H (acts f)"
    and "job_round ap env j = Some ((r, j'), env')"
  shows "goes_on H j env j' env'"
proof (cases "is_job_removed (ji_downloadInfo (jobInfo j)) \<or> is_stopped (ji_downloadInfo (jobInfo j)) \<or>
    is_download_paused (ji_downloadInfo (jobInfo j))")
  case True
  with assms have "(j' = j \<and> env' = env) \<or> (\<exists>f. f \<in> set env \<and> j' = acts f j \<and> set env' \<subseteq> set env)"
    by (auto simp: job_round_def split: if_splits list.splits others.splits)
  with assms(1,2) show ?thesis
    by (elim disjE exE conjE) (simp add: goes_on_def, auto intro!: goes_on_act)
next
  case False
  obtain c cs where get: "get_chunk (jb_cs j) = (c, cs)" by fastforce
  have taken: "goes_on H j env (j\<lparr>jb_cs := cs\<rparr>) env"
    using assms(1) stays_get_chunk [OF get] by (rule goes_on_stays) simp
  show ?thesis
  proof (cases c)
    case None
    with False get assms(3) taken show ?thesis by (simp add: job_round_def)
  next
    case (Some chunk_info)
    let ?j = "j\<lparr>jb_cs := cs\<rparr>"
    let ?found = "if ci_status chunk_info = NOOWNER
      then reinit_file_owner_info ap (ci_fileid chunk_info) ?j else (Ret (), ?j)"
    obtain q j1 where found: "?found = (q, j1)" by fastforce
    have "stays ?j (q, j1)"
      using stays_quiet [OF quiet_reinit, of ?j ap "ci_fileid chunk_info"] found
      by (auto simp: stays_def split: if_splits)
    then have "goes_on H ?j env j1 env" using taken by (auto simp: goes_on_def [of H j] intro!: goes_on_stays)
    then have first: "goes_on H j env j1 env" by (rule goes_on_trans [OF taken])
    then have h1: "honest H j1" by (simp add: goes_on_def)
    show ?thesis
    proof (cases q)
      case (Throw e)
      with False get Some found assms(3) first show ?thesis by (auto simp: job_round_def)
    next
      case (Ret u)
      show ?thesis
      proof (cases "length (ci_clientLists chunk_info) = 0")
        case True
        obtain q2 j2 where report:
          "on_cs (report_no_owner_chunk (ci_chunk_num chunk_info) (ci_fileid chunk_info)) j1 = (q2, j2)" by fastforce
        have "stays j1 (q2, j2)"
          using stays_report [of j1 NOOWNER] report unfolding report_no_owner_chunk_def [abs_def] by metis
        then have "goes_on H j1 env j2 env" by (intro goes_on_stays [OF h1]) simp_all
        moreover have "j' = j2 \<and> env' = env"
          using False get Some found assms(3) Ret True report by (cases q2) (auto simp: job_round_def)
        ultimately show ?thesis using goes_on_trans [OF first] by blast
      next
        case nonempty: False
        obtain q2 j2 env2 where load: "download_chunk chunk_info env j1 = Some ((q2, j2), env2)"
          using False get Some found assms(3) Ret nonempty by (auto simp: job_round_def split: option.splits)
        then have "j' = j2 \<and> env' = env2"
          using False get Some found assms(3) Ret nonempty by (cases q2) (auto simp: job_round_def)
        with honest_download_chunk [OF h1 assms(2) load] show ?thesis using goes_on_trans [OF first] by blast
      qed
    qed
  qed
qed

lemma honest_loop:
  "honest H j \<Longrightarrow> \<forall>f \<in> set env. keeps_truth H (acts f) \<Longrightarrow> job_loop n ap env j = Some ((r, j'), env') \<Longrightarrow>
     goes_on H j env j' env'"
proof (induction n arbitrary: env j)
  case (Suc n)
  then obtain q j1 env1 where round: "job_round ap env j = Some ((q, j1), env1)"
    by (auto split: option.splits)
  note first = honest_round [OF Suc.prems(1,2) round]
  show ?case
  proof (cases "q = Ret Again")
    case True
    with Suc.prems(3) round have rest: "job_loop n ap env1 j1 = Some ((r, j'), env')" by simp
    from Suc.IH [OF _ _ rest] first Suc.prems(2) have "goes_on H j1 env1 j' env'" by (auto simp: goes_on_def)
    then show ?thesis by (rule goes_on_trans [OF first])
  next
    case False
    with Suc.prems(3) round have "j' = j1 \<and> env' = env1" by (auto split: outcome.splits round_end.splits)
    with first show ?thesis by simp
  qed
qed simp

lemma stays_trans: "stays a (x, b) \<Longrightarrow> stays b r \<Longrightarrow> stays a r"
  by (auto simp: stays_def intro: same_place_trans)

lemma stays_start_run: "stays j (job_start_run ap j)"
proof -
  let ?j = "j\<lparr>jb_is_running := True\<rparr>"
  obtain q j1 where find: "find_owners ap (fileidlist (jb_cs ?j)) ?j = (q, j1)" by fastforce
  have "stays j (q, ?j)" by (simp add: stays_def same_place_def)
  moreover have "stays ?j (q, j1)" using stays_quiet [OF quiet_find_owners] find by metis
  ultimately have first: "stays j (q, j1)" by (rule stays_trans)
  show ?thesis
  proof (cases q)
    case (Ret u)
    with find stays_trans [OF first stays_init_queue] show ?thesis by (simp add: job_start_run_def)
  next
    case (Throw e)
    with find first show ?thesis by (simp add: job_start_run_def stays_def)
  qed
qed

lemma honest_start_run:
  "honest H j \<Longrightarrow> job_start_run ap j = (r, j') \<Longrightarrow> honest H j'"
  by (metis stays_honest stays_start_run)

lemma honest_join_all:
  "honest H j \<Longrightarrow> \<forall>f \<in> set env. keeps_truth H (acts f) \<Longrightarrow> join_all env j = Some (j', env') \<Longrightarrow>
     goes_on H j env j' env'"
proof (induction env arbitrary: j)
  case Nil
  then show ?case by (subst (asm) join_all.simps) (auto simp: goes_on_def split: if_splits)
next
  case (Cons f env)
  show ?case
  proof (cases "jb_tasks j = []")
    case True
    with Cons.prems show ?thesis by (auto simp: goes_on_def join_all.simps [of "f # env"])
  next
    case False
    then have rest: "join_all env (acts f j) = Some (j', env')" using Cons.prems(3) by (subst (asm) join_all.simps) simp
    have first: "goes_on H j (f # env) (acts f j) env" using Cons.prems(1,2) by (auto intro!: goes_on_act)
    moreover from this have "goes_on H (acts f j) env j' env'"
      using Cons.IH [OF _ _ rest] Cons.prems(2) by (simp add: goes_on_def)
    ultimately show ?thesis by (rule goes_on_trans)
  qed
qed

section \<open>Lemmas: the end of a task\<close>

lemma stays_onFinished_reported: "dt_reported t \<Longrightarrow> stays j (onFinished t j)"
  by (simp add: onFinished_def stays_on_sm)

lemma task_end_failed:
  "task_end True t j = (r, j') \<Longrightarrow> stays (j\<lparr>jb_tasks := remove1 t (jb_tasks j)\<rparr>) (r, j')"
proof -
  assume ended: "task_end True t j = (r, j')"
  let ?j = "j\<lparr>jb_tasks := remove1 t (jb_tasks j)\<rparr>"
  obtain q j1 where report: "on_cs (report_failed_chunk (dt_chunk_pos t) (tfi_fileid (dt_fileInfo t))) ?j = (q, j1)"
    by fastforce
  have first: "stays ?j (q, j1)"
    using stays_report [of ?j FAILED] report unfolding report_failed_chunk_def [abs_def] by metis
  show "stays ?j (r, j')"
  proof (cases q)
    case (Ret u)
    with ended report have "onFinished (t\<lparr>dt_reported := True\<rparr>) j1 = (r, j')"
      by (simp add: task_end_def onFailed_def Let_def)
    with stays_onFinished_reported [of "t\<lparr>dt_reported := True\<rparr>" j1] have "stays j1 (r, j')" by simp
    with first show ?thesis by (auto simp: stays_def intro: same_place_trans)
  next
    case (Throw e)
    with ended report first show ?thesis by (simp add: task_end_def onFailed_def Let_def stays_def)
  qed
qed

text \<open>A success sets one bit, or none.\<close>

lemma report_success_bits:
  assumes "report_success_chunk n f s = (r, s')"
  shows "\<exists>bm. s' = set_bitmap_map bm s \<and> (\<forall>c b k. sm_find bm c = Some (Some b) \<longrightarrow> k < length b \<longrightarrow> b ! k \<longrightarrow>
    (c = f \<and> int k = n) \<or>
    (\<exists>b'. sm_find (bitmap_map (ji_downloadInfo (cs_jobInfo s))) c = Some (Some b') \<and> k < length b' \<and> b' ! k))"
proof -
  let ?bm = "bitmap_map (ji_downloadInfo (cs_jobInfo s))"
  let ?g = "snd (sm_get None f ?bm)"
  have old: "sm_find ?g c = Some (Some b) \<Longrightarrow> sm_find ?bm c = Some (Some b)" for c b
    by (auto simp: sm_get_def sm.find_set split: option.splits if_splits)
  show ?thesis
  proof (cases "\<exists>b b'. sm_find ?bm f = Some (Some b) \<and> bs_assign b n True = Ret b'")
    case True
    then obtain b b' where b: "sm_find ?bm f = Some (Some b)" "bs_assign b n True = Ret b'" by blast
    then have "s' = set_bitmap_map (sm_set f (Some b') ?bm) s"
      using assms by (simp add: report_success_chunk_def sm_get_def set_bitmap_map_def)
    moreover have "int k = n \<or> k < length b \<and> b ! k" if "k < length b'" "b' ! k" for k
      using b(2) that by (auto simp: bs_assign_def nth_list_update split: if_splits)
    ultimately show ?thesis using b(1)
      by (intro exI [of _ "sm_set f (Some b') ?bm"]) (auto simp: sm.find_set split: if_splits)
  next
    case False
    with assms have "s' = set_bitmap_map ?g s"
      by (auto simp: report_success_chunk_def sm_get_def Let_def split: option.splits outcome.splits)
    with old show ?thesis by blast
  qed
qed

lemma download_task_fields:
  "download_task_of peer info clientid h n path = Ret t \<Longrightarrow> dt_file t = path \<and> dt_fileInfo t = info \<and>
     chunk_checksum info n = Ret (dt_check_sum t) \<and> \<not> dt_reported t"
  by (auto simp: download_task_of_def split: outcome.splits)

lemma fits_facts:
  assumes "task_fits j t" and "laid_out j"
  obtains f n where "get_one_file_of_same_fileid (ji_torrentInfo (jobInfo j)) (tf_checksum f) = Ret (torrent_file_info_of f)"
    and "get_file (tf_checksum f) (ji_localFileInfo (jobInfo j)) = Some (dt_file t)" and "chunks_apart f"
    and "dt_fileInfo t = torrent_file_info_of f"
    and "chunk_checksum (torrent_file_info_of f) (dt_chunk_pos t) = Ret (dt_check_sum t)" and "\<not> dt_reported t"
proof -
  from assms(1) obtain fileid info path peer clientid h where
    info: "get_one_file_of_same_fileid (ji_torrentInfo (jobInfo j)) fileid = Ret info"
    and path: "get_file fileid (ji_localFileInfo (jobInfo j)) = Some path"
    and t: "download_task_of peer info clientid h (dt_chunk_pos t) path = Ret t"
    unfolding task_fits_def by blast
  from assms(2) info obtain f where f: "info = torrent_file_info_of f" "tf_checksum f = fileid" "chunks_apart f"
    unfolding laid_out_def by blast
  from download_task_fields [OF t] info path f that show ?thesis by metis
qed

text \<open>A chunk that is written with the torrent's checksum is there, and every other stays there.\<close>

lemma chunk_there_written:
  assumes "laid_out j" and "task_fits j t" and "download_run pb H junk env t s = Some (Ret (), s')"
    and "ts_disk s = jb_disk j"
  shows "\<exists>n. dt_chunk_pos t = int n \<and> chunk_there H (j\<lparr>jb_disk := ts_disk s'\<rparr>) (tfi_fileid (dt_fileInfo t)) n"
    and "chunk_there H j fileid k \<Longrightarrow> chunk_there H (j\<lparr>jb_disk := ts_disk s'\<rparr>) fileid k"
proof -
  obtain f where f: "get_one_file_of_same_fileid (ji_torrentInfo (jobInfo j)) (tf_checksum f) = Ret (torrent_file_info_of f)"
    "get_file (tf_checksum f) (ji_localFileInfo (jobInfo j)) = Some (dt_file t)" "chunks_apart f"
    "dt_fileInfo t = torrent_file_info_of f"
    "chunk_checksum (torrent_file_info_of f) (dt_chunk_pos t) = Ret (dt_check_sum t)"
    by (rule fits_facts [OF assms(2,1)])
  from download_run_writes [OF assms(3)] obtain content off bs where
    run: "chunk_size (torrent_file_info_of f) (dt_chunk_pos t) = Ret (int (length content))" "H content = dt_check_sum t"
      "chunk_offset (torrent_file_info_of f) (dt_chunk_pos t) = Ret off" "d_files (jb_disk j) (dt_file t) = Some bs"
      "unat off + length content \<le> length bs"
      "d_files (ts_disk s') = (d_files (jb_disk j))(dt_file t \<mapsto> splice (unat off) content bs)"
    using assms(4) f(4) by auto
  from run(1) have "0 \<le> dt_chunk_pos t" "dt_chunk_pos t < int (length (tf_chunk f))"
    by (auto simp: chunk_size_def chunk_get_def torrent_file_info_of_def split: if_splits)
  then obtain n where n: "dt_chunk_pos t = int n" "n < length (tf_chunk f)" by (cases "dt_chunk_pos t") auto
  with run(1,3) have geo: "length content = nat (ck_size (tf_chunk f ! n))" "off = chunk_off f n"
    by (simp_all add: chunk_geometry)
  have sum: "dt_check_sum t = ck_checksum (tf_chunk f ! n)"
    using f(5) n by (auto simp: chunk_checksum_def chunk_get_def torrent_file_info_of_def)
  have bytes: "chunk_bytes f m (splice (unat off) content bs) = (if m = n then content else chunk_bytes f m bs)"
    if "m < length (tf_chunk f)" for m
    using chunk_bytes_splice [OF f(3) that n(2) geo(1)] run(5) geo(2) by simp
  have "chunk_there H (j\<lparr>jb_disk := ts_disk s'\<rparr>) (tf_checksum f) n"
    unfolding chunk_there_def using f(1,2) run(2,6) n(2) bytes [OF n(2)] sum by auto
  moreover have "tfi_fileid (dt_fileInfo t) = tf_checksum f" using f(4) by (simp add: torrent_file_info_of_def)
  ultimately show "\<exists>n. dt_chunk_pos t = int n \<and> chunk_there H (j\<lparr>jb_disk := ts_disk s'\<rparr>) (tfi_fileid (dt_fileInfo t)) n"
    using n(1) by simp
  assume there: "chunk_there H j fileid k"
  then obtain g path cs where g: "get_one_file_of_same_fileid (ji_torrentInfo (jobInfo j)) fileid = Ret (torrent_file_info_of g)"
    "get_file fileid (ji_localFileInfo (jobInfo j)) = Some path" "d_files (jb_disk j) path = Some cs"
    "k < length (tf_chunk g)" "H (chunk_bytes g k cs) = ck_checksum (tf_chunk g ! k)"
    unfolding chunk_there_def by blast
  show "chunk_there H (j\<lparr>jb_disk := ts_disk s'\<rparr>) fileid k"
  proof (cases "path = dt_file t")
    case True
    with assms(1) g(2) f(2) have "fileid = tf_checksum f" unfolding laid_out_def by blast
    with f(1) g(1) have same: "tfi_file (torrent_file_info_of g) = tfi_file (torrent_file_info_of f)" by simp
    then have "g = f" by (simp add: torrent_file_info_of_def)
    with True g run(2,4,6) bytes [of k] sum show ?thesis unfolding chunk_there_def by auto
  next
    case False
    with g run(6) show ?thesis unfolding chunk_there_def by auto
  qed
qed

lemma honest_task_end:
  assumes "honest H j" and "t \<in> set (jb_tasks j)"
    and "download_run pb H junk env t s = Some (r, s')" and "ts_disk s = jb_disk j"
    and "task_end (r \<noteq> Ret ()) t (j\<lparr>jb_disk := ts_disk s'\<rparr>) = (q, j')"
  shows "honest H j' \<and> same_files j j'"
proof -
  let ?j = "j\<lparr>jb_disk := ts_disk s', jb_tasks := remove1 t (jb_tasks j)\<rparr>"
  have fits: "task_fits j t" and laid: "laid_out j" and truth: "truthful H j" using assms(1,2) by (auto simp: honest_def)
  have fewer: "set (remove1 t (jb_tasks j)) \<subseteq> set (jb_tasks j)" by (rule set_remove1_subset)
  have order: "j\<lparr>jb_disk := x, jb_tasks := y\<rparr> = (j\<lparr>jb_disk := x\<rparr>)\<lparr>jb_tasks := y\<rparr>" for x y by simp
  show ?thesis
  proof (cases "r = Ret ()")
    case False
    then have "ts_disk s' = jb_disk j" using download_run_writes [OF assms(3)] assms(4) by simp
    then have "same_place j ?j" by (simp add: same_place_def)
    moreover have "stays ?j (q, j')"
      using task_end_failed [of t "j\<lparr>jb_disk := ts_disk s'\<rparr>" q j'] False assms(5) by simp
    ultimately have "same_place j j'" "set (jb_tasks j') \<subseteq> set (jb_tasks j)"
      using same_place_trans [of j ?j j'] fewer by (auto simp: stays_def)
    with assms(1) show ?thesis using honest_same_place same_place_files by blast
  next
    case True
    note written = chunk_there_written [OF laid fits assms(3) [unfolded True] assms(4)]
    obtain n where n: "dt_chunk_pos t = int n"
      "chunk_there H (j\<lparr>jb_disk := ts_disk s'\<rparr>) (tfi_fileid (dt_fileInfo t)) n" using written(1) by blast
    obtain f where "\<not> dt_reported t" by (rule fits_facts [OF fits laid])
    obtain q1 cs where report: "report_success_chunk (int n) (tfi_fileid (dt_fileInfo t)) (jb_cs j) = (q1, cs)" by fastforce
    from report_success_bits [OF report] obtain bm where cs: "cs = set_bitmap_map bm (jb_cs j)"
      and bits: "\<forall>c b k. sm_find bm c = Some (Some b) \<longrightarrow> k < length b \<longrightarrow> b ! k \<longrightarrow>
        (c = tfi_fileid (dt_fileInfo t) \<and> int k = int n) \<or>
        (\<exists>b'. sm_find (bitmap_map (ji_downloadInfo (jobInfo j))) c = Some (Some b') \<and> k < length b' \<and> b' ! k)"
      by blast
    let ?j1 = "?j\<lparr>jb_cs := cs\<rparr>"
    have there: "chunk_there H ?j1 = chunk_there H (j\<lparr>jb_disk := ts_disk s'\<rparr>)"
      by (intro ext) (simp add: chunk_there_def cs set_bitmap_map_def)
    have "truthful H ?j1"
      unfolding truthful_def there
    proof (intro allI impI)
      fix fileid b k
      assume "sm_find (bitmap_map (ji_downloadInfo (jobInfo ?j1))) fileid = Some (Some b)" and k: "k < length b" "b ! k"
      then have "sm_find bm fileid = Some (Some b)" by (simp add: cs set_bitmap_map_def)
      with bits k consider "fileid = tfi_fileid (dt_fileInfo t)" "k = n" |
        b' where "sm_find (bitmap_map (ji_downloadInfo (jobInfo j))) fileid = Some (Some b')" "k < length b'" "b' ! k"
        by fastforce
      then show "chunk_there H (j\<lparr>jb_disk := ts_disk s'\<rparr>) fileid k"
      proof cases
        case 2
        with truth have "chunk_there H j fileid k" unfolding truthful_def by blast
        then show ?thesis by (rule written(2))
      qed (use n(2) in simp)
    qed
    moreover have "laid_out ?j1" "task_fits ?j1 = task_fits j"
      using laid by (simp_all add: laid_out_def task_fits_def [abs_def] cs set_bitmap_map_def)
    ultimately have "honest H ?j1" using assms(1) fewer by (auto simp: honest_def)
    moreover have "stays ?j1 (q, j')"
    proof (cases q1)
      case (Ret u)
      with assms(5) True n(1) report \<open>\<not> dt_reported t\<close>
      have "on_sm (return_sock (dt_clientid t) (Some (dt_sock t))) ?j1 = (q, j')"
        by (simp add: task_end_def onFinished_def on_cs_def)
      with stays_on_sm [of ?j1] show ?thesis by metis
    next
      case (Throw e)
      with assms(5) True n(1) report \<open>\<not> dt_reported t\<close> have "j' = ?j1"
        by (simp add: task_end_def onFinished_def on_cs_def)
      then show ?thesis by (simp add: stays_def)
    qed
    moreover have "same_files j ?j1" by (simp add: same_files_def cs set_bitmap_map_def)
    ultimately have "honest H j'" "same_files j ?j1" "same_files ?j1 j'"
      using stays_honest [of ?j1 q j' H] same_place_files [of ?j1 j'] by (simp_all add: stays_def)
    then show ?thesis using same_files_trans by blast
  qed
qed

lemma keeps_truth_end_of: "keeps_truth H (end_of pb H junk env t s)"
  unfolding keeps_truth_def
proof (intro allI impI)
  fix j assume h: "honest H j"
  show "honest H (end_of pb H junk env t s j) \<and> same_files j (end_of pb H junk env t s j)"
  proof (cases "t \<in> set (jb_tasks j) \<and> download_run pb H junk env t (s\<lparr>ts_disk := jb_disk j\<rparr>) \<noteq> None")
    case True
    then obtain r s' where run: "download_run pb H junk env t (s\<lparr>ts_disk := jb_disk j\<rparr>) = Some (r, s')" by auto
    obtain q j' where "task_end (r \<noteq> Ret ()) t (j\<lparr>jb_disk := ts_disk s'\<rparr>) = (q, j')" by fastforce
    with honest_task_end [OF h _ run _ this] True run show ?thesis by (simp add: end_of_def)
  next
    case False
    then have "end_of pb H junk env t s j = j" by (auto simp: end_of_def split: option.split)
    with h show ?thesis by simp
  qed
qed

section \<open>Lemmas: a job that has just been made\<close>

text \<open>
  A job that has just been made is honest when the torrent's files have places of their own and their
  chunks lie one behind the other: no bit is set and no task is made yet.
\<close>

lemma new_job_honest:
  assumes "job_info_of ju jd t path needs d = (ji, d')" and "paths_allowed path (to_file t) d"
    and "inj_on (full_path path) (set (to_file t))" and "\<forall>f \<in> set (to_file t). chunks_apart f"
    and "jobInfo j = ji" and "jb_tasks j = []"
  shows "honest H j"
proof -
  note fold = assms(1) [unfolded job_info_of_start]
  note local = job_fold_local [OF fold assms(2)] and data = job_fold_data [OF fold]
  have "truthful H j"
    using data assms(5) by (auto simp: truthful_def bs_new_def split: if_splits)
  moreover have "\<exists>f. info = torrent_file_info_of f \<and> tf_checksum f = fileid \<and> chunks_apart f"
    if "get_one_file_of_same_fileid (torrent_info_of t) fileid = Ret info" for fileid info
  proof -
    from that obtain f fs where f: "filter (\<lambda>f. tf_checksum f = fileid) (to_file t) = f # fs"
      "info = torrent_file_info_of f"
      by (auto simp: get_one_file_eq split: list.splits)
    then have "f \<in> set (to_file t) \<and> tf_checksum f = fileid" by (auto simp: filter_eq_Cons_iff)
    with f assms(4) show ?thesis by blast
  qed
  moreover have "\<exists>f \<in> set (to_file t). tf_checksum f = fileid \<and> place = full_path path f"
    if "get_file fileid (ji_localFileInfo ji) = Some place" for fileid place
    using that local wanted_in [OF hd_in_set, of needs "to_file t" fileid]
    by (auto simp: get_file_def split: if_splits)
  then have "fileid = fileid'" if "get_file fileid (ji_localFileInfo ji) = Some place"
    "get_file fileid' (ji_localFileInfo ji) = Some place" for fileid fileid' place
    using that inj_onD [OF assms(3)] by metis
  ultimately show ?thesis
    using data assms(5,6) by (auto simp: honest_def laid_out_def)
qed

section \<open>Properties\<close>

text \<open>
  C2: the bitmaps tell the truth.  From a job that has nothing yet, whatever its loop does, however its
  tasks end and in whatever order, and whatever else happens that leaves the torrent, the places of its
  files and the truth of its bitmaps alone: when the loop is left, in any way, and when the last task has
  ended, a bit that is set stands for a chunk that is in its file with the checksum of the torrent.  It
  is these bits that a hand-shake tells other clients.
\<close>

theorem bitmap_tells_truth:
  assumes "laid_out j" and "jb_tasks j = []"
    and "\<forall>fileid b. sm_find (bitmap_map (ji_downloadInfo (jobInfo j))) fileid = Some (Some b) \<longrightarrow> True \<notin> set b"
    and "\<forall>f \<in> set env. (\<exists>pb junk env t s. acts f = end_of pb H junk env t s) \<or> keeps_truth H (acts f)"
    and "job_start_run ap j = (Ret (), j0)" and "job_loop n ap env j0 = Some ((r, j1), env1)"
    and "j' = j1 \<or> join_all env1 j1 = Some (j', env2)"
    and "sm_find (bitmap_map (ji_downloadInfo (jobInfo j'))) fileid = Some (Some b)" and "k < length b" and "b ! k"
  shows "chunk_there H j' fileid k"
proof -
  have "truthful H j"
    using assms(3) unfolding truthful_def by (metis nth_mem)
  then have "honest H j" using assms(1,2) by (simp add: honest_def)
  have others: "\<forall>f \<in> set env. keeps_truth H (acts f)" using assms(4) keeps_truth_end_of by metis
  from honest_loop [OF honest_start_run [OF \<open>honest H j\<close> assms(5)] others assms(6)]
  have "honest H j1" "\<forall>f \<in> set env1. keeps_truth H (acts f)" using others by (auto simp: goes_on_def)
  then have "honest H j'" using assms(7) honest_join_all unfolding goes_on_def by blast
  with assms(8-10) show ?thesis by (auto simp: honest_def truthful_def)
qed

section \<open>Witnesses\<close>

text \<open>The one task of a small job loads the byte 7 from the connection and ends while the job waits for it.\<close>

definition truth_pb :: protobuf where
  "truth_pb = sample_pb [request_msg small_task, ok_msg]"

definition truth_task_state :: task_state where
  "truth_task_state = task_at (idle_sock (frame truth_pb (netpack_of truth_pb PAYLOAD_UPLOAD_REPLY ok_msg) @ [9])) [] []"

definition small_end :: "job \<Rightarrow> job" where
  "small_end = end_of truth_pb demo_hash 0 [\<lambda>_. running_info] small_task truth_task_state"

lemma truth_carries:
  "carried truth_pb PAYLOAD_UPLOAD_REQUEST (request_msg small_task)" "carried truth_pb PAYLOAD_UPLOAD_REPLY ok_msg"
proof -
  have wf: "np_wf (netpack_of truth_pb PAYLOAD_UPLOAD_REQUEST (request_msg small_task))"
    "np_wf (netpack_of truth_pb PAYLOAD_UPLOAD_REPLY ok_msg)"
    by (rule np_wf_netpack_of, simp add: truth_pb_def sample_pb_def)+
  show "carried truth_pb PAYLOAD_UPLOAD_REQUEST (request_msg small_task)" using wf(1)
    by (simp add: carried_def Let_def truth_pb_def np_message_def header_codec_def header_fits_def netpack_of_def
        payload_defs) (simp add: sample_defs)
  show "carried truth_pb PAYLOAD_UPLOAD_REPLY ok_msg" using wf(2)
    by (simp add: carried_def Let_def truth_pb_def np_message_def header_codec_def header_fits_def netpack_of_def
        payload_defs) (simp add: sample_defs)
qed

lemma small_end_parts:
  "\<exists>x. download_run truth_pb demo_hash 0 [\<lambda>_. running_info] small_task (truth_task_state\<lparr>ts_disk := jb_disk fetching\<rparr>)
       = Some (Ret (), x) \<and>
     d_files (ts_disk x) ''/tmp/d/y'' = Some [9] \<and> d_refused (ts_disk x) = d_refused (jb_disk fetching) \<and>
     task_end False small_task (fetching\<lparr>jb_disk := ts_disk x\<rparr>) = (Ret (), ended\<lparr>jb_disk := ts_disk x\<rparr>)"
proof -
  let ?s = "truth_task_state\<lparr>ts_disk := jb_disk fetching\<rparr>"
  have d: "d_files (jb_disk fetching) ''/tmp/d/y'' = Some [7]" "\<not> d_refused (jb_disk fetching) ''/tmp/d/y''"
    by (simp_all add: fetching_def started_def small_job_def empty_disk_def)
  have t: "dt_fileInfo small_task = torrent_file_info_of small_file" "dt_file small_task = ''/tmp/d/y''"
    "dt_check_sum small_task = ''h2''" by (simp_all add: small_task_def)
  have size: "ck_size (tf_chunk small_file ! 0) = 1" "length (tf_chunk small_file) = 1" "chunk_off small_file 0 = 0"
    by (simp_all add: small_file_def chunk_off_def)
  have room: "room_for small_file 0 (dt_file small_task) (ts_disk ?s)"
    using d by (auto simp: room_for_def t size)
  have "\<exists>t. download_run truth_pb demo_hash 0 [\<lambda>_. running_info] small_task ?s = Some (Ret (), t) \<and> rx (ts_sock t) = [] \<and>
      tx (ts_sock t) = tx (ts_sock ?s) @ frame truth_pb (netpack_of truth_pb PAYLOAD_UPLOAD_REQUEST (request_msg small_task)) \<and>
      d_files (ts_disk t) = (d_files (ts_disk ?s))
        (dt_file small_task \<mapsto> splice (unat (chunk_off small_file 0)) [9] [7])"
    by (rule chunk_download_runs [OF t(1) _ _ truth_carries _ _ _ _ _ room])
      (use d in \<open>simp_all add: t size truth_task_state_def demo_hash_def running_rounds\<close>, simp_all add: idle_sock_def)
  then obtain x where x: "download_run truth_pb demo_hash 0 [\<lambda>_. running_info] small_task ?s = Some (Ret (), x)"
    "d_files (ts_disk x) ''/tmp/d/y'' = Some [9]"
    by (auto simp: t size splice_def)
  have "task_end False small_task (fetching\<lparr>jb_disk := ts_disk x\<rparr>) = (Ret (), ended\<lparr>jb_disk := ts_disk x\<rparr>)"
    by (simp add: task_end_def onFinished_def on_cs_def on_sm_def report_success_chunk_def sm_get_def
        bs_assign_def set_bitmap_map_def small_give_back ended_def)
  moreover have "d_refused (ts_disk x) = d_refused (jb_disk fetching)"
    using download_run_writes [OF x(1)] by auto
  ultimately show ?thesis using x by blast
qed

lemma small_end_run:
  "\<exists>d. small_end fetching = ended\<lparr>jb_disk := d\<rparr> \<and> d_files d ''/tmp/d/y'' = Some [9]"
  using small_end_parts by (auto simp: small_end_def end_of_def)

lemma small_laid_out: "laid_out small_job"
proof -
  have one: "get_one_file_of_same_fileid (ji_torrentInfo (jobInfo small_job)) c =
      (if c = ''c'' then Ret (torrent_file_info_of small_file) else Throw AssertionViolation)" for c
    by (simp add: small_job_def get_one_file_of_same_fileid_def small_map)
  have "chunks_apart small_file" "tf_checksum small_file = ''c''" by (simp_all add: chunks_apart_def small_file_def)
  then show ?thesis
    unfolding laid_out_def one by (auto simp: small_job_def small_job_info_def get_file_def split: if_splits)
qed

theorem bitmap_tells_truth_witness:
  "\<exists>j'. job_loop 2 demo_app [Woken small_end] started = Some ((Ret (), fetching), [Woken small_end]) \<and>
     join_all [Woken small_end] fetching = Some (j', []) \<and>
     sm_find (bitmap_map (ji_downloadInfo (jobInfo j'))) ''c'' = Some (Some [True]) \<and>
     chunk_there demo_hash j' ''c'' 0"
proof -
  obtain d where run: "small_end fetching = ended\<lparr>jb_disk := d\<rparr>" using small_end_run by blast
  let ?j = "ended\<lparr>jb_disk := d\<rparr>"
  have join: "join_all [Woken small_end] fetching = Some (?j, [])"
    by (simp add: join_all.simps [of "[Woken small_end]"] join_all.simps [of "[]"] run) (simp add: ended_def)
  have bits: "sm_find (bitmap_map (ji_downloadInfo (jobInfo ?j))) ''c'' = Some (Some [True])"
    by (simp add: ended_def set_bitmap_map_def)
  note small_laid_out
  moreover have "\<exists>pb junk env t s. small_end = end_of pb demo_hash junk env t s" unfolding small_end_def by blast
  ultimately have "chunk_there demo_hash ?j ''c'' 0"
    by (intro bitmap_tells_truth [where env = "[Woken small_end]" and b = "[True]", OF _ _ _ _ small_start small_loop _ bits])
      (use join in \<open>auto simp: small_job_def\<close>)
  with join bits small_loop show ?thesis by blast
qed

end
