(* ===== verification/CompleteRun.thy ===== *)
theory CompleteRun
  imports BitmapTruth
begin

text \<open>
  \<open>Job::run\<close> as a whole: the books of \<open>Job\<close>, the bitmaps of \<open>BitmapTruth\<close> and the copies at the end,
  put together to what a user of a job wants to know: what is on the disk when \<open>run\<close> has returned.
\<close>

section \<open>Places and ends\<close>

text \<open>
  The places of the files: none is listed twice, and the first of each file is the one it is downloaded to.
\<close>

definition well_placed :: "job \<Rightarrow> bool" where
  "well_placed j \<longleftrightarrow>
     (let lf = ji_localFileInfo (jobInfo j) in
        distinct (concat (map snd (file_places lf))) \<and>
        (\<forall>c p. get_file c lf = Some p \<longleftrightarrow> (\<exists>ps. (c, p # ps) \<in> set (file_places lf))))"

definition chunk_at :: "(byte list \<Rightarrow> string) \<Rightarrow> torrent_file \<Rightarrow> nat \<Rightarrow> string \<Rightarrow> disk \<Rightarrow> bool" where
  "chunk_at H f n path d \<longleftrightarrow>
     (\<exists>bs. d_files d path = Some bs \<and> H (chunk_bytes f n bs) = ck_checksum (tf_chunk f ! n))"

text \<open>
  The end of a task, good or bad, in which the observers do not throw: they throw when the bitmap some
  owner has sent is too short to be asked for the chunk, and then the chunk is lost.
\<close>

definition clean_end ::
    "protobuf \<Rightarrow> (byte list \<Rightarrow> string) \<Rightarrow> int \<Rightarrow> interference list \<Rightarrow> download_task \<Rightarrow> task_state \<Rightarrow> job \<Rightarrow> job" where
  "clean_end pb H junk env t s j =
     (case download_run pb H junk env t (s\<lparr>ts_disk := jb_disk j\<rparr>) of
        None \<Rightarrow> j
      | Some (r, s') \<Rightarrow>
          if \<not> dt_reported t \<and> fst (task_end (r \<noteq> Ret ()) t (j\<lparr>jb_disk := ts_disk s'\<rparr>)) = Ret ()
          then end_of pb H junk env t s j else j)"

section \<open>Lemmas: ends of tasks and the wait for the last one\<close>

lemma sound_disk [simp]: "sound hand (j\<lparr>jb_disk := d\<rparr>) = sound hand j"
  by (simp add: sound_def accounting_def open_set_def)

lemma clean_end_cases:
  "clean_end pb H junk env t s j = j \<or> clean_end pb H junk env t s j = end_of pb H junk env t s j"
  by (auto simp: clean_end_def split: option.split)

lemma keeps_truth_clean_end: "keeps_truth H (clean_end pb H junk env t s)"
  unfolding keeps_truth_def
proof (intro allI impI)
  fix j assume "honest H j"
  then show "honest H (clean_end pb H junk env t s j) \<and> same_files j (clean_end pb H junk env t s j)"
    using keeps_truth_end_of [of H pb junk env t s] clean_end_cases [of pb H junk env t s j]
    by (auto simp: keeps_truth_def)
qed

lemma harmless_clean_end:
  assumes "acts f = clean_end pb H junk env t s"
  shows "harmless f"
  unfolding harmless_def assms
proof (intro allI impI)
  fix hand j assume sound: "sound hand j"
  let ?e = "clean_end pb H junk env t s j"
  show "sound hand ?e \<and> length (lm_socks (jb_sockManager j)) \<le> length (lm_socks (jb_sockManager ?e))"
  proof (cases "?e = j")
    case False
    then obtain r s' where run: "download_run pb H junk env t (s\<lparr>ts_disk := jb_disk j\<rparr>) = Some (r, s')"
      and "\<not> dt_reported t" "fst (task_end (r \<noteq> Ret ()) t (j\<lparr>jb_disk := ts_disk s'\<rparr>)) = Ret ()"
      and e: "?e = end_of pb H junk env t s j"
      by (auto simp: clean_end_def split: option.splits if_splits)
    then obtain j' where j': "task_end (r \<noteq> Ret ()) t (j\<lparr>jb_disk := ts_disk s'\<rparr>) = (Ret (), j')"
      by (metis prod.collapse)
    have t: "t \<in> set (jb_tasks j)" using False e by (auto simp: end_of_def split: if_splits)
    with e run j' have "?e = j'" by (simp add: end_of_def)
    with sound_task_end [OF _ _ \<open>\<not> dt_reported t\<close> j', of hand] sound t show ?thesis by simp
  qed (use sound in simp)
qed

lemma sound_join_all:
  "sound hand j \<Longrightarrow> \<forall>f \<in> set env. harmless f \<Longrightarrow> join_all env j = Some (j', env') \<Longrightarrow>
     sound hand j' \<and> jb_tasks j' = []"
proof (induction env arbitrary: j)
  case Nil
  then show ?case by (subst (asm) join_all.simps) (auto split: if_splits)
next
  case (Cons f env)
  show ?case
  proof (cases "jb_tasks j = []")
    case True
    with Cons.prems show ?thesis by (auto simp: join_all.simps [of "f # env"])
  next
    case False
    then have "join_all env (acts f j) = Some (j', env')" using Cons.prems(3) by (subst (asm) join_all.simps) simp
    with Cons.IH [of "acts f j"] Cons.prems(1,2) show ?thesis by (simp add: harmless_def)
  qed
qed

section \<open>Lemmas: the end of a run\<close>

lemma copied_nonempty: "copy_same_files m d = (Ret (), d') \<Longrightarrow> \<forall>x \<in> set m. snd x \<noteq> []"
  by (induction m d rule: copy_same_files.induct) (auto simp: and_then_eq_Ret split: list.splits)

lemma well_placed_same: "same_files j j' \<Longrightarrow> well_placed j \<Longrightarrow> well_placed j'"
  by (simp add: same_files_def well_placed_def get_file_def Let_def)

text \<open>Before the copies: the books, the bitmaps and the places.\<close>

lemma run_before_copies:
  assumes "ready j" and "honest H j" and "well_placed j"
    and "\<forall>f \<in> set env. harmless f \<and> keeps_truth H (acts f)"
    and "job_run n ap env j = Some ((Ret (), j'), env')"
  obtains j2 d where "sound [] j2" and "jb_tasks j2 = []" and "honest H j2" and "well_placed j2"
    and "copy_same_files (file_places (ji_localFileInfo (jobInfo j2))) (jb_disk j2) = (Ret (), d)"
    and "j' = j2\<lparr>jb_disk := d, jb_is_running := False\<rparr>"
proof -
  from assms(5) obtain j0 j1 env1 j2 d where start: "job_start_run ap j = (Ret (), j0)"
    and loop: "job_loop n ap env j0 = Some ((Ret (), j1), env1)" and join: "join_all env1 j1 = Some (j2, env')"
    and copy: "copy_same_files (lf_same_files (ji_localFileInfo (jobInfo j2))) (jb_disk j2) = (Ret (), d)"
    and j': "j' = j2\<lparr>jb_disk := d, jb_is_running := False\<rparr>"
    by (auto simp: job_run_def job_finish_def split: prod.splits outcome.splits option.splits)
  have quiet: "\<forall>f \<in> set env. harmless f" and truth: "\<forall>f \<in> set env. keeps_truth H (acts f)" using assms(4) by auto
  from sound_loop [OF sound_start_run [OF assms(1) start] quiet loop]
  have books: "sound [] j1" "set env1 \<subseteq> set env" by simp_all
  with quiet have "\<forall>f \<in> set env1. harmless f" by blast
  from sound_join_all [OF books(1) this join] have sound: "sound [] j2" "jb_tasks j2 = []" by simp_all
  have "same_files j j0" using stays_start_run [of j ap] start by (simp add: stays_def same_place_files)
  moreover have first: "goes_on H j0 env j1 env1"
    using honest_loop [OF honest_start_run [OF assms(2) start] truth loop] .
  moreover from this have "goes_on H j1 env1 j2 env'"
    using honest_join_all [OF _ _ join] truth by (auto simp: goes_on_def)
  ultimately have "honest H j2" "same_files j j2"
    by (auto simp: goes_on_def intro: same_files_trans)
  moreover have "file_places (ji_localFileInfo (jobInfo j2)) = lf_same_files (ji_localFileInfo (jobInfo j2))"
    unfolding file_places_def using copied_nonempty [OF copy] by simp
  ultimately show ?thesis using that sound copy j' assms(3) well_placed_same by metis
qed

lemma missing_or_there:
  assumes "sound [] j" and "jb_tasks j = []" and "honest H j" and "fileid \<in> set (ji_fileidlist (jobInfo j))"
    and "get_one_file_of_same_fileid (ji_torrentInfo (jobInfo j)) fileid = Ret (torrent_file_info_of f)"
    and "k < length (tf_chunk f)"
  shows "(fileid, int k) \<in> set (map chunk_id (cs_queue (jb_cs j))) \<or> chunk_there H j fileid k"
proof -
  obtain b infos where b: "sm_find (bitmap_map (ji_downloadInfo (jobInfo j))) fileid = Some (Some b)"
    and infos: "sm_find (ti_fileMap (ji_torrentInfo (jobInfo j))) fileid = Some infos" "infos \<noteq> []"
      "length b = length (tf_chunk (tfi_file (hd infos)))"
    using assms(1,4) unfolding sound_def job_wf_def by fastforce
  from assms(5) infos(1,2) have "hd infos = torrent_file_info_of f"
    by (simp add: get_one_file_of_same_fileid_def hd_conv_nth split: if_splits)
  with infos(3) assms(6) have k: "k < length b" by (simp add: torrent_file_info_of_def)
  show ?thesis
  proof (cases "b ! k")
    case True
    with assms(3) b k show ?thesis by (auto simp: honest_def truthful_def)
  next
    case False
    with assms(4) b k have "(fileid, int k) \<in> open_set j"
      by (auto simp: open_set_def missing_chunks_iff bs_test_def)
    with assms(1,2) show ?thesis by (simp add: sound_def accounting_iff)
  qed
qed

section \<open>Lemmas: a job that has just been made\<close>

lemma job_fold_same_ok:
  "foldl (job_add_file needs) (job_start ju jd t path, d) fs = (ji, d') \<Longrightarrow>
     sm_ok (lf_same_files (ji_localFileInfo ji))"
proof (induction fs arbitrary: ji d' rule: rev_induct)
  case Nil
  then show ?case by (auto simp: job_start_def local_file_info_of_def sm.ok_empty)
next
  case (snoc f fs)
  obtain ji1 d1 where fold: "foldl (job_add_file needs) (job_start ju jd t path, d) fs = (ji1, d1)" by fastforce
  note IH = snoc.IH [OF fold]
  show ?case
  proof (cases "needs_file needs f")
    case True
    obtain r lf d2 where add: "add_file (tf_checksum f) (tf_relativepath f) (tf_filename f)
        (tf_size f) (ji_localFileInfo ji1) d1 = (r, lf, d2)"
      using prod_cases3 by blast
    then have "sm_ok (lf_same_files lf)" using add_file_paths [OF add] IH by (auto intro!: sm.ok_set split: option.split)
    with snoc.prems fold add True show ?thesis by (auto simp: job_add_file_take)
  qed (use snoc.prems fold IH in \<open>simp add: job_add_file_skip\<close>)
qed

lemma distinct_concat_snd:
  "distinct (map fst m) \<Longrightarrow> \<forall>x \<in> set m. distinct (snd x) \<Longrightarrow>
     \<forall>x \<in> set m. \<forall>y \<in> set m. fst x \<noteq> fst y \<longrightarrow> set (snd x) \<inter> set (snd y) = {} \<Longrightarrow>
     distinct (concat (map snd m))"
proof (induction m)
  case (Cons x m)
  have "fst x \<noteq> fst y" if "y \<in> set m" for y using Cons.prems(1) that by force
  then have "set (snd x) \<inter> set (snd y) = {}" if "y \<in> set m" for y using Cons.prems(3) that by simp
  then have "set (snd x) \<inter> set (concat (map snd m)) = {}" by auto
  with Cons show ?case by simp
qed simp

lemma new_job_placed:
  assumes "job_info_of ju jd t path needs d = (ji, d')" and "paths_allowed path (to_file t) d"
    and "distinct (map (full_path path) (to_file t))" and "jobInfo j = ji"
  shows "well_placed j"
proof -
  note fold = assms(1) [unfolded job_info_of_start]
  let ?lf = "ji_localFileInfo ji"
  let ?w = "wanted needs (to_file t)"
  note local = job_fold_local [OF fold assms(2)]
  note ok = job_fold_same_ok [OF fold]
  have mem: "(c, ps) \<in> set (lf_same_files ?lf) \<longleftrightarrow> ?w c \<noteq> [] \<and> ps = map (full_path path) (?w c)" for c ps
    using local sm_find_iff_mem [OF ok, of c ps] by (auto split: if_splits)
  have places: "file_places ?lf = lf_same_files ?lf"
    unfolding file_places_def by (rule filter_True) (auto simp: mem)
  have inj: "inj_on (full_path path) (set (to_file t))" using assms(3) by (simp add: distinct_map)
  have "distinct (concat (map snd (lf_same_files ?lf)))"
  proof (rule distinct_concat_snd [OF sm_ok_distinct [OF ok]]; intro ballI impI)
    fix x assume "x \<in> set (lf_same_files ?lf)"
    then have "snd x = map (full_path path) (?w (fst x))" using mem [of "fst x" "snd x"] by simp
    moreover have "distinct (map (full_path path) (?w (fst x)))"
      using assms(3) unfolding wanted_def by (rule distinct_map_filter)
    ultimately show "distinct (snd x)" by simp
  next
    fix x y assume xy: "x \<in> set (lf_same_files ?lf)" "y \<in> set (lf_same_files ?lf)" "fst x \<noteq> fst y"
    then have "snd x = map (full_path path) (?w (fst x))" "snd y = map (full_path path) (?w (fst y))"
      using mem [of "fst x" "snd x"] mem [of "fst y" "snd y"] by simp_all
    moreover have "f \<noteq> g \<and> f \<in> set (to_file t) \<and> g \<in> set (to_file t)"
      if "f \<in> set (?w (fst x))" "g \<in> set (?w (fst y))" for f g
      using wanted_in [OF that(1)] wanted_in [OF that(2)] xy(3) by auto
    ultimately show "set (snd x) \<inter> set (snd y) = {}" using inj_onD [OF inj] by fastforce
  qed
  moreover have "get_file c ?lf = Some p \<longleftrightarrow> (\<exists>ps. (c, p # ps) \<in> set (lf_same_files ?lf))" for c p
    using local mem [of c] by (cases "?w c") (auto simp: get_file_def)
  ultimately show ?thesis
    using assms(4) by (simp add: well_placed_def places Let_def)
qed

text \<open>So a job made from a torrent meets what is asked of a job before its run.\<close>

lemma new_job_starts:
  assumes "job_info_of ju jd t path needs d = (ji, d')" and "paths_allowed path (to_file t) d"
    and "torrent_consistent t" and "distinct (map (full_path path) (to_file t))"
    and "\<forall>f \<in> set (to_file t). chunks_apart f" and "pool_good m"
  shows "ready (new_job ji m d')" and "honest H (new_job ji m d')" and "well_placed (new_job ji m d')"
proof -
  have "ji_torrentInfo ji = torrent_info_of t"
    using job_fold_data [OF assms(1) [unfolded job_info_of_start]] by simp
  moreover have "job_wf ji" using job_info_of_facts [OF assms(3,1)] by simp
  ultimately show "ready (new_job ji m d')"
    using assms(6) file_map_named_torrent by (simp add: ready_def new_job_def)
  have "inj_on (full_path path) (set (to_file t))" using assms(4) by (simp add: distinct_map)
  then show "honest H (new_job ji m d')"
    by (rule new_job_honest [OF assms(1,2) _ assms(5)]) (simp_all add: new_job_def)
  show "well_placed (new_job ji m d')"
    by (rule new_job_placed [OF assms(1,2,4)]) (simp add: new_job_def)
qed

section \<open>Properties\<close>

text \<open>
  C1: what is on the disk when \<open>run\<close> has returned.  Start a job whose set bits are true, whatever tasks
  end in its waits, well or badly, and whatever else happens that keeps the books and the truth of the
  bitmaps.  When \<open>run\<close> returns, every chunk of every file the user selected is, with the checksum of the
  torrent, in the file it was downloaded to and in every other place the torrent has this file in,
  or it is still in the queue of missing chunks, where a task that failed after the loop has put it or
  the removal of the job has left it.
  So if no chunk is left in the queue, every place of every file is complete.
\<close>

theorem run_completes_files:
  assumes "ready j" and "honest H j" and "well_placed j"
    and "\<forall>f \<in> set env. (\<exists>pb junk e t s. acts f = clean_end pb H junk e t s) \<or> harmless f \<and> keeps_truth H (acts f)"
    and "job_run n ap env j = Some ((Ret (), j'), env')"
    and "fileid \<in> set (ji_fileidlist (jobInfo j'))"
    and "get_one_file_of_same_fileid (ji_torrentInfo (jobInfo j')) fileid = Ret (torrent_file_info_of f)"
    and "k < length (tf_chunk f)"
  shows "\<not> jb_is_running j' \<and> jb_tasks j' = [] \<and>
    ((fileid, int k) \<in> set (map chunk_id (cs_queue (jb_cs j'))) \<or>
     (\<exists>p ps. get_file fileid (ji_localFileInfo (jobInfo j')) = Some p \<and>
        (fileid, p # ps) \<in> set (file_places (ji_localFileInfo (jobInfo j'))) \<and>
        (\<forall>q \<in> set (p # ps). chunk_at H f k q (jb_disk j'))))"
proof -
  have "\<forall>f \<in> set env. harmless f \<and> keeps_truth H (acts f)"
    using assms(4) harmless_clean_end keeps_truth_clean_end by metis
  from run_before_copies [OF assms(1-3) this assms(5)] obtain j2 d where
    sound: "sound [] j2" "jb_tasks j2 = []" and honest: "honest H j2" and placed: "well_placed j2"
    and copy: "copy_same_files (file_places (ji_localFileInfo (jobInfo j2))) (jb_disk j2) = (Ret (), d)"
    and j': "j' = j2\<lparr>jb_disk := d, jb_is_running := False\<rparr>" .
  have same: "(fileid, int k) \<in> set (map chunk_id (cs_queue (jb_cs j2))) \<or> chunk_there H j2 fileid k"
    using missing_or_there [OF sound honest] assms(6-8) by (simp add: j')
  show ?thesis
  proof (cases "chunk_there H j2 fileid k")
    case True
    then obtain g p bs where g: "get_one_file_of_same_fileid (ji_torrentInfo (jobInfo j2)) fileid = Ret (torrent_file_info_of g)"
      and there: "get_file fileid (ji_localFileInfo (jobInfo j2)) = Some p" "d_files (jb_disk j2) p = Some bs"
        "H (chunk_bytes g k bs) = ck_checksum (tf_chunk g ! k)"
      unfolding chunk_there_def by blast
    have "torrent_file_info_of g = torrent_file_info_of f" using g assms(7) by (simp add: j')
    then have "g = f" by (simp add: torrent_file_info_of_def)
    from placed there(1) obtain ps where ps: "(fileid, p # ps) \<in> set (file_places (ji_localFileInfo (jobInfo j2)))"
      unfolding well_placed_def Let_def by blast
    have "distinct (concat (map snd (file_places (ji_localFileInfo (jobInfo j2)))))"
      using placed by (simp add: well_placed_def Let_def)
    from copy_same_files_result [OF copy this] ps
    have "\<forall>q \<in> set (p # ps). d_files d q = d_files (jb_disk j2) p" by fastforce
    with there(2,3) \<open>g = f\<close> have "\<forall>q \<in> set (p # ps). chunk_at H f k q d" by (auto simp: chunk_at_def)
    with there(1) ps sound(2) show ?thesis unfolding j' by auto
  next
    case False
    with same sound(2) show ?thesis by (simp add: j')
  qed
qed

section \<open>Witnesses\<close>

definition small_clean_end :: "job \<Rightarrow> job" where
  "small_clean_end = clean_end truth_pb demo_hash 0 [\<lambda>_. running_info] small_task truth_task_state"

lemma small_honest: "honest demo_hash small_job"
  using small_laid_out by (auto simp: honest_def truthful_def small_job_def small_job_info_def split: if_splits)

lemma small_placed: "well_placed small_job"
  by (auto simp: well_placed_def Let_def small_job_def small_job_info_def file_places_def get_file_def split: if_splits)

lemma small_clean_run:
  "\<exists>d. small_clean_end fetching = ended\<lparr>jb_disk := d\<rparr> \<and> (\<forall>p. \<not> d_refused d p) \<and> d_files d ''/tmp/d/y'' = Some [9]"
proof -
  have "\<not> d_refused (jb_disk fetching) p" for p
    by (simp add: fetching_def started_def small_job_def empty_disk_def)
  with small_end_parts show ?thesis by (auto simp: small_clean_end_def clean_end_def end_of_def)
qed

theorem run_completes_files_witness:
  "\<exists>j'. job_run 2 demo_app [Woken small_clean_end] small_job = Some ((Ret (), j'), []) \<and>
     cs_queue (jb_cs j') = [] \<and> chunk_at demo_hash small_file 0 ''/tmp/e/y'' (jb_disk j')"
proof -
  obtain d where d: "small_clean_end fetching = ended\<lparr>jb_disk := d\<rparr>" "\<And>p. \<not> d_refused d p"
    "d_files d ''/tmp/d/y'' = Some [9]" using small_clean_run by blast
  have join: "join_all [Woken small_clean_end] fetching = Some (ended\<lparr>jb_disk := d\<rparr>, [])"
    by (simp add: join_all.simps [of "[Woken small_clean_end]"] join_all.simps [of "[]"] d(1)) (simp add: ended_def)
  have places: "ji_localFileInfo (jobInfo ended) = ji_localFileInfo small_job_info"
    by (simp add: ended_def set_bitmap_map_def)
  define j' where "j' = ended\<lparr>jb_disk := d\<lparr>d_files := (d_files d)(''/tmp/e/y'' \<mapsto> [9])\<rparr>, jb_is_running := False\<rparr>"
  have run: "job_run 2 demo_app [Woken small_clean_end] small_job = Some ((Ret (), j'), [])"
    using d(2,3) by (simp add: job_run_def small_start small_loop job_finish_def join places j'_def
        small_job_info_def copyTo_def createDirectories_def)
  have one: "get_one_file_of_same_fileid (ji_torrentInfo (jobInfo j')) ''c'' = Ret (torrent_file_info_of small_file)"
    by (simp add: j'_def ended_def set_bitmap_map_def get_one_file_of_same_fileid_def small_map)
  have files: "ji_fileidlist (jobInfo j') = [''c'']" "cs_queue (jb_cs j') = []"
    "file_places (ji_localFileInfo (jobInfo j')) = [(''c'', [''/tmp/d/y'', ''/tmp/e/y''])]"
    by (simp_all add: j'_def ended_def set_bitmap_map_def file_places_def small_job_info_def)
  have ends: "harmless (Woken small_clean_end)" "keeps_truth demo_hash (acts (Woken small_clean_end))"
    unfolding small_clean_end_def by (rule harmless_clean_end, simp) (simp add: keeps_truth_clean_end)
  have "0 < length (tf_chunk small_file)" by (simp add: small_file_def)
  from run_completes_files [OF small_ready small_honest small_placed _ run _ one this] ends files
  have "chunk_at demo_hash small_file 0 ''/tmp/e/y'' (jb_disk j')" by simp
  with run files(2) show ?thesis by blast
qed

end
