(* ===== verification/NetTaskManager.thy ===== *)
theory NetTaskManager
  imports ClientHandler
begin

text \<open>
  \<open>client/src/net_task_manager.cc\<close>: the manager of a client's uploads.  Its observers cast the task of
  a notification to an \<open>UploadTask\<close> and log it; \<open>enabled\<close> says whether the logger writes at that level,
  since the arguments of a line are only computed when it does.
\<close>

datatype net_task = Upload string upload_task | OtherTask

definition as_upload_task :: "net_task \<Rightarrow> (string \<times> upload_task) option" where
  "as_upload_task t = (case t of Upload peer ut \<Rightarrow> Some (peer, ut) | OtherTask \<Rightarrow> None)"

text \<open>\<open>UploadTask::DebugString\<close>; the path is that of a file pointer.\<close>

definition DebugString :: "string \<Rightarrow> upload_task \<Rightarrow> string outcome" where
  "DebugString peer ut =
     (case ut_file ut of
        None \<Rightarrow> Throw NullPointer
      | Some path \<Rightarrow>
          Ret (''path = '' @ [CHR 0x27] @ path @ [CHR 0x27] @ '', peer addr = '' @ [CHR 0x27] @ peer @ [CHR 0x27]
            @ '', offset = '' @ dec (uint (ut_offset ut)) @ '', chunk_size = '' @ dec (ut_chunk_size ut)))"

definition onTaskFinished :: "bool \<Rightarrow> net_task \<Rightarrow> string list outcome" where
  "onTaskFinished enabled t =
     (case as_upload_task t of
        None \<Rightarrow> Throw AssertionViolation
      | Some (peer, ut) \<Rightarrow>
          if enabled then map_outcome (\<lambda>s. [''UploadTask Finished! '' @ s]) (DebugString peer ut) else Ret [])"

definition onTaskFailed :: "bool \<Rightarrow> string \<Rightarrow> net_task \<Rightarrow> string list outcome" where
  "onTaskFailed enabled reason t =
     (case as_upload_task t of
        None \<Rightarrow> Throw AssertionViolation
      | Some (peer, ut) \<Rightarrow>
          if enabled then map_outcome (\<lambda>s. [''UploadTask Failed! '' @ s @ [CHR 0x0A] @ ''reason : '' @ reason])
            (DebugString peer ut)
          else Ret [])"

section \<open>Lemmas\<close>

lemma HandleUploadRequest_file:
  "HandleUploadRequest peer msg cl = Ret (ERROR_OK, r, Some ut) \<Longrightarrow> \<exists>path. ut_file ut = Some path"
  by (auto simp: HandleUploadRequest_def upload_task_of_def Let_def map_outcome_def
      split: option.splits outcome.splits if_splits)

text \<open>The end of an upload that a connection's handler has made is logged without an exception.\<close>

lemma uploads_are_logged:
  assumes "HandleUploadRequest peer msg cl = Ret (ERROR_OK, r, Some ut)"
  shows "\<exists>lines lines'. onTaskFinished enabled (Upload a ut) = Ret lines \<and> onTaskFailed enabled reason (Upload a ut) = Ret lines'"
  using HandleUploadRequest_file [OF assms]
  by (auto simp: onTaskFinished_def onTaskFailed_def as_upload_task_def DebugString_def)

end
