(* ===== verification/TrackerDB.thy ===== *)
theory TrackerDB
  imports Messages
begin

text \<open>
  \<open>tracker/src/tracker_db_manager.cc\<close> and the two value classes it fills: the statements the tracker
  sends to its database.  The database is a service: a session is a parameter, a record of what
  Poco::Data does with a statement's text and its bound values, on a state of type \<open>'db\<close>.  The
  statements are built here character by character, as the code builds them.  What MySQL documents
  about them is the predicate \<open>mysql_laws\<close>, over a registry that the session's tables hold.
  The mutex makes every operation one step; log lines are left out.
\<close>

section \<open>ClientInfo and FileOwnerInfo\<close>

record client_info =
  ci_clientid :: string
  ci_ip :: string
  ci_messageport :: int

record owner_info =
  oi_clientid :: string
  oi_fileid :: string
  oi_percentage :: int

definition new_owner_info :: owner_info where
  "new_owner_info = \<lparr>oi_clientid = [], oi_fileid = [], oi_percentage = 0\<rparr>"

section \<open>The session\<close>

datatype sql_value = SqlText string | SqlInt int

text \<open>A row of the four columns that are selected, after \<open>convert<string>\<close> and \<open>convert<int>\<close>.\<close>

record client_row =
  cr_clientid :: string
  cr_ip :: string
  cr_messageport :: int
  cr_percentage :: int

text \<open>
  \<open>ss_execute\<close> runs a statement with its bound values.  \<open>ss_select\<close> runs a query with the number of
  rows \<open>Limit\<close> allows.  \<open>ss_after_end\<close> is what reading the columns of a record set gives after
  \<open>moveNext\<close> has returned false.
\<close>

record 'db session =
  ss_execute :: "string \<Rightarrow> sql_value list \<Rightarrow> 'db \<Rightarrow> (unit, 'db) result"
  ss_select :: "string \<Rightarrow> nat option \<Rightarrow> 'db \<Rightarrow> client_row list outcome"
  ss_after_end :: "client_row list \<Rightarrow> client_row outcome"

section \<open>The statements\<close>

definition clientInfoTableName :: string where "clientInfoTableName = ''CLIENTINFO''"
definition fileOwnerTableName :: string where "fileOwnerTableName = ''FILEOWNERINFO''"

text \<open>A string between single quotes, as the format strings write it.\<close>

definition qt :: char where "qt = CHR 0x27"

definition quoted :: "string \<Rightarrow> string" where
  "quoted s = qt # s @ [qt]"

definition login_sql :: string where
  "login_sql = ''INSERT INTO '' @ clientInfoTableName
     @ '' (CLIENTID, IP, MESSAGEPORT, UPLOADTOTAL, DOWNLOADTOTAL, CREATETIME, LASTLOGINTIME, ISONLINE) ''
     @ ''VALUES(?,?,?,?,?,?,?,1) ''
     @ ''ON DUPLICATE KEY UPDATE IP=VALUES(IP), MESSAGEPORT=VALUES(MESSAGEPORT), ''
     @ ''LASTLOGINTIME=VALUES(LASTLOGINTIME), ISONLINE=1''"

definition logout_sql :: string where
  "logout_sql = ''UPDATE '' @ clientInfoTableName
     @ '' SET ISONLINE = 0, UPLOADTOTAL = UPLOADTOTAL + ?, DOWNLOADTOTAL = DOWNLOADTOTAL + ? WHERE CLIENTID=?''"

definition publish_sql :: string where
  "publish_sql = ''INSERT INTO '' @ fileOwnerTableName @ ''(FILEID, CLIENTID, PERCENTAGE) VALUES(?,?,?)''"

definition report_sql :: "owner_info \<Rightarrow> string" where
  "report_sql info = ''INSERT INTO '' @ fileOwnerTableName @ '' (FILEID, CLIENTID, PERCENTAGE) VALUES( ''
     @ quoted (oi_fileid info) @ '', '' @ quoted (oi_clientid info) @ '', '' @ dec (oi_percentage info)
     @ '') ON DUPLICATE KEY UPDATE PERCENTAGE=VALUES(PERCENTAGE)''"

definition remove_sql :: string where
  "remove_sql = ''DELETE FROM '' @ fileOwnerTableName @ '' WHERE FILEID=? AND CLIENTID=?''"

definition create_client_sql :: string where
  "create_client_sql = ''CREATE TABLE IF NOT EXISTS '' @ ''CLIENTINFO'' @ ''(''
     @ ''CLIENTID VARCHAR(40) PRIMARY KEY,'' @ ''IP VARCHAR(20),'' @ ''MESSAGEPORT INTEGER,''
     @ ''UPLOADTOTAL BIGINT,'' @ ''DOWNLOADTOTAL BIGINT,'' @ ''CREATETIME VARCHAR(40),''
     @ ''LASTLOGINTIME VARCHAR(40),'' @ ''ISONLINE INTEGER'' @ '');''"

definition create_owner_sql :: string where
  "create_owner_sql = ''CREATE TABLE IF NOT EXISTS '' @ ''FILEOWNERINFO'' @ ''(''
     @ ''FILEID VARCHAR(40),'' @ ''CLIENTID VARCHAR(40),'' @ ''PERCENTAGE INTEGER,''
     @ ''PRIMARY KEY(FILEID, CLIENTID)'' @ '');''"

definition not_known :: "string \<Rightarrow> string" where
  "not_known c = ''AND '' @ fileOwnerTableName @ ''.CLIENTID != '' @ quoted c"

definition select_head :: string where
  "select_head = ''SELECT '' @ clientInfoTableName @ ''.CLIENTID,IP,MESSAGEPORT,PERCENTAGE FROM ''
     @ clientInfoTableName @ '' INNER JOIN '' @ fileOwnerTableName @ '' WHERE '' @ fileOwnerTableName @ ''.FILEID=''"

definition select_join :: string where
  "select_join = '' AND '' @ clientInfoTableName @ ''.CLIENTID='' @ fileOwnerTableName @ ''.CLIENTID AND ''
     @ clientInfoTableName @ ''.ISONLINE=1 AND '' @ fileOwnerTableName @ ''.PERCENTAGE ''"

definition select_sql :: "string \<Rightarrow> string \<Rightarrow> int \<Rightarrow> string list \<Rightarrow> string" where
  "select_sql typeString fileid percentage known =
     select_head @ quoted fileid @ select_join @ typeString @ '' '' @ dec percentage @ '' ''
       @ concat (map not_known known)"

definition near_part :: "string \<Rightarrow> string \<Rightarrow> string \<Rightarrow> int \<Rightarrow> string" where
  "near_part relation order fileid percentage =
     ''(SELECT CLIENTID,IP,MESSAGEPORT,PERCENTAGE FROM '' @ clientInfoTableName @ '' INNER JOIN ''
       @ fileOwnerTableName @ '' WHERE '' @ fileOwnerTableName @ ''.FILEID='' @ quoted fileid
       @ select_join @ relation @ '' '' @ dec percentage @ '' ORDER BY PERCENTAGE '' @ order"

definition near_sql :: "string \<Rightarrow> int \<Rightarrow> int \<Rightarrow> string list \<Rightarrow> string" where
  "near_sql fileid percentage needCount known =
     ''SELECT * FROM '' @ ''('' @ near_part ''<='' ''DESC'' fileid percentage @ '') AS GREATER_RECORDS ''
       @ ''UNION ALL '' @ near_part ''>'' ''ASC '' fileid percentage @ '') AS LESS_EQUAL_RECORDS''
       @ '') AS RECORDS WHERE PERCENTAGE != 0 '' @ concat (map not_known known) @ '' LIMIT '' @ dec needCount"

section \<open>The operations\<close>

definition insert_or_update_login_info ::
    "'db session \<Rightarrow> string \<Rightarrow> string \<Rightarrow> int \<Rightarrow> string \<Rightarrow> 'db \<Rightarrow> (retcode, 'db) result" where
  "insert_or_update_login_info S clientid ip port loginTime db =
     (let init_upload_total = 0; init_download_total = 0
      in and_then (ss_execute S login_sql
           [SqlText clientid, SqlText ip, SqlInt port, SqlInt init_upload_total,
            SqlInt init_download_total, SqlText loginTime, SqlText loginTime] db)
         (\<lambda>_ db. (Ret ERROR_OK, db)))"

definition update_logout_info ::
    "'db session \<Rightarrow> string \<Rightarrow> int \<Rightarrow> int \<Rightarrow> 'db \<Rightarrow> (retcode, 'db) result" where
  "update_logout_info S clientid downloadTotal uploadTotal db =
     and_then (ss_execute S logout_sql [SqlInt downloadTotal, SqlInt uploadTotal, SqlText clientid] db)
       (\<lambda>_ db. (Ret ERROR_OK, db))"

definition insert_file_owner_info :: "'db session \<Rightarrow> owner_info \<Rightarrow> 'db \<Rightarrow> (retcode, 'db) result" where
  "insert_file_owner_info S info db =
     and_then (ss_execute S publish_sql
         [SqlText (oi_fileid info), SqlText (oi_clientid info), SqlInt (oi_percentage info)] db)
       (\<lambda>_ db. (Ret ERROR_OK, db))"

definition update_file_owner_info :: "'db session \<Rightarrow> owner_info \<Rightarrow> 'db \<Rightarrow> (retcode, 'db) result" where
  "update_file_owner_info S info db =
     and_then (ss_execute S (report_sql info) [] db) (\<lambda>_ db. (Ret ERROR_OK, db))"

definition remove_file_owner_info :: "'db session \<Rightarrow> owner_info \<Rightarrow> 'db \<Rightarrow> (retcode, 'db) result" where
  "remove_file_owner_info S info db =
     and_then (ss_execute S remove_sql [SqlText (oi_fileid info), SqlText (oi_clientid info)] db)
       (\<lambda>_ db. (Ret ERROR_OK, db))"

definition init_client_info_table :: "'db session \<Rightarrow> 'db \<Rightarrow> (retcode, 'db) result" where
  "init_client_info_table S db =
     (case ss_execute S create_client_sql [] db of
        (Ret _, db) \<Rightarrow> (Ret ERROR_OK, db)
      | (Throw e, db) \<Rightarrow>
          if poco_exception e then (Ret ERROR_DB_INIT_TABLE_ERROR, db) else (Throw e, db))"

definition init_file_owner_info_table :: "'db session \<Rightarrow> 'db \<Rightarrow> (retcode, 'db) result" where
  "init_file_owner_info_table S db =
     (case ss_execute S create_owner_sql [] db of
        (Ret _, db) \<Rightarrow> (Ret ERROR_OK, db)
      | (Throw e, db) \<Rightarrow>
          if poco_exception e then (Ret ERROR_DB_INIT_TABLE_ERROR, db) else (Throw e, db))"

definition init_tables :: "'db session \<Rightarrow> 'db \<Rightarrow> (retcode, 'db) result" where
  "init_tables S db =
     and_then (init_client_info_table S db) (\<lambda>ret db.
       if ret \<noteq> ERROR_OK then (Ret ret, db)
       else and_then (init_file_owner_info_table S db) (\<lambda>ret db.
         if ret \<noteq> ERROR_OK then (Ret ret, db) else (Ret ERROR_OK, db)))"

text \<open>
  The loop over a record set moves to the next row before it reads: it starts on the first row and
  reads once more after the last.  \<open>cursor_loop S rows rest\<close> is the loop with \<open>rest\<close> behind the
  cursor's row.
\<close>

fun cursor_loop :: "'db session \<Rightarrow> client_row list \<Rightarrow> client_row list \<Rightarrow> client_row list outcome" where
  "cursor_loop S rows [] = map_outcome (\<lambda>r. [r]) (ss_after_end S rows)"
| "cursor_loop S rows (r # rest) = map_outcome ((#) r) (cursor_loop S rows rest)"

definition read_rows :: "'db session \<Rightarrow> client_row list \<Rightarrow> client_row list outcome" where
  "read_rows S rows = (case rows of [] \<Rightarrow> Ret [] | _ # rest \<Rightarrow> cursor_loop S rows rest)"

type_synonym found = "client_info \<times> owner_info"

definition found_of :: "string \<Rightarrow> client_row \<Rightarrow> found" where
  "found_of fileid r =
     (\<lparr>ci_clientid = cr_clientid r, ci_ip = cr_ip r, ci_messageport = cr_messageport r\<rparr>,
      \<lparr>oi_clientid = cr_clientid r, oi_fileid = fileid, oi_percentage = cr_percentage r\<rparr>)"

definition rows_found ::
    "'db session \<Rightarrow> string \<Rightarrow> found list \<Rightarrow> client_row list outcome \<Rightarrow> (retcode \<times> found list) outcome" where
  "rows_found S fileid c selected =
     (case selected of
        Throw e \<Rightarrow> Throw e
      | Ret rows \<Rightarrow> map_outcome (\<lambda>rs. (ERROR_OK, c @ map (found_of fileid) rs)) (read_rows S rows))"

text \<open>The enum \<open>SearchType\<close>; a query leaves the database as it is.\<close>

definition GREATER :: int where "GREATER = 1"
definition LESS_EQUAL :: int where "LESS_EQUAL = 2"

definition search_percentage_raw ::
    "'db session \<Rightarrow> int \<Rightarrow> string \<Rightarrow> int \<Rightarrow> int \<Rightarrow> string list \<Rightarrow> found list \<Rightarrow> 'db
      \<Rightarrow> (retcode \<times> found list) outcome" where
  "search_percentage_raw S type fileid percentage needCount clientids c db =
     (if needCount \<le> 0 then Ret (ERROR_OK, c)
      else if type \<noteq> GREATER \<and> type \<noteq> LESS_EQUAL then Ret (ERROR_UNKNOWN, c)
      else let typeString = (if type = GREATER then ''>'' else ''<='')
           in rows_found S fileid c
                (ss_select S (select_sql typeString fileid percentage clientids) (Some (nat needCount)) db))"

definition search_greater_percentage ::
    "'db session \<Rightarrow> string \<Rightarrow> int \<Rightarrow> int \<Rightarrow> string list \<Rightarrow> found list \<Rightarrow> 'db
      \<Rightarrow> (retcode \<times> found list) outcome" where
  "search_greater_percentage S fileid percentage needCount clientids c db =
     search_percentage_raw S GREATER fileid percentage needCount clientids c db"

definition search_less_equal_percentage ::
    "'db session \<Rightarrow> string \<Rightarrow> int \<Rightarrow> int \<Rightarrow> string list \<Rightarrow> found list \<Rightarrow> 'db
      \<Rightarrow> (retcode \<times> found list) outcome" where
  "search_less_equal_percentage S fileid percentage needCount clientids c db =
     search_percentage_raw S LESS_EQUAL fileid percentage needCount clientids c db"

definition search_near_percentage_client ::
    "'db session \<Rightarrow> string \<Rightarrow> int \<Rightarrow> int \<Rightarrow> string list \<Rightarrow> found list \<Rightarrow> 'db
      \<Rightarrow> (retcode \<times> found list) outcome" where
  "search_near_percentage_client S fileid percentage needCount clientids c db =
     (if needCount \<le> 0 then Ret (ERROR_OK, c)
      else rows_found S fileid c
        (ss_select S (near_sql fileid percentage needCount clientids) None db))"

end
