(* ===== verification/Registry.thy ===== *)
theory Registry
  imports TrackerDB
begin

text \<open>
  What the tracker's database stands for, and what MySQL documents about the statements of
  \<open>TrackerDB\<close>.  A registry holds who has logged in, from where and whether he is online, and which
  client has how much of which file.  \<open>mysql_laws S view\<close> says that a session's statements act on the
  registry \<open>view db\<close> as they are documented to, for keys and values that the columns hold unchanged
  (hexadecimal keys of at most 40 characters: no quote to end a literal, no folding of case).
  A session that reads its tables from association lists, at the end, satisfies the laws.
\<close>

section \<open>The registry\<close>

record client_entry =
  ce_ip :: string
  ce_messageport :: int
  ce_uploadtotal :: int
  ce_downloadtotal :: int
  ce_createtime :: string
  ce_lastlogintime :: string
  ce_isonline :: bool

record registry =
  rg_clients :: "string \<Rightarrow> client_entry option"
  rg_owners :: "string \<times> string \<Rightarrow> int option"

definition reg_login :: "string \<Rightarrow> string \<Rightarrow> int \<Rightarrow> string \<Rightarrow> registry \<Rightarrow> registry" where
  "reg_login c ip port t R = R\<lparr>rg_clients := (rg_clients R)(c \<mapsto>
     (case rg_clients R c of
        None \<Rightarrow> \<lparr>ce_ip = ip, ce_messageport = port, ce_uploadtotal = 0, ce_downloadtotal = 0,
                 ce_createtime = t, ce_lastlogintime = t, ce_isonline = True\<rparr>
      | Some e \<Rightarrow> e\<lparr>ce_ip := ip, ce_messageport := port, ce_lastlogintime := t, ce_isonline := True\<rparr>))\<rparr>"

definition reg_logout :: "string \<Rightarrow> registry \<Rightarrow> registry" where
  "reg_logout c R = R\<lparr>rg_clients := (rg_clients R)(c := map_option (ce_isonline_update (\<lambda>_. False)) (rg_clients R c))\<rparr>"

definition reg_own :: "string \<Rightarrow> string \<Rightarrow> int \<Rightarrow> registry \<Rightarrow> registry" where
  "reg_own f c p R = R\<lparr>rg_owners := (rg_owners R)((f, c) \<mapsto> p)\<rparr>"

definition reg_disown :: "string \<Rightarrow> string \<Rightarrow> registry \<Rightarrow> registry" where
  "reg_disown f c R = R\<lparr>rg_owners := (rg_owners R)((f, c) := None)\<rparr>"

text \<open>The rows that a query for the owners of a file matches.\<close>

definition offers :: "registry \<Rightarrow> string \<Rightarrow> string list \<Rightarrow> client_row \<Rightarrow> bool" where
  "offers R f known r \<longleftrightarrow>
     (case rg_clients R (cr_clientid r) of
        None \<Rightarrow> False
      | Some e \<Rightarrow> ce_isonline e \<and> cr_ip r = ce_ip e \<and> cr_messageport r = ce_messageport e) \<and>
     rg_owners R (f, cr_clientid r) = Some (cr_percentage r) \<and> cr_clientid r \<notin> set known"

section \<open>What MySQL documents\<close>

definition plain_id :: "string \<Rightarrow> bool" where
  "plain_id s \<longleftrightarrow> length s \<le> 40 \<and> set s \<subseteq> set ''0123456789abcdef''"

definition i32 :: "int \<Rightarrow> bool" where
  "i32 x \<longleftrightarrow> - (2 ^ 31) \<le> x \<and> x < 2 ^ 31"

text \<open>The rows a query with a limit may give: matching ones, each once, and all if the limit allows.\<close>

definition answers_query :: "(client_row \<Rightarrow> bool) \<Rightarrow> nat \<Rightarrow> client_row list \<Rightarrow> bool" where
  "answers_query P n rows \<longleftrightarrow> distinct rows \<and> length rows \<le> n \<and> (\<forall>r \<in> set rows. P r) \<and>
     (length rows < n \<longrightarrow> set rows = {r. P r})"

definition executes ::
    "'db session \<Rightarrow> ('db \<Rightarrow> registry) \<Rightarrow> string \<Rightarrow> sql_value list \<Rightarrow> (registry \<Rightarrow> registry) \<Rightarrow> 'db \<Rightarrow> bool" where
  "executes S view sql binds f db \<longleftrightarrow>
     fst (ss_execute S sql binds db) = Ret () \<and> view (snd (ss_execute S sql binds db)) = f (view db)"

definition table_laws :: "'db session \<Rightarrow> ('db \<Rightarrow> registry) \<Rightarrow> bool" where
  "table_laws S view \<longleftrightarrow>
     (\<forall>db c ip port t. plain_id c \<and> length ip \<le> 20 \<and> length t \<le> 40 \<and> i32 port \<longrightarrow>
        executes S view login_sql [SqlText c, SqlText ip, SqlInt port, SqlInt 0, SqlInt 0, SqlText t, SqlText t]
          (reg_login c ip port t) db) \<and>
     (\<forall>db c. plain_id c \<longrightarrow> executes S view logout_sql [SqlInt 0, SqlInt 0, SqlText c] (reg_logout c) db)"

definition owner_laws :: "'db session \<Rightarrow> ('db \<Rightarrow> registry) \<Rightarrow> bool" where
  "owner_laws S view \<longleftrightarrow>
     (\<forall>db f c p. plain_id f \<and> plain_id c \<and> i32 p \<longrightarrow>
        executes S view (report_sql \<lparr>oi_clientid = c, oi_fileid = f, oi_percentage = p\<rparr>) [] (reg_own f c p) db \<and>
        (if rg_owners (view db) (f, c) = None
         then executes S view publish_sql [SqlText f, SqlText c, SqlInt p] (reg_own f c p) db
         else ss_execute S publish_sql [SqlText f, SqlText c, SqlInt p] db = (Throw DataException, db))) \<and>
     (\<forall>db f c. plain_id f \<and> plain_id c \<longrightarrow>
        executes S view remove_sql [SqlText f, SqlText c] (reg_disown f c) db)"

definition query_laws :: "'db session \<Rightarrow> ('db \<Rightarrow> registry) \<Rightarrow> bool" where
  "query_laws S view \<longleftrightarrow>
     (\<forall>db f known p n. plain_id f \<and> (\<forall>c \<in> set known. plain_id c) \<and> i32 p \<and> 0 < n \<longrightarrow>
        (\<exists>rows. ss_select S (select_sql ''>'' f p known) (Some n) db = Ret rows \<and>
           answers_query (\<lambda>r. offers (view db) f known r \<and> p < cr_percentage r) n rows) \<and>
        (\<exists>rows. ss_select S (select_sql ''<='' f p known) (Some n) db = Ret rows \<and>
           answers_query (\<lambda>r. offers (view db) f known r \<and> cr_percentage r \<le> p) n rows))"

definition mysql_laws :: "'db session \<Rightarrow> ('db \<Rightarrow> registry) \<Rightarrow> bool" where
  "mysql_laws S view \<longleftrightarrow> table_laws S view \<and> owner_laws S view \<and> query_laws S view"

text \<open>\<open>moveNext\<close> leaves the cursor on the last row when there is no next one.\<close>

definition cursor_stays :: "'db session \<Rightarrow> bool" where
  "cursor_stays S \<longleftrightarrow> (\<forall>rows. rows \<noteq> [] \<longrightarrow> ss_after_end S rows = Ret (last rows))"

section \<open>The operations on the registry\<close>

lemma executes_then:
  "executes S view sql binds f db \<Longrightarrow>
     \<exists>db'. and_then (ss_execute S sql binds db) (\<lambda>_ db. (Ret ERROR_OK, db)) = (Ret ERROR_OK, db') \<and>
       view db' = f (view db)"
  by (cases "ss_execute S sql binds db") (auto simp: executes_def)

lemma login_registers:
  assumes "mysql_laws S view" and "plain_id c" "length ip \<le> 20" "length t \<le> 40" "i32 port"
  obtains db' where "insert_or_update_login_info S c ip port t db = (Ret ERROR_OK, db')"
    and "view db' = reg_login c ip port t (view db)"
proof -
  have "executes S view login_sql [SqlText c, SqlText ip, SqlInt port, SqlInt 0, SqlInt 0, SqlText t, SqlText t]
      (reg_login c ip port t) db"
    using assms by (simp add: mysql_laws_def table_laws_def)
  from executes_then [OF this] that show ?thesis by (auto simp: insert_or_update_login_info_def)
qed

lemma logout_registers:
  assumes "mysql_laws S view" and "plain_id c"
  obtains db' where "update_logout_info S c 0 0 db = (Ret ERROR_OK, db')"
    and "view db' = reg_logout c (view db)"
proof -
  have "executes S view logout_sql [SqlInt 0, SqlInt 0, SqlText c] (reg_logout c) db"
    using assms by (simp add: mysql_laws_def table_laws_def)
  from executes_then [OF this] that show ?thesis by (auto simp: update_logout_info_def)
qed

lemma report_registers:
  assumes "mysql_laws S view" and "plain_id f" "plain_id c" "i32 p"
  obtains db' where "update_file_owner_info S \<lparr>oi_clientid = c, oi_fileid = f, oi_percentage = p\<rparr> db = (Ret ERROR_OK, db')"
    and "view db' = reg_own f c p (view db)"
proof -
  have "executes S view (report_sql \<lparr>oi_clientid = c, oi_fileid = f, oi_percentage = p\<rparr>) [] (reg_own f c p) db"
    using assms by (simp add: mysql_laws_def owner_laws_def)
  from executes_then [OF this] that show ?thesis by (auto simp: update_file_owner_info_def)
qed

lemma publish_registers:
  assumes "mysql_laws S view" and "plain_id f" "plain_id c" "i32 p" and "rg_owners (view db) (f, c) = None"
  obtains db' where "insert_file_owner_info S \<lparr>oi_clientid = c, oi_fileid = f, oi_percentage = p\<rparr> db = (Ret ERROR_OK, db')"
    and "view db' = reg_own f c p (view db)"
proof -
  have "executes S view publish_sql [SqlText f, SqlText c, SqlInt p] (reg_own f c p) db"
    using assms by (simp add: mysql_laws_def owner_laws_def)
  from executes_then [OF this] that show ?thesis by (auto simp: insert_file_owner_info_def)
qed

lemma publish_duplicate:
  assumes "mysql_laws S view" and "plain_id f" "plain_id c" "i32 p" and "rg_owners (view db) (f, c) \<noteq> None"
  shows "insert_file_owner_info S \<lparr>oi_clientid = c, oi_fileid = f, oi_percentage = p\<rparr> db = (Throw DataException, db)"
proof -
  have "ss_execute S publish_sql [SqlText f, SqlText c, SqlInt p] db = (Throw DataException, db)"
    using assms by (auto simp add: mysql_laws_def owner_laws_def)
  then show ?thesis by (simp add: insert_file_owner_info_def)
qed

section \<open>Searching\<close>

text \<open>The rows a search takes over, when the cursor stays: the first row is lost, the last comes twice.\<close>

definition told :: "client_row list \<Rightarrow> client_row list" where
  "told rows = (if rows = [] then [] else tl rows @ [last rows])"

lemma set_told: "set (told rows) \<subseteq> set rows"
  by (cases rows) (auto simp: told_def)

lemma length_told [simp]: "length (told rows) = length rows"
  by (cases rows) (simp_all add: told_def)

lemma told_single [simp]: "told [] = []" "told [r] = [r]"
  by (simp_all add: told_def)

lemma cursor_loop_told:
  assumes "cursor_stays S" and "rows \<noteq> []"
  shows "cursor_loop S rows rest = Ret (rest @ [last rows])"
  using assms by (induction rest) (auto simp: cursor_stays_def)

lemma read_rows_told: "cursor_stays S \<Longrightarrow> read_rows S rows = Ret (told rows)"
  by (cases rows) (simp_all add: read_rows_def told_def cursor_loop_told)

lemma search_told:
  assumes "mysql_laws S view" and "cursor_stays S" and "plain_id f" "\<forall>c \<in> set known. plain_id c" "i32 p" "0 < n"
  obtains rows where "search_greater_percentage S f p n known c db = Ret (ERROR_OK, c @ map (found_of f) (told rows))"
    and "answers_query (\<lambda>r. offers (view db) f known r \<and> p < cr_percentage r) (nat n) rows"
proof -
  obtain rows where "ss_select S (select_sql ''>'' f p known) (Some (nat n)) db = Ret rows"
    "answers_query (\<lambda>r. offers (view db) f known r \<and> p < cr_percentage r) (nat n) rows"
    using assms unfolding mysql_laws_def query_laws_def by (meson zero_less_nat_eq)
  with assms(2,6) that show ?thesis
    by (auto simp: search_greater_percentage_def search_percentage_raw_def GREATER_def rows_found_def read_rows_told)
qed

lemma search_less_told:
  assumes "mysql_laws S view" and "cursor_stays S" and "plain_id f" "\<forall>c \<in> set known. plain_id c" "i32 p" "0 < n"
  obtains rows where "search_less_equal_percentage S f p n known c db = Ret (ERROR_OK, c @ map (found_of f) (told rows))"
    and "answers_query (\<lambda>r. offers (view db) f known r \<and> cr_percentage r \<le> p) (nat n) rows"
proof -
  obtain rows where "ss_select S (select_sql ''<='' f p known) (Some (nat n)) db = Ret rows"
    "answers_query (\<lambda>r. offers (view db) f known r \<and> cr_percentage r \<le> p) (nat n) rows"
    using assms unfolding mysql_laws_def query_laws_def by (meson zero_less_nat_eq)
  with assms(2,6) that show ?thesis
    by (auto simp: search_less_equal_percentage_def search_percentage_raw_def GREATER_def LESS_EQUAL_def
        rows_found_def read_rows_told)
qed

end
