(* ===== verification/Tracker.thy ===== *)
theory Tracker
  imports Registry NetPack
begin

text \<open>
  \<open>tracker/src/tracker.cc\<close> and \<open>tracker/src/tracker_connection_handler.cc\<close>: the tracker's operations
  on its database, and the handler of one connection, which reads a packet, serves it and answers.
  The handlers of all connections share the database; the names that the client has too carry the
  prefix \<open>tracker_\<close>.  \<open>get_current_time\<close> and the peer's address are arguments of the calls that use
  them.  \<open>peerAddress()\<close> throws when the peer is gone; so a log line that names the peer can fail, and
  is modelled where it is of a level that is logged by default (\<open>information\<close> and above).
\<close>

section \<open>Tracker\<close>

definition AddOnlineUser :: "'db session \<Rightarrow> string \<Rightarrow> client_info \<Rightarrow> 'db \<Rightarrow> (retcode, 'db) result" where
  "AddOnlineUser S loginTime peer db =
     insert_or_update_login_info S (ci_clientid peer) (ci_ip peer) (ci_messageport peer) loginTime db"

definition RemoveOnlineUser :: "'db session \<Rightarrow> string \<Rightarrow> 'db \<Rightarrow> (retcode, 'db) result" where
  "RemoveOnlineUser S clientid db =
     (let uploadTotal = 0; downloadTotal = 0 in update_logout_info S clientid uploadTotal downloadTotal db)"

text \<open>
  The collection that is passed in is cleared first.  Its size is compared with \<open>needCount\<close> as a
  \<open>size_t\<close>; \<open>needCount\<close> is not negative there.
\<close>

definition tracker_RequestClients ::
    "'db session \<Rightarrow> string \<Rightarrow> int \<Rightarrow> int \<Rightarrow> string list \<Rightarrow> 'db \<Rightarrow> (retcode \<times> found list) outcome" where
  "tracker_RequestClients S fileid percentage needCount owned db =
     (if fileid = [] \<or> percentage < 0 \<or> percentage > 100 \<or> needCount < 0 then Ret (ERROR_UNKNOWN, [])
      else (case search_greater_percentage S fileid percentage needCount owned [] db of
          Throw e \<Rightarrow> Throw e
        | Ret (ret, clients) \<Rightarrow>
            if ret \<noteq> ERROR_OK then Ret (ret, clients)
            else if int (length clients) < needCount \<and> percentage > 0 then
              (case search_less_equal_percentage S fileid percentage
                   (to_i32 (needCount - int (length clients))) owned clients db of
                 Throw e \<Rightarrow> Throw e
               | Ret (ret, clients) \<Rightarrow> Ret (ret, clients))
            else Ret (ERROR_OK, clients)))"

definition tracker_ReportProgress ::
    "'db session \<Rightarrow> string \<Rightarrow> string \<Rightarrow> int \<Rightarrow> 'db \<Rightarrow> (retcode, 'db) result" where
  "tracker_ReportProgress S clientid fileid percentage db =
     update_file_owner_info S \<lparr>oi_clientid = clientid, oi_fileid = fileid, oi_percentage = percentage\<rparr> db"

definition PublishResource :: "'db session \<Rightarrow> string \<Rightarrow> string \<Rightarrow> 'db \<Rightarrow> (retcode, 'db) result" where
  "PublishResource S clientid fileid db =
     insert_file_owner_info S \<lparr>oi_clientid = clientid, oi_fileid = fileid, oi_percentage = 100\<rparr> db"

section \<open>The handler of a connection\<close>

record 'db tracker_handler =
  th_sock :: sock
  th_clientid :: string
  th_registered :: bool
  th_deleted :: bool
  th_db :: 'db

text \<open>What a log line with the peer's address comes to.\<close>

definition log_peer :: "string outcome \<Rightarrow> 's \<Rightarrow> (unit, 's) result" where
  "log_peer peer s = (map_outcome (\<lambda>_. ()) peer, s)"

text \<open>
  The constructor logs the address and then registers two observers with the reactor; the destructor
  logs it before it removes them.  The memory is freed even when the destructor throws.
\<close>

definition new_tracker_handler :: "sock \<Rightarrow> 'db \<Rightarrow> 'db tracker_handler" where
  "new_tracker_handler s db =
     \<lparr>th_sock = s, th_clientid = [], th_registered = True, th_deleted = False, th_db = db\<rparr>"

definition open_tracker_handler :: "string outcome \<Rightarrow> sock \<Rightarrow> 'db \<Rightarrow> 'db tracker_handler outcome" where
  "open_tracker_handler peer s db = map_outcome (\<lambda>_. new_tracker_handler s db) peer"

definition delete_tracker_handler :: "string outcome \<Rightarrow> 'db tracker_handler \<Rightarrow> (unit, 'db tracker_handler) result" where
  "delete_tracker_handler peer th =
     and_then (log_peer peer (th\<lparr>th_deleted := True\<rparr>)) (\<lambda>_ th. (Ret (), th\<lparr>th_registered := False\<rparr>))"

text \<open>
  The handlers of the payload types work on the client id and the database.  Each gives its return
  code and the reply it has filled in so far, also when it throws: \<open>Process\<close> sends that reply.
\<close>

type_synonym 'db conn_state = "string \<times> 'db"

definition code_reply :: "retcode \<Rightarrow> message_reply" where
  "code_reply ret = \<lparr>mr_returncode = Some (retcode_value ret)\<rparr>"

text \<open>The end of four handlers: the reply says \<open>ERROR_OK\<close> when the operation returned that.\<close>

definition answer_code :: "string \<Rightarrow> (retcode, 'db) result \<Rightarrow> retcode outcome \<times> message_reply \<times> 'db conn_state" where
  "answer_code cid r =
     (case r of
        (Throw e, db) \<Rightarrow> (Throw e, code_reply ERROR_UNKNOWN, cid, db)
      | (Ret ret, db) \<Rightarrow>
          if ret \<noteq> ERROR_OK then (Ret ret, code_reply ERROR_UNKNOWN, cid, db)
          else (Ret ERROR_OK, code_reply ERROR_OK, cid, db))"

definition HandleLogin ::
    "'db session \<Rightarrow> string outcome \<Rightarrow> string \<Rightarrow> message option \<Rightarrow> 'db conn_state
      \<Rightarrow> retcode outcome \<times> message_reply \<times> 'db conn_state" where
  "HandleLogin S peer now msg st =
     (case cast_login msg of
        None \<Rightarrow> (Ret ERROR_PROTO_TYPE_ERROR, code_reply ERROR_UNKNOWN, st)
      | Some login \<Rightarrow>
          (case (case lg_loginip login of Some ip \<Rightarrow> Ret ip | None \<Rightarrow> peer) of
             Throw e \<Rightarrow> (Throw e, code_reply ERROR_UNKNOWN, st)
           | Ret ip \<Rightarrow>
               answer_code (lg_clientid login) (AddOnlineUser S now
                 \<lparr>ci_clientid = lg_clientid login, ci_ip = ip, ci_messageport = messageport login\<rparr> (snd st))))"

definition log_failed :: "string outcome \<Rightarrow> retcode outcome \<Rightarrow> retcode outcome" where
  "log_failed peer r =
     (case r of
        Ret ret \<Rightarrow> if ret \<noteq> ERROR_OK then map_outcome (\<lambda>_. ret) peer else r
      | Throw e \<Rightarrow> r)"

definition HandleLogOut ::
    "'db session \<Rightarrow> string outcome \<Rightarrow> message option \<Rightarrow> 'db conn_state
      \<Rightarrow> retcode outcome \<times> message_reply \<times> 'db conn_state" where
  "HandleLogOut S peer msg st =
     (case cast_logout msg of
        None \<Rightarrow> (Ret ERROR_PROTO_TYPE_ERROR, code_reply ERROR_UNKNOWN, st)
      | Some logout \<Rightarrow>
          if lo_clientid logout \<noteq> fst st then (log_failed peer (Ret ERROR_UNKNOWN), code_reply ERROR_UNKNOWN, st)
          else (let (ret, reply, st) = answer_code (fst st) (RemoveOnlineUser S (lo_clientid logout) (snd st))
                in (log_failed peer ret, reply, st)))"

definition HandleReportProgress ::
    "'db session \<Rightarrow> message option \<Rightarrow> 'db conn_state \<Rightarrow> retcode outcome \<times> message_reply \<times> 'db conn_state" where
  "HandleReportProgress S msg st =
     (case cast_report_progress msg of
        None \<Rightarrow> (Ret ERROR_PROTO_TYPE_ERROR, code_reply ERROR_UNKNOWN, st)
      | Some report \<Rightarrow>
          answer_code (fst st)
            (tracker_ReportProgress S (rp_clientid report) (rp_fileid report) (rp_percentage report) (snd st)))"

definition HandlePublishResource ::
    "'db session \<Rightarrow> message option \<Rightarrow> 'db conn_state \<Rightarrow> retcode outcome \<times> message_reply \<times> 'db conn_state" where
  "HandlePublishResource S msg st =
     (case cast_publish_resource msg of
        None \<Rightarrow> (Ret ERROR_PROTO_TYPE_ERROR, code_reply ERROR_UNKNOWN, st)
      | Some publish \<Rightarrow>
          answer_code (fst st) (PublishResource S (pr_clientid publish) (pr_fileid publish) (snd st)))"

definition peer_of_found :: "found \<Rightarrow> peer_file_info" where
  "peer_of_found v =
     \<lparr>pf_client = \<lparr>pe_clientid = ci_clientid (fst v), pe_ip = ci_ip (fst v), pe_messageport = ci_messageport (fst v)\<rparr>,
      pf_percentage = oi_percentage (snd v)\<rparr>"

definition HandleRequestPeer ::
    "'db session \<Rightarrow> string outcome \<Rightarrow> message option \<Rightarrow> query_peer_reply \<Rightarrow> 'db conn_state
      \<Rightarrow> retcode outcome \<times> query_peer_reply" where
  "HandleRequestPeer S peer msg out st =
     (case cast_query_peer msg of
        None \<Rightarrow> (Ret ERROR_PROTO_TYPE_ERROR, out)
      | Some query \<Rightarrow>
          let out = out\<lparr>qr_fileid := Some (qp_fileid query)\<rparr>;
              idCollection = qp_ownedclients query @ [fst st]
          in (case tracker_RequestClients S (qp_fileid query) (qp_percentage query) (needcount query)
                 idCollection (snd st) of
                Throw e \<Rightarrow> (Throw e, out)
              | Ret (ret, found) \<Rightarrow>
                  if ret \<noteq> ERROR_OK then (log_failed peer (Ret ret), out\<lparr>qr_count := Some 0\<rparr>)
                  else (Ret ERROR_OK, out\<lparr>qr_count := Some (to_i32 (int (length found))),
                         qr_info := qr_info out @ map peer_of_found found,
                         qr_returncode := Some (retcode_value ERROR_OK)\<rparr>)))"

text \<open>
  \<open>Process\<close>: a null message leaves the answer an empty packet.  A Poco exception is logged; the reply
  goes out as it is, unless the log line throws.  A type that is not known is answered with
  \<open>ERROR_UNKNOWN\<close>.
\<close>

definition message_handler ::
    "'db session \<Rightarrow> string outcome \<Rightarrow> string \<Rightarrow> int \<Rightarrow> message option \<Rightarrow> 'db conn_state
      \<Rightarrow> retcode outcome \<times> message_reply \<times> 'db conn_state" where
  "message_handler S peer now t msg st =
     (if t = PAYLOAD_LOGIN then HandleLogin S peer now msg st
      else if t = PAYLOAD_LOGOUT then HandleLogOut S peer msg st
      else if t = PAYLOAD_REPORT_PROGRESS then HandleReportProgress S msg st
      else if t = PAYLOAD_PUBLISH_RESOURCE then HandlePublishResource S msg st
      else (log_failed peer (Ret ERROR_UNKNOWN), code_reply ERROR_UNKNOWN, st))"

fun escapes :: "string outcome \<Rightarrow> 'a outcome \<Rightarrow> exn option" where
  "escapes peer (Ret _) = None"
| "escapes peer (Throw e) =
     (if poco_exception e then (case peer of Ret _ \<Rightarrow> None | Throw e \<Rightarrow> Some e) else Some e)"

definition tracker_Process ::
    "protobuf \<Rightarrow> 'db session \<Rightarrow> string outcome \<Rightarrow> string \<Rightarrow> netpack \<Rightarrow> 'db conn_state
      \<Rightarrow> (netpack, 'db conn_state) result" where
  "tracker_Process pb S peer now req st =
     (let m = np_message pb req; t = np_payloadType req in
      if m = None then (Ret new_netpack, st)
      else if t = PAYLOAD_REQUEST_PEER then
        (let (ret, qpr) = HandleRequestPeer S peer m
               (empty_query_peer_reply\<lparr>qr_returncode := Some (retcode_value ERROR_UNKNOWN)\<rparr>) st
         in (case escapes peer ret of
               Some e \<Rightarrow> (Throw e, st)
             | None \<Rightarrow> (Ret (set_message pb PAYLOAD_REQUEST_PEER_REPLAY (QueryPeerReplyMsg qpr) new_netpack), st)))
      else
        (let (ret, mr, st) = message_handler S peer now t m st
         in (case escapes peer ret of
               Some e \<Rightarrow> (Throw e, st)
             | None \<Rightarrow> (Ret (set_message pb PAYLOAD_MESSAGE_REPLY (MessageReplyMsg mr) new_netpack), st))))"

definition on_handler_sock ::
    "(sock \<Rightarrow> ('a, sock) result) \<Rightarrow> 'db tracker_handler \<Rightarrow> ('a, 'db tracker_handler) result" where
  "on_handler_sock f th = (let (r, s) = f (th_sock th) in (r, th\<lparr>th_sock := s\<rparr>))"

definition on_conn_state ::
    "('db conn_state \<Rightarrow> ('a, 'db conn_state) result) \<Rightarrow> 'db tracker_handler \<Rightarrow> ('a, 'db tracker_handler) result" where
  "on_conn_state f th = (let (r, cid, db) = f (th_clientid th, th_db th) in (r, th\<lparr>th_clientid := cid, th_db := db\<rparr>))"

definition receive_pack ::
    "protobuf \<Rightarrow> int \<Rightarrow> netpack \<Rightarrow> sock \<Rightarrow> (retcode \<times> netpack, sock) result" where
  "receive_pack pb junk p sk = (let (r, (p, sk)) = receiveFrom pb junk p sk in (map_outcome (\<lambda>ret. (ret, p)) r, sk))"

text \<open>The \<open>err\<close> exit: the user is taken offline, then the handler deletes itself.\<close>

definition handler_err ::
    "'db session \<Rightarrow> string outcome \<Rightarrow> 'db tracker_handler \<Rightarrow> (unit, 'db tracker_handler) result" where
  "handler_err S peer th =
     and_then (on_conn_state (\<lambda>(cid, db). let (r, db) = RemoveOnlineUser S cid db in (r, (cid, db))) th)
       (\<lambda>_ th. delete_tracker_handler peer th)"

definition tracker_onReadable ::
    "protobuf \<Rightarrow> int \<Rightarrow> 'db session \<Rightarrow> string outcome \<Rightarrow> string \<Rightarrow> 'db tracker_handler
      \<Rightarrow> (unit, 'db tracker_handler) result" where
  "tracker_onReadable pb junk S peer now th =
     and_then (on_handler_sock (receive_pack pb junk new_netpack) th) (\<lambda>(ret, pack) th.
       if ret \<noteq> ERROR_OK then and_then (log_peer peer th) (\<lambda>_ th. handler_err S peer th)
       else and_then (on_conn_state (tracker_Process pb S peer now pack) th) (\<lambda>retMsg th.
         and_then (on_handler_sock (sendBy pb retMsg) th) (\<lambda>ret th.
           and_then (log_peer peer th) (\<lambda>_ th.
             if ret \<noteq> ERROR_OK then handler_err S peer th else (Ret (), th)))))"

definition tracker_onShutdown :: "string outcome \<Rightarrow> 'db tracker_handler \<Rightarrow> (unit, 'db tracker_handler) result" where
  "tracker_onShutdown peer th = and_then (log_peer peer th) (\<lambda>_ th. delete_tracker_handler peer th)"

text \<open>\<open>ParseProto\<close>, which nothing calls: the descriptor pool and the message factory are arguments.\<close>

definition ParseProto ::
    "(string \<Rightarrow> 'descriptor option) \<Rightarrow> ('descriptor \<Rightarrow> message option) \<Rightarrow> string \<Rightarrow> retcode \<times> message option" where
  "ParseProto find_type prototype name =
     (ERROR_OK, case find_type name of None \<Rightarrow> None | Some descriptor \<Rightarrow> prototype descriptor)"

end
