(* ===== verification/TableSession.thy ===== *)
theory TableSession
  imports Registry
begin

text \<open>
  A session on two association lists that reads the statements of \<open>TrackerDB\<close> from their text.  It
  satisfies \<open>mysql_laws\<close> and \<open>cursor_stays\<close>, so the theorems that have them as hypotheses speak of
  something; the witnesses run on it.
\<close>

section \<open>Reading a statement\<close>

definition read_quoted :: "string \<Rightarrow> string \<times> string" where
  "read_quoted s = (takeWhile (\<lambda>ch. ch \<noteq> qt) (tl s), tl (dropWhile (\<lambda>ch. ch \<noteq> qt) (tl s)))"

definition read_nat :: "string \<Rightarrow> nat" where
  "read_nat s = foldl (\<lambda>a ch. 10 * a + (of_char ch - 48)) 0 s"

definition read_dec :: "string \<Rightarrow> int" where
  "read_dec s = (if s \<noteq> [] \<and> hd s = CHR ''-'' then - int (read_nat (tl s)) else int (read_nat s))"

lemma read_quoted_quoted [simp]: "qt \<notin> set x \<Longrightarrow> read_quoted (quoted x @ r) = (x, r)"
  by (induction x) (auto simp: read_quoted_def quoted_def)

lemma read_nat_snoc: "read_nat (s @ [ch]) = 10 * read_nat s + (of_char ch - 48)"
  by (simp add: read_nat_def)

lemma read_nat_dec: "read_nat (dec_nat n) = n"
proof (induction n rule: dec_nat.induct)
  case (1 n)
  show ?case
  proof (cases "n < 10")
    case True
    then show ?thesis by (subst dec_nat.simps) (simp add: read_nat_def)
  next
    case False
    with 1 show ?thesis by (subst dec_nat.simps) (simp add: read_nat_snoc)
  qed
qed

definition digit :: "char \<Rightarrow> bool" where
  "digit ch \<longleftrightarrow> 48 \<le> (of_char ch :: nat) \<and> (of_char ch :: nat) < 58"

lemma dec_nat_digits: "\<forall>ch \<in> set (dec_nat n). digit ch"
proof (induction n rule: dec_nat.induct)
  case (1 n)
  then show ?case by (subst dec_nat.simps) (auto simp: digit_def)
qed

lemma dec_nat_not_Nil [simp]: "dec_nat n \<noteq> []"
  by (subst dec_nat.simps) simp

lemma read_dec_dec: "read_dec (dec i) = i"
proof -
  have "digit (hd (dec_nat n))" for n
    using dec_nat_digits [of n] dec_nat_not_Nil [of n] by simp
  moreover have "\<not> digit (CHR ''-'')" by (simp add: digit_def)
  ultimately have "hd (dec_nat n) \<noteq> CHR ''-''" for n by metis
  then show ?thesis by (simp add: read_dec_def dec_def read_nat_dec)
qed

definition read_number :: "string \<Rightarrow> int" where
  "read_number s = read_dec (takeWhile (\<lambda>ch. digit ch \<or> ch = CHR ''-'') s)"

lemma read_number_dec: "\<not> digit x \<Longrightarrow> x \<noteq> CHR ''-'' \<Longrightarrow> read_number (dec i @ x # r) = i"
  using dec_nat_digits unfolding read_number_def
  by (subst takeWhile_append2) (auto simp: dec_def read_dec_dec [unfolded dec_def] split: if_splits)

fun read_known :: "nat \<Rightarrow> string \<Rightarrow> string list" where
  "read_known 0 s = []"
| "read_known (Suc n) s =
     (if s = [] then []
      else let (c, r) = read_quoted (drop (length ''AND FILEOWNERINFO.CLIENTID != '') s)
           in c # read_known n r)"

lemma read_known_all:
  "\<forall>c \<in> set known. qt \<notin> set c \<Longrightarrow> length known \<le> n \<Longrightarrow> read_known n (concat (map not_known known)) = known"
proof (induction known arbitrary: n)
  case Nil
  then show ?case by (cases n) simp_all
next
  case (Cons c known)
  then obtain k where "n = Suc k" "length known \<le> k" by (cases n) auto
  with Cons show ?case by (simp add: not_known_def fileOwnerTableName_def)
qed

lemma plain_no_quote: "plain_id c \<Longrightarrow> qt \<notin> set c"
  by (auto simp: plain_id_def qt_def)

section \<open>The tables\<close>

record tables =
  tb_clients :: "(string \<times> client_entry) list"
  tb_owners :: "((string \<times> string) \<times> int) list"

definition view_tables :: "tables \<Rightarrow> registry" where
  "view_tables db = \<lparr>rg_clients = map_of (tb_clients db), rg_owners = map_of (tb_owners db)\<rparr>"

definition put_client :: "string \<Rightarrow> client_entry option \<Rightarrow> tables \<Rightarrow> tables" where
  "put_client c e db =
     (case e of None \<Rightarrow> db | Some e \<Rightarrow> db\<lparr>tb_clients := (c, e) # tb_clients db\<rparr>)"

definition put_owner :: "string \<Rightarrow> string \<Rightarrow> int \<Rightarrow> tables \<Rightarrow> tables" where
  "put_owner f c p db = db\<lparr>tb_owners := ((f, c), p) # tb_owners db\<rparr>"

definition run_report :: "string \<Rightarrow> tables \<Rightarrow> (unit, tables) result" where
  "run_report sql db =
     (let (f, r) = read_quoted (drop (length ''INSERT INTO FILEOWNERINFO (FILEID, CLIENTID, PERCENTAGE) VALUES( '') sql);
          (c, r) = read_quoted (drop 2 r)
      in (Ret (), put_owner f c (read_number (drop 2 r)) db))"

definition run_statement :: "string \<Rightarrow> sql_value list \<Rightarrow> tables \<Rightarrow> (unit, tables) result" where
  "run_statement sql binds db =
     (case binds of
        [] \<Rightarrow> if take 6 sql = ''CREATE'' then (Ret (), db) else run_report sql db
      | [SqlText c, SqlText ip, SqlInt port, SqlInt _, SqlInt _, SqlText t, SqlText _] \<Rightarrow>
          (Ret (), put_client c (rg_clients (reg_login c ip port t (view_tables db)) c) db)
      | [SqlInt _, SqlInt _, SqlText c] \<Rightarrow>
          (Ret (), put_client c (rg_clients (reg_logout c (view_tables db)) c) db)
      | [SqlText f, SqlText c, SqlInt p] \<Rightarrow>
          if map_of (tb_owners db) (f, c) = None then (Ret (), put_owner f c p db)
          else (Throw DataException, db)
      | [SqlText f, SqlText c] \<Rightarrow>
          (Ret (), db\<lparr>tb_owners := filter (\<lambda>e. fst e \<noteq> (f, c)) (tb_owners db)\<rparr>)
      | _ \<Rightarrow> (Throw DataException, db))"

lemma take_statement [simp]:
  "take 6 (report_sql info) = ''INSERT''" "take 6 create_client_sql = ''CREATE''" "take 6 create_owner_sql = ''CREATE''"
  by (simp_all add: report_sql_def create_client_sql_def create_owner_sql_def)

definition row_of :: "registry \<Rightarrow> string \<Rightarrow> string \<Rightarrow> client_row" where
  "row_of R f c = (case (rg_clients R c, rg_owners R (f, c)) of
     (Some e, Some p) \<Rightarrow> \<lparr>cr_clientid = c, cr_ip = ce_ip e, cr_messageport = ce_messageport e, cr_percentage = p\<rparr>
   | _ \<Rightarrow> \<lparr>cr_clientid = c, cr_ip = [], cr_messageport = 0, cr_percentage = 0\<rparr>)"

definition table_rows :: "tables \<Rightarrow> string \<Rightarrow> string list \<Rightarrow> (int \<Rightarrow> bool) \<Rightarrow> client_row list" where
  "table_rows db f known rel =
     filter (\<lambda>r. offers (view_tables db) f known r \<and> rel (cr_percentage r))
       (map (row_of (view_tables db) f) (remdups (map fst (tb_clients db))))"

definition read_condition :: "string \<Rightarrow> int \<times> string list" where
  "read_condition r =
     (read_number r, read_known (length r) (drop (Suc (length (takeWhile (\<lambda>ch. ch \<noteq> CHR '' '') r))) r))"

definition run_query :: "string \<Rightarrow> nat option \<Rightarrow> tables \<Rightarrow> client_row list outcome" where
  "run_query sql limit db =
     (let (f, r) = read_quoted (drop (length select_head) sql);
          r = drop (length select_join) r;
          less = hd r = CHR ''<'';
          (p, known) = read_condition (drop (if less then 3 else 2) r);
          rows = table_rows db f known (\<lambda>q. if less then q \<le> p else p < q)
      in Ret (case limit of None \<Rightarrow> rows | Some n \<Rightarrow> take n rows))"

definition table_session :: "tables session" where
  "table_session = \<lparr>ss_execute = run_statement, ss_select = run_query, ss_after_end = (\<lambda>rows. Ret (last rows))\<rparr>"

section \<open>It satisfies the laws\<close>

lemma cursor_stays_table_session: "cursor_stays table_session"
  by (simp add: cursor_stays_def table_session_def)

lemma view_put_client:
  "view_tables (put_client c e db) =
     (view_tables db)\<lparr>rg_clients := (case e of None \<Rightarrow> rg_clients (view_tables db)
        | Some e \<Rightarrow> (rg_clients (view_tables db))(c \<mapsto> e))\<rparr>"
  by (simp add: put_client_def view_tables_def split: option.splits)

lemma view_put_owner: "view_tables (put_owner f c p db) = reg_own f c p (view_tables db)"
  by (simp add: put_owner_def view_tables_def reg_own_def)

lemma table_laws_table_session: "table_laws table_session view_tables"
  by (auto simp: table_laws_def executes_def table_session_def run_statement_def view_put_client
      reg_login_def reg_logout_def fun_upd_idem split: option.splits)

lemma run_report_report:
  "qt \<notin> set f \<Longrightarrow> qt \<notin> set c \<Longrightarrow>
     run_report (report_sql \<lparr>oi_clientid = c, oi_fileid = f, oi_percentage = p\<rparr>) db = (Ret (), put_owner f c p db)"
  by (simp add: run_report_def report_sql_def fileOwnerTableName_def read_number_dec digit_def)

lemma map_of_filter_fst: "map_of (filter (\<lambda>e. fst e \<noteq> k) xs) = (map_of xs)(k := None)"
  by (induction xs) (auto simp: fun_eq_iff)

lemma view_filter_owner:
  "view_tables (db\<lparr>tb_owners := filter (\<lambda>e. fst e \<noteq> k) (tb_owners db)\<rparr>) =
     (view_tables db)\<lparr>rg_owners := (rg_owners (view_tables db))(k := None)\<rparr>"
  by (simp add: view_tables_def map_of_filter_fst)

lemma owner_laws_table_session: "owner_laws table_session view_tables"
  by (auto simp: owner_laws_def executes_def table_session_def run_statement_def view_put_owner
      run_report_report plain_no_quote view_filter_owner reg_disown_def)
    (simp_all add: view_tables_def)

lemma row_of_offers: "offers R f known r \<Longrightarrow> row_of R f (cr_clientid r) = r"
  by (cases r) (auto simp: offers_def row_of_def split: option.splits)

lemma cr_row_of [simp]: "cr_clientid (row_of R f c) = c"
  by (simp add: row_of_def split: option.splits)

lemma table_rows_distinct: "distinct (table_rows db f known rel)"
  unfolding table_rows_def
  by (intro distinct_filter) (simp add: distinct_map inj_on_def, metis cr_row_of)

lemma table_rows_set: "set (table_rows db f known rel) = {r. offers (view_tables db) f known r \<and> rel (cr_percentage r)}"
proof -
  have "r \<in> row_of (view_tables db) f ` fst ` set (tb_clients db)" if "offers (view_tables db) f known r" for r
  proof -
    have "cr_clientid r \<in> fst ` set (tb_clients db)"
      using that by (auto simp: offers_def view_tables_def dest!: map_of_SomeD split: option.splits) force
    with row_of_offers [OF that] show ?thesis by (metis imageI)
  qed
  then show ?thesis by (auto simp: table_rows_def)
qed

lemma answers_query_take:
  "answers_query (\<lambda>r. offers (view_tables db) f known r \<and> rel (cr_percentage r)) n (take n (table_rows db f known rel))"
  using table_rows_set [of db f known rel] table_rows_distinct [of db f known rel]
  by (auto simp: answers_query_def dest: in_set_takeD)


lemma dec_no_space: "takeWhile (\<lambda>ch. ch \<noteq> CHR '' '') (dec p @ '' '' @ r) = dec p"
proof -
  have "\<not> digit (CHR '' '')" by (simp add: digit_def)
  then have "CHR '' '' \<notin> set (dec_nat n)" for n using dec_nat_digits by blast
  then show ?thesis by (subst takeWhile_append2) (auto simp: dec_def split: if_splits)
qed

lemma length_not_known: "length known \<le> length (concat (map not_known known))"
  by (induction known) (simp_all add: not_known_def)

lemma read_condition_select:
  assumes "\<forall>c \<in> set known. qt \<notin> set c"
  shows "read_condition (dec p @ '' '' @ concat (map not_known known)) = (p, known)"
proof -
  let ?k = "concat (map not_known known)"
  let ?r = "dec p @ '' '' @ ?k"
  have "read_number ?r = p" using read_number_dec [of "CHR '' ''" p ?k] by (simp add: digit_def)
  moreover have "drop (Suc (length (takeWhile (\<lambda>ch. ch \<noteq> CHR '' '') ?r))) ?r = ?k"
    by (subst dec_no_space) simp
  moreover have "read_known (length ?r) ?k = known"
    using length_not_known [of known] by (intro read_known_all [OF assms]) simp
  ultimately show ?thesis by (simp only: read_condition_def)
qed

lemma run_query_select:
  assumes "qt \<notin> set f" and "\<forall>c \<in> set known. qt \<notin> set c"
  shows "run_query (select_sql ''>'' f p known) (Some n) db =
      Ret (take n (table_rows db f known (\<lambda>q. p < q)))"
    and "run_query (select_sql ''<='' f p known) (Some n) db =
      Ret (take n (table_rows db f known (\<lambda>q. q \<le> p)))"
  using assms(1) read_condition_select [OF assms(2), of p]
  by (simp_all add: run_query_def select_sql_def Let_def)

lemma query_laws_table_session: "query_laws table_session view_tables"
  unfolding query_laws_def
  by (auto simp: table_session_def run_query_select plain_no_quote intro!: answers_query_take)

lemma mysql_laws_table_session: "mysql_laws table_session view_tables"
  by (simp add: mysql_laws_def table_laws_table_session owner_laws_table_session query_laws_table_session)

end
