(* ===== verification/TrackerSpec.thy ===== *)
theory TrackerSpec
  imports Tracker TableSession ClientLink
begin

text \<open>
  What the tracker promises, as steps on a registry and the client ids its connections have logged in
  with, and the proof that serving requests with \<open>tracker_Process\<close> refines those steps.  Requests of
  several connections interleave in the order in which the reactor serves them.
\<close>

section \<open>The abstract tracker\<close>

definition peer_of_row :: "client_row \<Rightarrow> peer_file_info" where
  "peer_of_row r =
     \<lparr>pf_client = \<lparr>pe_clientid = cr_clientid r, pe_ip = cr_ip r, pe_messageport = cr_messageport r\<rparr>,
      pf_percentage = cr_percentage r\<rparr>"

text \<open>
  A list of peers that may be told to the client \<open>cid\<close> about a file: they are online owners of the
  file, neither \<open>cid\<close> nor known to it, no more than asked for and no more than there are, and there
  is one if there is such an owner (with progress, when the asker has none itself).
\<close>

definition tells :: "registry \<Rightarrow> string \<Rightarrow> query_peer \<Rightarrow> peer_file_info list \<Rightarrow> bool" where
  "tells R cid q info \<longleftrightarrow>
     (let offered = offers R (qp_fileid q) (qp_ownedclients q @ [cid]) in
      \<exists>rows. distinct rows \<and> (\<forall>r \<in> set rows. offered r) \<and> int (length rows) \<le> needcount q \<and>
        length info = length rows \<and> set info \<subseteq> peer_of_row ` set rows \<and>
        (rows = [] \<longrightarrow> needcount q = 0 \<or> (\<forall>r. offered r \<longrightarrow> qp_percentage q = 0 \<and> cr_percentage r \<le> 0)))"

definition bad_query :: "query_peer \<Rightarrow> bool" where
  "bad_query q \<longleftrightarrow> qp_fileid q = [] \<or> qp_percentage q < 0 \<or> qp_percentage q > 100 \<or> needcount q < 0"

definition login_ip :: "string outcome \<Rightarrow> login_msg \<Rightarrow> string outcome" where
  "login_ip peer l = (case lg_loginip l of Some ip \<Rightarrow> Ret ip | None \<Rightarrow> peer)"

definition code_msg :: "retcode \<Rightarrow> message" where
  "code_msg ret = MessageReplyMsg (code_reply ret)"

inductive reg_step ::
    "string outcome \<Rightarrow> string \<Rightarrow> message \<Rightarrow> string \<times> registry \<Rightarrow> message \<Rightarrow> string \<times> registry \<Rightarrow> bool"
  for peer now where
  login: "login_ip peer l = Ret ip \<Longrightarrow>
    reg_step peer now (LoginMsg l) (cid, R) (code_msg ERROR_OK)
      (lg_clientid l, reg_login (lg_clientid l) ip (messageport l) now R)"
| logout: "lo_clientid l = cid \<Longrightarrow>
    reg_step peer now (LogoutMsg l) (cid, R) (code_msg ERROR_OK) (cid, reg_logout cid R)"
| logout_other: "lo_clientid l \<noteq> cid \<Longrightarrow>
    reg_step peer now (LogoutMsg l) (cid, R) (code_msg ERROR_UNKNOWN) (cid, R)"
| report: "reg_step peer now (ReportProgressMsg m) (cid, R) (code_msg ERROR_OK)
    (cid, reg_own (rp_fileid m) (rp_clientid m) (rp_percentage m) R)"
| publish: "rg_owners R (pr_fileid m, pr_clientid m) = None \<Longrightarrow>
    reg_step peer now (PublishResourceMsg m) (cid, R) (code_msg ERROR_OK)
      (cid, reg_own (pr_fileid m) (pr_clientid m) 100 R)"
| publish_again: "rg_owners R (pr_fileid m, pr_clientid m) \<noteq> None \<Longrightarrow>
    reg_step peer now (PublishResourceMsg m) (cid, R) (code_msg ERROR_UNKNOWN) (cid, R)"
| query: "\<not> bad_query q \<Longrightarrow> tells R cid q info \<Longrightarrow>
    reg_step peer now (QueryPeerMsg q) (cid, R) (QueryPeerReplyMsg \<lparr>qr_returncode = Some 0,
      qr_fileid = Some (qp_fileid q), qr_count = Some (int (length info)), qr_info = info\<rparr>) (cid, R)"
| query_bad: "bad_query q \<Longrightarrow>
    reg_step peer now (QueryPeerMsg q) (cid, R) (QueryPeerReplyMsg \<lparr>qr_returncode = Some 1,
      qr_fileid = Some (qp_fileid q), qr_count = Some 0, qr_info = []\<rparr>) (cid, R)"

inductive_cases reg_step_QueryE: "reg_step peer now (QueryPeerMsg q) st reply st'"
inductive_cases reg_step_LoginE: "reg_step peer now (LoginMsg l) st reply st'"
inductive_cases reg_step_PublishE: "reg_step peer now (PublishResourceMsg m) st reply st'"

section \<open>Serving requests\<close>

text \<open>
  What happens to the tracker: a request on a connection, with the peer's address and the time;
  the \<open>err\<close> exit of a connection, whose log line needs the peer's address too; the shutdown of one,
  which does nothing to the database.
\<close>

datatype event =
    Request nat "string outcome" string netpack
  | Leave nat "string outcome"
  | Shutdown nat

type_synonym 'db tracker_state = "(nat \<Rightarrow> string) \<times> 'db"

fun serve_event ::
    "protobuf \<Rightarrow> 'db session \<Rightarrow> event \<Rightarrow> 'db tracker_state \<Rightarrow> netpack option outcome \<times> 'db tracker_state" where
  "serve_event pb S (Request i peer now req) (cids, db) =
     (let (out, (cid, db)) = tracker_Process pb S peer now req (cids i, db)
      in (map_outcome Some out, (cids(i := cid), db)))"
| "serve_event pb S (Leave i peer) (cids, db) =
     (case peer of
        Throw e \<Rightarrow> (Throw e, (cids, db))
      | Ret _ \<Rightarrow> let (out, db) = RemoveOnlineUser S (cids i) db in (map_outcome (\<lambda>_. None) out, (cids, db)))"
| "serve_event pb S (Shutdown i) (cids, db) = (Ret None, (cids, db))"

fun serve ::
    "protobuf \<Rightarrow> 'db session \<Rightarrow> event list \<Rightarrow> 'db tracker_state
      \<Rightarrow> netpack option outcome list \<times> 'db tracker_state" where
  "serve pb S [] st = ([], st)"
| "serve pb S (e # es) st =
     (let (out, st) = serve_event pb S e st; (outs, st) = serve pb S es st in (out # outs, st))"

text \<open>The request of an event, when its packet holds one that the tracker serves.\<close>

fun payload_of :: "message \<Rightarrow> int" where
  "payload_of (LoginMsg _) = PAYLOAD_LOGIN"
| "payload_of (LogoutMsg _) = PAYLOAD_LOGOUT"
| "payload_of (QueryPeerMsg _) = PAYLOAD_REQUEST_PEER"
| "payload_of (ReportProgressMsg _) = PAYLOAD_REPORT_PROGRESS"
| "payload_of (PublishResourceMsg _) = PAYLOAD_PUBLISH_RESOURCE"
| "payload_of _ = 0"

definition reply_pack :: "protobuf \<Rightarrow> message \<Rightarrow> netpack" where
  "reply_pack pb reply = netpack_of pb
     (case reply of QueryPeerReplyMsg _ \<Rightarrow> PAYLOAD_REQUEST_PEER_REPLAY | _ \<Rightarrow> PAYLOAD_MESSAGE_REPLY) reply"

inductive reg_run ::
    "protobuf \<Rightarrow> event list \<Rightarrow> (nat \<Rightarrow> string) \<times> registry \<Rightarrow> message option list \<Rightarrow> (nat \<Rightarrow> string) \<times> registry \<Rightarrow> bool"
  for pb where
  stop: "reg_run pb [] st [] st"
| request: "np_message pb req = Some msg \<Longrightarrow> reg_step peer now msg (cids i, R) reply (cid, R') \<Longrightarrow>
    reg_run pb es (cids(i := cid), R') replies st \<Longrightarrow>
    reg_run pb (Request i peer now req # es) (cids, R) (Some reply # replies) st"
| leave: "reg_run pb es (cids, reg_logout (cids i) R) replies st \<Longrightarrow>
    reg_run pb (Leave i peer # es) (cids, R) (None # replies) st"
| shutdown: "reg_run pb es (cids, R) replies st \<Longrightarrow> reg_run pb (Shutdown i # es) (cids, R) (None # replies) st"

inductive_cases reg_run_NilE: "reg_run pb [] st replies st'"
inductive_cases reg_run_RequestE: "reg_run pb (Request i peer now req # es) st replies st'"

text \<open>Requests whose keys and values the database holds as they are.\<close>

fun plain_message :: "string outcome \<Rightarrow> string \<Rightarrow> message \<Rightarrow> bool" where
  "plain_message peer now (LoginMsg l) \<longleftrightarrow> plain_id (lg_clientid l) \<and> length now \<le> 40 \<and> i32 (messageport l) \<and>
     (case login_ip peer l of Ret ip \<Rightarrow> length ip \<le> 20 | Throw _ \<Rightarrow> False)"
| "plain_message peer now (LogoutMsg l) \<longleftrightarrow> True"
| "plain_message peer now (QueryPeerMsg q) \<longleftrightarrow> plain_id (qp_fileid q) \<and> (\<forall>c \<in> set (qp_ownedclients q). plain_id c) \<and>
     i32 (needcount q)"
| "plain_message peer now (ReportProgressMsg m) \<longleftrightarrow> plain_id (rp_fileid m) \<and> plain_id (rp_clientid m) \<and> i32 (rp_percentage m)"
| "plain_message peer now (PublishResourceMsg m) \<longleftrightarrow> plain_id (pr_fileid m) \<and> plain_id (pr_clientid m)"
| "plain_message peer now _ \<longleftrightarrow> False"

fun plain_event :: "protobuf \<Rightarrow> event \<Rightarrow> bool" where
  "plain_event pb (Request i peer now req) \<longleftrightarrow>
     (\<exists>a. peer = Ret a) \<and>
     (case np_message pb req of None \<Rightarrow> False
      | Some msg \<Rightarrow> np_payloadType req = payload_of msg \<and> plain_message peer now msg)"
| "plain_event pb (Leave i peer) \<longleftrightarrow> (\<exists>a. peer = Ret a)"
| "plain_event pb (Shutdown i) \<longleftrightarrow> True"

section \<open>One request\<close>

lemma peer_of_found_found_of [simp]: "peer_of_found (found_of f r) = peer_of_row r"
  by (simp add: peer_of_found_def found_of_def peer_of_row_def)

lemma peer_of_found_comp [simp]: "peer_of_found \<circ> found_of f = peer_of_row"
  by (simp add: fun_eq_iff)

lemma answers_queryD:
  assumes "answers_query P n rows"
  shows "distinct rows" "length rows \<le> n" "r \<in> set rows \<Longrightarrow> P r" "rows = [] \<Longrightarrow> 0 < n \<Longrightarrow> \<not> P r"
  using assms by (auto simp: answers_query_def)

lemma tellsI:
  assumes "distinct rows" and "\<And>r. r \<in> set rows \<Longrightarrow> offers R (qp_fileid q) (qp_ownedclients q @ [cid]) r"
    and "int (length rows) \<le> needcount q" and "length shown = length rows" and "set shown \<subseteq> set rows"
    and "\<And>r. rows = [] \<Longrightarrow> needcount q \<noteq> 0 \<Longrightarrow> offers R (qp_fileid q) (qp_ownedclients q @ [cid]) r \<Longrightarrow>
      qp_percentage q = 0 \<and> cr_percentage r \<le> 0"
  shows "tells R cid q (map peer_of_row shown)"
  unfolding tells_def Let_def using assms by (intro exI [of _ rows]) auto

lemma RequestClients_tells:
  assumes laws: "mysql_laws S view" and stays: "cursor_stays S"
    and q: "plain_message peer now (QueryPeerMsg q)" "\<not> bad_query q" and cid: "plain_id cid"
  obtains found where "tracker_RequestClients S (qp_fileid q) (qp_percentage q) (needcount q)
      (qp_ownedclients q @ [cid]) db = Ret (ERROR_OK, found)"
    and "tells (view db) cid q (map peer_of_found found)" and "int (length found) \<le> needcount q"
proof -
  let ?f = "qp_fileid q" and ?p = "qp_percentage q" and ?n = "needcount q" and ?k = "qp_ownedclients q @ [cid]"
  have args: "\<not> (?f = [] \<or> ?p < 0 \<or> ?p > 100 \<or> ?n < 0)" using q(2) by (simp add: bad_query_def)
  have plain: "plain_id ?f" "\<forall>c \<in> set ?k. plain_id c" "i32 ?p" "?n < 2 ^ 31"
    using q cid args by (auto simp: i32_def)
  show ?thesis
  proof (cases "?n = 0")
    case True
    then have "tracker_RequestClients S ?f ?p ?n ?k db = Ret (ERROR_OK, [])"
      using args by (auto simp: tracker_RequestClients_def search_greater_percentage_def search_percentage_raw_def)
    with True show ?thesis by (intro that) (auto simp: tells_def Let_def intro: exI [of _ "[]"])
  next
    case False
    then have n: "0 < ?n" using args by simp
    obtain gt where gt: "search_greater_percentage S ?f ?p ?n ?k [] db = Ret (ERROR_OK, [] @ map (found_of ?f) (told gt))"
      "answers_query (\<lambda>r. offers (view db) ?f ?k r \<and> ?p < cr_percentage r) (nat ?n) gt"
      by (rule search_told [OF laws stays plain(1-3) n])
    show ?thesis
    proof (cases "int (length gt) < ?n \<and> ?p > 0")
      case False
      with gt args n have "tracker_RequestClients S ?f ?p ?n ?k db = Ret (ERROR_OK, map (found_of ?f) (told gt))"
        by (auto simp: tracker_RequestClients_def)
      moreover have "tells (view db) cid q (map peer_of_row (told gt))"
      proof (rule tellsI [of gt])
        show "int (length gt) \<le> ?n" using answers_queryD(2) [OF gt(2)] n by simp
        fix r assume "gt = []" "offers (view db) ?f ?k r"
        then show "?p = 0 \<and> cr_percentage r \<le> 0"
          using answers_queryD(4) [OF gt(2), of r] False n args by auto
      qed (use answers_queryD [OF gt(2)] set_told [of gt] in auto)
      moreover have "int (length (told gt)) \<le> ?n" using answers_queryD(2) [OF gt(2)] n by simp
      ultimately show ?thesis by (intro that) (assumption, simp_all)
    next
      case True
      let ?m = "?n - int (length gt)"
      have m: "0 < ?m" "to_i32 ?m = ?m" using True plain(4) by simp_all
      obtain le where le: "search_less_equal_percentage S ?f ?p ?m ?k (map (found_of ?f) (told gt)) db
          = Ret (ERROR_OK, map (found_of ?f) (told gt) @ map (found_of ?f) (told le))"
        "answers_query (\<lambda>r. offers (view db) ?f ?k r \<and> cr_percentage r \<le> ?p) (nat ?m) le"
        by (rule search_less_told [OF laws stays plain(1-3) m(1)])
      have "tracker_RequestClients S ?f ?p ?n ?k db = Ret (ERROR_OK, map (found_of ?f) (told gt @ told le))"
        using gt le(1) args True m(2) by (simp add: tracker_RequestClients_def)
      moreover have "tells (view db) cid q (map peer_of_row (told gt @ told le))"
      proof (rule tellsI [of "gt @ le"])
        show "int (length (gt @ le)) \<le> ?n" using answers_queryD(2) [OF le(2)] m by simp
        show "distinct (gt @ le)"
          using answers_queryD(1,3) [OF gt(2)] answers_queryD(1,3) [OF le(2)] by fastforce
        fix r assume "gt @ le = []" "offers (view db) ?f ?k r"
        then show "?p = 0 \<and> cr_percentage r \<le> 0"
          using answers_queryD(4) [OF gt(2), of r] answers_queryD(4) [OF le(2), of r] n m by auto
      qed (use answers_queryD(3) [OF gt(2)] answers_queryD(3) [OF le(2)] set_told [of gt] set_told [of le] in auto)
      moreover have "int (length (told gt @ told le)) \<le> ?n" using answers_queryD(2) [OF le(2)] m by simp
      ultimately show ?thesis by (intro that) (assumption, simp_all)
    qed
  qed
qed


lemma process_message:
  assumes "np_message pb req = Some msg" and "np_payloadType req = payload_of msg"
    and "message_handler S peer now (payload_of msg) (Some msg) st = (ret, mr, st')" and "escapes peer ret = None"
    and "payload_of msg \<noteq> PAYLOAD_REQUEST_PEER"
  shows "tracker_Process pb S peer now req st = (Ret (reply_pack pb (MessageReplyMsg mr)), st')"
  using assms by (simp add: tracker_Process_def Let_def set_message_eq reply_pack_def)

lemma process_query:
  assumes "np_message pb req = Some (QueryPeerMsg q)" and "np_payloadType req = PAYLOAD_REQUEST_PEER"
    and "HandleRequestPeer S peer (Some (QueryPeerMsg q))
      (empty_query_peer_reply\<lparr>qr_returncode := Some (retcode_value ERROR_UNKNOWN)\<rparr>) st = (Ret ret, qpr)"
  shows "tracker_Process pb S peer now req st = (Ret (reply_pack pb (QueryPeerReplyMsg qpr)), st)"
  using assms by (simp add: tracker_Process_def Let_def set_message_eq reply_pack_def)

lemmas handler_defs =
  message_handler_def HandleLogin_def HandleLogOut_def HandleReportProgress_def HandlePublishResource_def
  answer_code_def log_failed_def AddOnlineUser_def RemoveOnlineUser_def tracker_ReportProgress_def PublishResource_def
  payload_defs

text \<open>One request of a plain message does one step of the abstract tracker and answers with its reply.\<close>

lemma process_refines:
  assumes laws: "mysql_laws S view" and stays: "cursor_stays S" and cid: "plain_id cid"
    and req: "np_message pb req = Some msg" "np_payloadType req = payload_of msg" "plain_message peer now msg"
    and peer: "peer = Ret a"
  obtains reply cid' db' where "tracker_Process pb S peer now req (cid, db) = (Ret (reply_pack pb reply), (cid', db'))"
    and "reg_step peer now msg (cid, view db) reply (cid', view db')" and "plain_id cid'"
proof -
  note finish = that
  show ?thesis
  proof (cases msg)
    case (LoginMsg l)
    with req(3) obtain ip where ip: "login_ip peer l = Ret ip" "length ip \<le> 20"
      by (auto split: outcome.splits)
    obtain db' where "insert_or_update_login_info S (lg_clientid l) ip (messageport l) now db = (Ret ERROR_OK, db')"
      and v: "view db' = reg_login (lg_clientid l) ip (messageport l) now (view db)"
      by (rule login_registers [OF laws]) (use req(3) LoginMsg ip in auto)
    then have "message_handler S peer now (payload_of msg) (Some msg) (cid, db) =
        (Ret ERROR_OK, code_reply ERROR_OK, (lg_clientid l, db'))"
      using ip by (simp add: LoginMsg handler_defs login_ip_def split: option.splits)
    from process_message [OF req(1,2) this] show ?thesis
      by (rule finish) (use req(3) reg_step.login [OF ip(1)] v LoginMsg in \<open>auto simp: code_msg_def payload_defs\<close>)
  next
    case (LogoutMsg l)
    show ?thesis
    proof (cases "lo_clientid l = cid")
      case True
      obtain db' where "update_logout_info S cid 0 0 db = (Ret ERROR_OK, db')"
        and v: "view db' = reg_logout cid (view db)" by (rule logout_registers [OF laws cid])
      then have "message_handler S peer now (payload_of msg) (Some msg) (cid, db) =
          (Ret ERROR_OK, code_reply ERROR_OK, (cid, db'))"
        using True by (simp add: LogoutMsg handler_defs)
      from process_message [OF req(1,2) this] show ?thesis
        by (rule finish) (use True cid v reg_step.logout in \<open>auto simp: LogoutMsg code_msg_def payload_defs\<close>)
    next
      case False
      then have "message_handler S peer now (payload_of msg) (Some msg) (cid, db) =
          (Ret ERROR_UNKNOWN, code_reply ERROR_UNKNOWN, (cid, db))"
        by (simp add: LogoutMsg handler_defs peer)
      from process_message [OF req(1,2) this] show ?thesis
        by (rule finish) (use False cid reg_step.logout_other in \<open>auto simp: LogoutMsg code_msg_def payload_defs\<close>)
    qed
  next
    case (ReportProgressMsg m)
    obtain db' where "update_file_owner_info S \<lparr>oi_clientid = rp_clientid m, oi_fileid = rp_fileid m,
        oi_percentage = rp_percentage m\<rparr> db = (Ret ERROR_OK, db')"
      and v: "view db' = reg_own (rp_fileid m) (rp_clientid m) (rp_percentage m) (view db)"
      by (rule report_registers [OF laws, of "rp_fileid m" "rp_clientid m" "rp_percentage m" db])
        (use req(3) ReportProgressMsg in auto)
    then have "message_handler S peer now (payload_of msg) (Some msg) (cid, db) =
        (Ret ERROR_OK, code_reply ERROR_OK, (cid, db'))"
      by (simp add: ReportProgressMsg handler_defs)
    from process_message [OF req(1,2) this] show ?thesis
      by (rule finish) (use cid v reg_step.report in \<open>auto simp: ReportProgressMsg code_msg_def payload_defs\<close>)
  next
    case (PublishResourceMsg m)
    have plain: "plain_id (pr_fileid m)" "plain_id (pr_clientid m)" "i32 100"
      using req(3) PublishResourceMsg by (simp_all add: i32_def)
    show ?thesis
    proof (cases "rg_owners (view db) (pr_fileid m, pr_clientid m) = None")
      case True
      obtain db' where "insert_file_owner_info S \<lparr>oi_clientid = pr_clientid m, oi_fileid = pr_fileid m,
          oi_percentage = 100\<rparr> db = (Ret ERROR_OK, db')"
        and v: "view db' = reg_own (pr_fileid m) (pr_clientid m) 100 (view db)"
        by (rule publish_registers [OF laws plain True])
      then have "message_handler S peer now (payload_of msg) (Some msg) (cid, db) =
          (Ret ERROR_OK, code_reply ERROR_OK, (cid, db'))"
        by (simp add: PublishResourceMsg handler_defs)
      from process_message [OF req(1,2) this] show ?thesis
        by (rule finish) (use True cid v reg_step.publish in \<open>auto simp: PublishResourceMsg code_msg_def payload_defs\<close>)
    next
      case False
      from publish_duplicate [OF laws plain False]
      have "message_handler S peer now (payload_of msg) (Some msg) (cid, db) =
          (Throw DataException, code_reply ERROR_UNKNOWN, (cid, db))"
        by (simp add: PublishResourceMsg handler_defs)
      from process_message [OF req(1,2) this] show ?thesis
        by (rule finish) (use False cid reg_step.publish_again peer in \<open>auto simp: PublishResourceMsg code_msg_def payload_defs\<close>)
    qed
  next
    case (QueryPeerMsg q)
    show ?thesis
    proof (cases "bad_query q")
      case True
      then have "tracker_RequestClients S (qp_fileid q) (qp_percentage q) (needcount q) (qp_ownedclients q @ [cid]) db
          = Ret (ERROR_UNKNOWN, [])" by (simp add: tracker_RequestClients_def bad_query_def)
      then have "HandleRequestPeer S peer (Some (QueryPeerMsg q))
          (empty_query_peer_reply\<lparr>qr_returncode := Some (retcode_value ERROR_UNKNOWN)\<rparr>) (cid, db) =
          (Ret ERROR_UNKNOWN, \<lparr>qr_returncode = Some 1, qr_fileid = Some (qp_fileid q), qr_count = Some 0, qr_info = []\<rparr>)"
        by (simp add: HandleRequestPeer_def Let_def empty_query_peer_reply_def log_failed_def peer)
      from process_query [OF req(1) [unfolded QueryPeerMsg] _ this] show ?thesis
        by (rule finish) (use True cid req(2) reg_step.query_bad in \<open>auto simp: QueryPeerMsg\<close>)
    next
      case False
      obtain found where "tracker_RequestClients S (qp_fileid q) (qp_percentage q) (needcount q)
          (qp_ownedclients q @ [cid]) db = Ret (ERROR_OK, found)"
        and told: "tells (view db) cid q (map peer_of_found found)" and len: "int (length found) \<le> needcount q"
        by (rule RequestClients_tells [OF laws stays req(3) [unfolded QueryPeerMsg] False cid])
      moreover have "to_i32 (int (length found)) = int (length found)"
        using len req(3) QueryPeerMsg by (simp add: i32_def)
      ultimately have "HandleRequestPeer S peer (Some (QueryPeerMsg q))
          (empty_query_peer_reply\<lparr>qr_returncode := Some (retcode_value ERROR_UNKNOWN)\<rparr>) (cid, db) =
          (Ret ERROR_OK, \<lparr>qr_returncode = Some 0, qr_fileid = Some (qp_fileid q),
             qr_count = Some (int (length found)), qr_info = map peer_of_found found\<rparr>)"
        by (simp add: HandleRequestPeer_def Let_def empty_query_peer_reply_def)
      from process_query [OF req(1) [unfolded QueryPeerMsg] _ this] show ?thesis
        by (rule finish) (use cid req(2) reg_step.query [OF False told] in \<open>auto simp: QueryPeerMsg\<close>)
    qed
  qed (use req(3) in auto)
qed


section \<open>A request over the socket\<close>

lemma receive_pack_waiting:
  assumes "request_waiting pb t msg (th_sock th)"
  obtains s' where "on_handler_sock (receive_pack pb junk new_netpack) th =
      (Ret (ERROR_OK, netpack_of pb t msg), th\<lparr>th_sock := s'\<rparr>)"
    and "tx s' = tx (th_sock th)" and "tx_ev s' = tx_ev (th_sock th)"
    and "np_message pb (netpack_of pb t msg) = Some msg"
proof -
  obtain s' where "receiveFrom pb junk new_netpack (th_sock th) = (Ret ERROR_OK, (netpack_of pb t msg, s'))"
    "tx s' = tx (th_sock th)" "tx_ev s' = tx_ev (th_sock th)" "np_message pb (netpack_of pb t msg) = Some msg"
    by (rule receive_waiting [OF assms])
  then show ?thesis by (intro that [of s']) (simp_all add: on_handler_sock_def receive_pack_def)
qed

lemma onReadable_serves:
  assumes "request_waiting pb t msg (th_sock th)" and "tx_ev (th_sock th) = []"
    and proc: "tracker_Process pb S peer now (netpack_of pb t msg) (th_clientid th, th_db th) = (Ret out, (cid, db))"
    and "header_codec pb (np_header out)"
  obtains s' where "tracker_onReadable pb junk S peer now th =
      log_peer peer (th\<lparr>th_clientid := cid, th_db := db, th_sock := s'\<rparr>)"
    and "tx s' = tx (th_sock th) @ frame pb out"
proof -
  obtain s1 where recv: "on_handler_sock (receive_pack pb junk new_netpack) th =
      (Ret (ERROR_OK, netpack_of pb t msg), th\<lparr>th_sock := s1\<rparr>)"
    and s1: "tx s1 = tx (th_sock th)" "tx_ev s1 = tx_ev (th_sock th)"
    by (rule receive_pack_waiting [OF assms(1)])
  let ?th = "th\<lparr>th_sock := s1, th_clientid := cid, th_db := db\<rparr>"
  have "on_conn_state (tracker_Process pb S peer now (netpack_of pb t msg)) (th\<lparr>th_sock := s1\<rparr>) = (Ret out, ?th)"
    using proc by (simp add: on_conn_state_def)
  moreover have "on_handler_sock (sendBy pb out) ?th = (Ret ERROR_OK, ?th\<lparr>th_sock := s1\<lparr>tx := tx s1 @ frame pb out\<rparr>\<rparr>)"
    using sendBy_frame [OF assms(4), of s1] s1 assms(2) by (simp add: on_handler_sock_def)
  ultimately have "tracker_onReadable pb junk S peer now th =
      log_peer peer (?th\<lparr>th_sock := s1\<lparr>tx := tx s1 @ frame pb out\<rparr>\<rparr>)"
    using recv by (cases peer) (simp_all add: tracker_onReadable_def log_peer_def)
  then show ?thesis by (intro that [of "s1\<lparr>tx := tx s1 @ frame pb out\<rparr>"]) (cases th, simp_all add: s1(1))
qed

text \<open>A message that protobuf carries whole in a packet of a type.\<close>

definition carries :: "protobuf \<Rightarrow> message \<Rightarrow> bool" where
  "carries pb reply \<longleftrightarrow>
     (let p = reply_pack pb reply in
        header_codec pb (np_header p) \<and> header_fits pb (np_header p) \<and> np_wf p \<and> np_message pb p = Some reply)"

lemma reply_waiting_carries:
  assumes "carries (ap_pb ap) reply" and "header_codec (ap_pb ap) (np_header (netpack_of (ap_pb ap) t req))"
    and "\<not> cn_lost cn" "tx_ev (cn_sock cn) = []" "rx_ev (cn_sock cn) = []"
    and "rx (cn_sock cn) = frame (ap_pb ap) (reply_pack (ap_pb ap) reply) @ behind"
  shows "reply_waiting ap req t
    (case reply of QueryPeerReplyMsg _ \<Rightarrow> PAYLOAD_REQUEST_PEER_REPLAY | _ \<Rightarrow> PAYLOAD_MESSAGE_REPLY) reply cn"
  using assms unfolding carries_def reply_waiting_def Let_def reply_pack_def by blast

section \<open>Properties\<close>

lemma serve_refines:
  assumes "mysql_laws S view" and "cursor_stays S"
    and "\<forall>e \<in> set es. plain_event pb e" and "\<forall>i. plain_id (cids i)"
    and "serve pb S es (cids, db) = (outs, (cids', db'))"
  shows "\<exists>replies. reg_run pb es (cids, view db) replies (cids', view db') \<and>
    outs = map (\<lambda>r. Ret (map_option (reply_pack pb) r)) replies"
  using assms(3-5)
proof (induction es arbitrary: cids db outs)
  case Nil
  then show ?case by (auto intro: reg_run.stop)
next
  case (Cons e es)
  show ?case
  proof (cases e)
    case (Request i peer now req)
    then obtain msg where msg: "np_message pb req = Some msg" "np_payloadType req = payload_of msg"
        "plain_message peer now msg" and peer: "\<exists>a. peer = Ret a"
      using Cons.prems(1) by (auto split: option.splits)
    from peer obtain a where a: "peer = Ret a" by blast
    obtain reply cid1 db1 where step: "tracker_Process pb S peer now req (cids i, db) = (Ret (reply_pack pb reply), (cid1, db1))"
      "reg_step peer now msg (cids i, view db) reply (cid1, view db1)" "plain_id cid1"
      by (rule process_refines [OF assms(1,2) _ msg a]) (use Cons.prems(2) in auto)
    obtain outs1 where rest: "serve pb S es (cids(i := cid1), db1) = (outs1, (cids', db'))"
      and outs: "outs = Ret (Some (reply_pack pb reply)) # outs1"
      using Cons.prems(3) step(1) Request by (auto split: prod.splits)
    have "\<forall>e \<in> set es. plain_event pb e" "\<forall>k. plain_id ((cids(i := cid1)) k)"
      using Cons.prems(1,2) step(3) by simp_all
    from Cons.IH [OF this rest] obtain replies where
      "reg_run pb es (cids(i := cid1), view db1) replies (cids', view db')"
      "outs1 = map (\<lambda>r. Ret (map_option (reply_pack pb) r)) replies" by blast
    with reg_run.request [where cids = cids and i = i and peer = peer and now = now, OF msg(1) step(2)]
      outs Request show ?thesis
      by (intro exI [of _ "Some reply # replies"]) simp
  next
    case (Leave i peer)
    obtain db1 where db1: "update_logout_info S (cids i) 0 0 db = (Ret ERROR_OK, db1)"
      "view db1 = reg_logout (cids i) (view db)"
      by (rule logout_registers [OF assms(1), of "cids i" db]) (use Cons.prems(2) in auto)
    obtain outs1 where "serve pb S es (cids, db1) = (outs1, (cids', db'))" and outs: "outs = Ret None # outs1"
      using Cons.prems(1,3) db1(1) Leave by (auto simp: RemoveOnlineUser_def split: prod.splits)
    with Cons.IH [of cids db1 outs1] Cons.prems(1,2) db1(2) obtain replies where
      "reg_run pb es (cids, reg_logout (cids i) (view db)) replies (cids', view db')"
      "outs1 = map (\<lambda>r. Ret (map_option (reply_pack pb) r)) replies" by auto
    with reg_run.leave outs Leave show ?thesis by (intro exI [of _ "None # replies"]) simp
  next
    case (Shutdown i)
    obtain outs1 where "serve pb S es (cids, db) = (outs1, (cids', db'))" and outs: "outs = Ret None # outs1"
      using Cons.prems(3) Shutdown by (auto split: prod.splits)
    with Cons.IH [of cids db outs1] Cons.prems(1,2) obtain replies where
      "reg_run pb es (cids, view db) replies (cids', view db')"
      "outs1 = map (\<lambda>r. Ret (map_option (reply_pack pb) r)) replies" by auto
    with reg_run.shutdown outs Shutdown show ?thesis by (intro exI [of _ "None # replies"]) simp
  qed
qed

text \<open>
  C7: the tracker refines its registry.  Whatever requests, lost connections and shutdowns happen, in
  any order and on any number of connections, as long as the peers can be named in the log, every one of them is a step of the abstract tracker: the
  database holds what the registry holds afterwards, and every answer is the registry's answer.
\<close>

theorem tracker_refines_registry:
  assumes "mysql_laws S view" and "cursor_stays S"
    and "\<forall>e \<in> set es. plain_event pb e" and "\<forall>i. plain_id (cids i)"
    and "serve pb S es (cids, db) = (outs, (cids', db'))"
  shows "\<exists>replies. reg_run pb es (cids, view db) replies (cids', view db') \<and>
    outs = map (\<lambda>r. Ret (map_option (reply_pack pb) r)) replies"
  by (rule serve_refines [OF assms])



lemma answer_code_reply:
  "answer_code cid r = (ret, reply, st) \<Longrightarrow> reply = code_reply ERROR_OK \<or> reply = code_reply ERROR_UNKNOWN"
  by (auto simp: answer_code_def split: prod.splits outcome.splits if_splits)

lemma message_handler_reply:
  "message_handler S peer now t msg st = (ret, reply, st') \<Longrightarrow>
     reply = code_reply ERROR_OK \<or> reply = code_reply ERROR_UNKNOWN"
  unfolding message_handler_def HandleLogin_def HandleLogOut_def HandleReportProgress_def HandlePublishResource_def
  by (auto split: option.splits outcome.splits prod.splits if_splits dest: answer_code_reply)


text \<open>
  C30: the search loses the first owner it finds: the loop over the record set moves on before it reads.
  Of two or more rows the first is never told and the last is told twice.
\<close>

theorem first_owner_never_told:
  assumes "cursor_stays S" and "0 < n" and "type = GREATER \<or> type = LESS_EQUAL"
    and "ss_select S (select_sql (if type = GREATER then ''>'' else ''<='') f p known) (Some (nat n)) db = Ret (r # rows)"
    and "rows \<noteq> []" and "distinct (r # rows)"
  shows "search_percentage_raw S type f p n known c db =
      Ret (ERROR_OK, c @ map (found_of f) rows @ [found_of f (last rows)]) \<and>
    found_of f r \<notin> set (map (found_of f) (rows @ [last rows]))"
proof -
  have "found_of f x = found_of f y \<Longrightarrow> x = y" for x y
    by (cases x; cases y) (simp add: found_of_def)
  then have "found_of f r \<notin> set (map (found_of f) (rows @ [last rows]))" using assms(5,6) by auto
  moreover have "search_percentage_raw S type f p n known c db =
      Ret (ERROR_OK, c @ map (found_of f) rows @ [found_of f (last rows)])"
    using assms(2-5) read_rows_told [OF assms(1), of "r # rows"]
    by (auto simp: search_percentage_raw_def rows_found_def told_def)
  ultimately show ?thesis by blast
qed

text \<open>
  C32: a file can be published once: when the client has been registered for the file already, by an
  earlier publication or by a progress report, the insertion throws; the tracker catches it, changes
  nothing and answers \<open>ERROR_UNKNOWN\<close> - and the client that gets this answer reports success.
\<close>

theorem second_publication_refused:
  assumes "mysql_laws S view" and "plain_id (ap_clientid ap)" and "plain_id fileid"
    and "rg_owners (view (th_db th)) (fileid, ap_clientid ap) \<noteq> None"
    and "req = PublishResourceMsg \<lparr>pr_clientid = ap_clientid ap, pr_fileid = fileid\<rparr>"
    and "request_waiting (ap_pb ap) PAYLOAD_PUBLISH_RESOURCE req (th_sock th)" and "tx_ev (th_sock th) = []"
    and "carries (ap_pb ap) (code_msg ERROR_UNKNOWN)"
    and "th' = snd (tracker_onReadable (ap_pb ap) junk S (Ret peer) now th)"
    and "get_tracker_sock addr m = Some h" and "h < length (lm_socks m)" and "\<not> cn_lost (lm_socks m ! h)"
    and "tx_ev (cn_sock (lm_socks m ! h)) = []" and "rx_ev (cn_sock (lm_socks m ! h)) = []"
    and "rx (cn_sock (lm_socks m ! h)) = drop (length (tx (th_sock th))) (tx (th_sock th')) @ behind"
  shows "th_db th' = th_db th \<and> tx (th_sock th') = tx (th_sock th) @ frame (ap_pb ap) (reply_pack (ap_pb ap) (code_msg ERROR_UNKNOWN)) \<and>
    fst (PublishResourceToTracker ap addr fileid m) = Ret ERROR_OK"
proof -
  let ?pb = "ap_pb ap" and ?pack = "reply_pack (ap_pb ap) (code_msg ERROR_UNKNOWN)"
  have msg: "np_message ?pb (netpack_of ?pb PAYLOAD_PUBLISH_RESOURCE req) = Some req"
    and reqcodec: "header_codec ?pb (np_header (netpack_of ?pb PAYLOAD_PUBLISH_RESOURCE req))"
    using assms(6) by (simp_all add: request_waiting_def Let_def)
  have "i32 100" by (simp add: i32_def)
  from publish_duplicate [OF assms(1,3,2) this assms(4)]
  have "message_handler S (Ret peer) now (payload_of req) (Some req) (th_clientid th, th_db th) =
      (Throw DataException, code_reply ERROR_UNKNOWN, (th_clientid th, th_db th))"
    by (simp add: assms(5) handler_defs)
  from process_message [OF msg _ this] have
    "tracker_Process ?pb S (Ret peer) now (netpack_of ?pb PAYLOAD_PUBLISH_RESOURCE req) (th_clientid th, th_db th) =
      (Ret ?pack, (th_clientid th, th_db th))"
    by (simp add: assms(5) code_msg_def payload_defs)
  moreover have codec: "header_codec ?pb (np_header ?pack)" using assms(8) by (simp add: carries_def Let_def)
  ultimately obtain s' where run: "tracker_onReadable ?pb junk S (Ret peer) now th =
      log_peer (Ret peer) (th\<lparr>th_clientid := th_clientid th, th_db := th_db th, th_sock := s'\<rparr>)"
    and tx: "tx s' = tx (th_sock th) @ frame ?pb ?pack"
    by (rule onReadable_serves [OF assms(6,7)])
  with assms(9) have th': "th_db th' = th_db th" "tx (th_sock th') = tx (th_sock th) @ frame ?pb ?pack" by (simp_all add: log_peer_def)
  with assms(15) have "rx (cn_sock (lm_socks m ! h)) = frame ?pb ?pack @ behind" by simp
  from reply_waiting_carries [OF assms(8) reqcodec assms(12-14) this]
  have "reply_waiting ap req PAYLOAD_PUBLISH_RESOURCE PAYLOAD_MESSAGE_REPLY
      (MessageReplyMsg \<lparr>mr_returncode = Some 1\<rparr>) (lm_socks m ! h)"
    by (simp add: code_msg_def code_reply_def)
  from tracker_verdict_ignored [OF assms(10,11) this [unfolded assms(5)]] th' show ?thesis by simp
qed

text \<open>
  C31: a client whose connection breaks stays online.  When a read brings no packet, its user is taken
  offline and the handler leaves the reactor only if the read reports an error code and the peer's
  address can still be read.  If the read throws, as it does for a connection that was reset, or if
  the log line about the error throws for want of a peer, then \<open>onReadable\<close> is left with the exception:
  the database still has the user online, and the handler stays where it is.
\<close>

theorem broken_connection_stays_online:
  assumes "mysql_laws S view" and "plain_id (th_clientid th)"
    and "on_handler_sock (receive_pack pb junk new_netpack) th = (r, th1)" and "\<forall>p. r \<noteq> Ret (ERROR_OK, p)"
    and "tracker_onReadable pb junk S peer now th = (q, th')"
  shows "if (\<exists>ret p. r = Ret (ret, p)) \<and> (\<exists>a. peer = Ret a)
    then q = Ret () \<and> view (th_db th') = reg_logout (th_clientid th) (view (th_db th)) \<and>
      th_deleted th' \<and> \<not> th_registered th'
    else (\<exists>e. q = Throw e) \<and> th_db th' = th_db th \<and>
      th_deleted th' = th_deleted th \<and> th_registered th' = th_registered th"
proof -
  have th1: "th_clientid th1 = th_clientid th" "th_db th1 = th_db th" "th_deleted th1 = th_deleted th"
    "th_registered th1 = th_registered th"
    using assms(3) by (auto simp: on_handler_sock_def split: prod.splits)
  obtain db' where "update_logout_info S (th_clientid th1) 0 0 (th_db th1) = (Ret ERROR_OK, db')"
    and v: "view db' = reg_logout (th_clientid th1) (view (th_db th1))"
    by (rule logout_registers [OF assms(1), of "th_clientid th1" "th_db th1"]) (use assms(2) th1 in simp)
  then have err: "handler_err S (Ret a) th1 =
      (Ret (), th1\<lparr>th_db := db', th_deleted := True, th_registered := False\<rparr>)" for a
    by (simp add: handler_err_def on_conn_state_def RemoveOnlineUser_def delete_tracker_handler_def log_peer_def)
  show ?thesis
  proof (cases r)
    case (Throw e)
    with assms(3,5) th1 show ?thesis by (auto simp: tracker_onReadable_def)
  next
    case (Ret x)
    then obtain ret p where x: "r = Ret (ret, p)" "ret \<noteq> ERROR_OK" using assms(4) by (cases x) auto
    show ?thesis
    proof (cases peer)
      case (Ret a)
      with assms(3,5) x err th1 v show ?thesis by (auto simp: tracker_onReadable_def log_peer_def)
    next
      case (Throw e)
      with assms(3,5) x th1 show ?thesis by (auto simp: tracker_onReadable_def log_peer_def)
    qed
  qed
qed

text \<open>
  C11: a client's \<open>RequestClients\<close> and the tracker's handler together: the owners the client gets are
  those the tracker may tell it.  They are online, have the file, and are neither the client nor known to
  it; there are no more than it asked for, and at least one if there is one with progress to offer.
\<close>

theorem client_learns_owners:
  assumes "mysql_laws S view" and "cursor_stays S" and "plain_id (th_clientid th)"
    and "q = \<lparr>qp_fileid = fileid, qp_percentage = pct, qp_needcount = Some n, qp_ownedclients = known\<rparr>"
    and "plain_message peer now (QueryPeerMsg q)" and "fileid \<noteq> []" "0 \<le> pct" "pct \<le> 100" "0 < n"
    and "request_waiting (ap_pb ap) PAYLOAD_REQUEST_PEER (QueryPeerMsg q) (th_sock th)" and "tx_ev (th_sock th) = []"
    and "carries (ap_pb ap) (QueryPeerReplyMsg (snd (HandleRequestPeer S peer (Some (QueryPeerMsg q))
      (empty_query_peer_reply\<lparr>qr_returncode := Some (retcode_value ERROR_UNKNOWN)\<rparr>) (th_clientid th, th_db th))))"
    and "th' = snd (tracker_onReadable (ap_pb ap) junk S peer now th)"
    and "get_tracker_sock addr m = Some h" and "h < length (lm_socks m)" and "\<not> cn_lost (lm_socks m ! h)"
    and "tx_ev (cn_sock (lm_socks m ! h)) = []" and "rx_ev (cn_sock (lm_socks m ! h)) = []"
    and "rx (cn_sock (lm_socks m ! h)) = drop (length (tx (th_sock th))) (tx (th_sock th')) @ behind"
  shows "\<exists>info. fst (RequestClients ap addr fileid pct n known m) = Ret (ERROR_OK, map owner_of_peer info) \<and>
    tells (view (th_db th)) (th_clientid th) q info \<and> th_db th' = th_db th"
proof -
  let ?pb = "ap_pb ap" and ?st = "(th_clientid th, th_db th)"
  let ?out0 = "empty_query_peer_reply\<lparr>qr_returncode := Some (retcode_value ERROR_UNKNOWN)\<rparr>"
  have msg: "np_message ?pb (netpack_of ?pb PAYLOAD_REQUEST_PEER (QueryPeerMsg q)) = Some (QueryPeerMsg q)"
    and reqcodec: "header_codec ?pb (np_header (netpack_of ?pb PAYLOAD_REQUEST_PEER (QueryPeerMsg q)))"
    using assms(10) by (simp_all add: request_waiting_def Let_def)
  have "\<not> bad_query q" using assms(4,6-9) by (simp add: bad_query_def needcount_def)
  then obtain found where found: "tracker_RequestClients S (qp_fileid q) (qp_percentage q) (needcount q)
      (qp_ownedclients q @ [th_clientid th]) (th_db th) = Ret (ERROR_OK, found)"
    and told: "tells (view (th_db th)) (th_clientid th) q (map peer_of_found found)"
    by (rule RequestClients_tells [OF assms(1,2,5) _ assms(3)])
  obtain qpr where h: "HandleRequestPeer S peer (Some (QueryPeerMsg q)) ?out0 ?st = (Ret ERROR_OK, qpr)"
    and qpr: "qr_returncode qpr = Some 0" "qr_info qpr = map peer_of_found found"
    using found by (simp add: HandleRequestPeer_def Let_def empty_query_peer_reply_def)
  let ?pack = "reply_pack ?pb (QueryPeerReplyMsg qpr)"
  have carries: "carries ?pb (QueryPeerReplyMsg qpr)" using assms(12) h by simp
  have "tracker_Process ?pb S peer now (netpack_of ?pb PAYLOAD_REQUEST_PEER (QueryPeerMsg q)) ?st = (Ret ?pack, ?st)"
    by (rule process_query [OF msg _ h]) simp
  moreover have "header_codec ?pb (np_header ?pack)" using carries by (simp add: carries_def Let_def)
  ultimately obtain s' where run: "tracker_onReadable ?pb junk S peer now th =
      log_peer peer (th\<lparr>th_clientid := th_clientid th, th_db := th_db th, th_sock := s'\<rparr>)"
    and tx: "tx s' = tx (th_sock th) @ frame ?pb ?pack"
    by (rule onReadable_serves [OF assms(10,11)])
  with assms(13) have th': "th_db th' = th_db th" "tx (th_sock th') = tx (th_sock th) @ frame ?pb ?pack" by (simp_all add: log_peer_def)
  with assms(19) have "rx (cn_sock (lm_socks m ! h)) = frame ?pb ?pack @ behind" by simp
  from reply_waiting_carries [OF carries reqcodec assms(16-18) this]
  have "reply_waiting ap (QueryPeerMsg q) PAYLOAD_REQUEST_PEER PAYLOAD_REQUEST_PEER_REPLAY
      (QueryPeerReplyMsg qpr) (lm_socks m ! h)" by simp
  from RequestClients_by_reply [OF assms(14,15,7,9) this [unfolded assms(4)]] qpr th' told show ?thesis
    by (intro exI [of _ "map peer_of_found found"]) simp
qed


section \<open>Witnesses\<close>

definition demo_login :: login_msg where
  "demo_login = \<lparr>lg_clientid = ''a1'', lg_loginip = None, lg_messageport = None\<rparr>"

definition demo_publish :: publish_resource_msg where
  "demo_publish = \<lparr>pr_clientid = ''a1'', pr_fileid = ''f0''\<rparr>"

definition demo_query :: query_peer where
  "demo_query = \<lparr>qp_fileid = ''f0'', qp_percentage = 0, qp_needcount = Some 5, qp_ownedclients = []\<rparr>"

definition demo_peers :: query_peer_reply where
  "demo_peers = \<lparr>qr_returncode = Some 0, qr_fileid = Some ''f0'', qr_count = Some 1,
     qr_info = [\<lparr>pf_client = \<lparr>pe_clientid = ''a1'', pe_ip = ''1.2.3.4'', pe_messageport = 9025\<rparr>,
       pf_percentage = 100\<rparr>]\<rparr>"

definition tracker_pb :: protobuf where
  "tracker_pb = sample_pb [LoginMsg demo_login, PublishResourceMsg demo_publish, QueryPeerMsg demo_query,
     QueryPeerReplyMsg demo_peers, code_msg ERROR_UNKNOWN]"

lemmas demo_msgs = demo_login_def demo_publish_def demo_query_def demo_peers_def code_msg_def code_reply_def

lemma demo_messages:
  "np_message tracker_pb (netpack_of tracker_pb t (LoginMsg demo_login)) = Some (LoginMsg demo_login)"
  "np_message tracker_pb (netpack_of tracker_pb t (PublishResourceMsg demo_publish)) = Some (PublishResourceMsg demo_publish)"
  "np_message tracker_pb (netpack_of tracker_pb t (QueryPeerMsg demo_query)) = Some (QueryPeerMsg demo_query)"
  by (simp_all add: np_message_def tracker_pb_def sample_pb_def code_msg_def)

definition no_tables :: tables where
  "no_tables = \<lparr>tb_clients = [], tb_owners = []\<rparr>"

definition demo_packets :: "netpack list" where
  "demo_packets = [netpack_of tracker_pb PAYLOAD_LOGIN (LoginMsg demo_login),
     netpack_of tracker_pb PAYLOAD_PUBLISH_RESOURCE (PublishResourceMsg demo_publish),
     netpack_of tracker_pb PAYLOAD_REQUEST_PEER (QueryPeerMsg demo_query)]"

definition demo_events :: "event list" where
  "demo_events = [Request 0 (Ret ''1.2.3.4'') ''now'' (demo_packets ! 0),
     Request 0 (Ret ''1.2.3.4'') ''now'' (demo_packets ! 1), Request 1 (Ret ''1.2.3.4'') ''now'' (demo_packets ! 2)]"

lemma demo_packets_nth [simp]:
  "demo_packets ! 0 = netpack_of tracker_pb PAYLOAD_LOGIN (LoginMsg demo_login)"
  "demo_packets ! 1 = netpack_of tracker_pb PAYLOAD_PUBLISH_RESOURCE (PublishResourceMsg demo_publish)"
  "demo_packets ! 2 = netpack_of tracker_pb PAYLOAD_REQUEST_PEER (QueryPeerMsg demo_query)"
  by (simp_all add: demo_packets_def)

lemma demo_plain: "\<forall>e \<in> set demo_events. plain_event tracker_pb e"
  by (simp add: demo_events_def demo_messages del: One_nat_def)
    (simp add: demo_msgs plain_id_def i32_def messageport_def login_ip_def needcount_def)

lemma view_no_tables: "view_tables no_tables = \<lparr>rg_clients = Map.empty, rg_owners = Map.empty\<rparr>"
  by (simp add: view_tables_def no_tables_def)

theorem tracker_refines_registry_witness:
  "\<exists>replies st. reg_run tracker_pb demo_events (\<lambda>_. [], view_tables no_tables) replies st \<and> length replies = 3"
proof -
  obtain outs cids db where run: "serve tracker_pb table_session demo_events (\<lambda>_. [], no_tables) = (outs, (cids, db))"
    by (metis prod_cases3)
  have "\<forall>i. plain_id ((\<lambda>_. []) i)" by (simp add: plain_id_def)
  from tracker_refines_registry [OF mysql_laws_table_session cursor_stays_table_session demo_plain this run]
  obtain replies where "reg_run tracker_pb demo_events (\<lambda>_. [], view_tables no_tables) replies (cids, view_tables db)"
    "outs = map (\<lambda>r. Ret (map_option (reply_pack tracker_pb) r)) replies" by blast
  moreover have "length outs = 3" using run by (auto simp: demo_events_def split: prod.splits)
  ultimately show ?thesis by (intro exI [of _ replies] exI [of _ "(cids, view_tables db)"]) simp
qed



definition two_owners :: tables where
  "two_owners = \<lparr>tb_clients = map (\<lambda>c. (c, \<lparr>ce_ip = ''1.2.3.4'', ce_messageport = 9025, ce_uploadtotal = 0,
       ce_downloadtotal = 0, ce_createtime = ''now'', ce_lastlogintime = ''now'', ce_isonline = True\<rparr>)) [''a1'', ''b2''],
     tb_owners = [((''f0'', ''a1''), 100), ((''f0'', ''b2''), 40)]\<rparr>"

definition owner_row :: "string \<Rightarrow> int \<Rightarrow> client_row" where
  "owner_row c p = \<lparr>cr_clientid = c, cr_ip = ''1.2.3.4'', cr_messageport = 9025, cr_percentage = p\<rparr>"

lemma two_owners_rows:
  "ss_select table_session (select_sql ''>'' ''f0'' 0 []) (Some 5) two_owners =
     Ret [owner_row ''a1'' 100, owner_row ''b2'' 40]"
  by (simp add: table_session_def run_query_select qt_def)
    (simp add: table_rows_def two_owners_def view_tables_def offers_def row_of_def owner_row_def)

theorem first_owner_never_told_witness:
  "search_percentage_raw table_session GREATER ''f0'' 0 5 [] [] two_owners =
     Ret (ERROR_OK, [found_of ''f0'' (owner_row ''b2'' 40), found_of ''f0'' (owner_row ''b2'' 40)])"
  using first_owner_never_told [OF cursor_stays_table_session, of 5 GREATER "''f0''" 0 "[]" two_owners
      "owner_row ''a1'' 100" "[owner_row ''b2'' 40]" "[]"] two_owners_rows
  by (simp add: owner_row_def)

definition broken_handler :: "io list \<Rightarrow> tables tracker_handler" where
  "broken_handler ev = (new_tracker_handler (\<lparr>rx = [], rx_ev = ev, tx = [], tx_ev = []\<rparr>) two_owners)
     \<lparr>th_clientid := ''a1''\<rparr>"

theorem broken_connection_stays_online_witness:
  "\<exists>q th'. tracker_onReadable tracker_pb 5 table_session (Throw NetException) ''now'' (broken_handler []) = (q, th') \<and>
     (\<exists>e. q = Throw e) \<and> th_db th' = two_owners \<and> th_registered th'"
proof -
  let ?th = "broken_handler []"
  obtain q th' where run: "tracker_onReadable tracker_pb 5 table_session (Throw NetException) ''now'' ?th = (q, th')"
    by fastforce
  have "\<exists>p th1. on_handler_sock (receive_pack tracker_pb 5 new_netpack) ?th = (Ret (ERROR_NET_GRACEFUL_SHUTDOWN, p), th1)"
    by (simp add: on_handler_sock_def receive_pack_def receiveFrom_def receiveHeaderLength_def receiveBytes_def
        broken_handler_def new_tracker_handler_def on_sock_def check_def)
  then obtain p th1 where "on_handler_sock (receive_pack tracker_pb 5 new_netpack) ?th = (Ret (ERROR_NET_GRACEFUL_SHUTDOWN, p), th1)"
    by blast
  from broken_connection_stays_online [OF mysql_laws_table_session _ this _ run]
  have "(\<exists>e. q = Throw e) \<and> th_db th' = two_owners \<and> th_registered th'"
    by (simp add: broken_handler_def new_tracker_handler_def plain_id_def)
  with run show ?thesis by blast
qed

definition linked_bytes :: "byte list \<Rightarrow> sock_manager" where
  "linked_bytes bs =
     \<lparr>lm_server_sock_map = [(''T:1'', 0)], lm_client_sock_map = [], lm_condition_map = [],
      lm_socks = [\<lparr>cn_peer = ''T:1'', cn_lost = False, cn_sock = idle_sock bs\<rparr>], lm_connects = []\<rparr>"

definition tracker_client :: app where
  "tracker_client = demo_app\<lparr>ap_pb := tracker_pb, ap_clientid := ''a1''\<rparr>"

definition one_owner :: tables where
  "one_owner = \<lparr>tb_clients = [(''a1'', \<lparr>ce_ip = ''1.2.3.4'', ce_messageport = 9025, ce_uploadtotal = 0,
       ce_downloadtotal = 0, ce_createtime = ''now'', ce_lastlogintime = ''now'', ce_isonline = True\<rparr>)],
     tb_owners = [((''f0'', ''a1''), 100)]\<rparr>"

definition asked_tracker :: "int \<Rightarrow> message \<Rightarrow> tables tracker_handler" where
  "asked_tracker t msg = new_tracker_handler (idle_sock (frame tracker_pb (netpack_of tracker_pb t msg))) one_owner"

lemma asked_tracker_waiting:
  assumes "msg = PublishResourceMsg demo_publish \<or> msg = QueryPeerMsg demo_query" and "t = payload_of msg"
  shows "request_waiting tracker_pb t msg (th_sock (asked_tracker t msg))"
proof -
  have "np_wf (netpack_of tracker_pb t msg)" by (rule np_wf_netpack_of) (simp add: tracker_pb_def sample_pb_def)
  moreover have "np_message tracker_pb (netpack_of tracker_pb t msg) = Some msg" using assms(1) demo_messages by auto
  ultimately show ?thesis
    using assms
    by (auto simp: request_waiting_def asked_tracker_def new_tracker_handler_def idle_sock_def Let_def
        header_codec_def header_fits_def tracker_pb_def netpack_of_def payload_defs) (simp_all add: sample_defs)
qed

lemma demo_carries:
  assumes "msg = QueryPeerReplyMsg demo_peers \<or> msg = code_msg ERROR_UNKNOWN"
  shows "carries tracker_pb msg"
proof -
  have "np_wf (reply_pack tracker_pb msg)"
    unfolding reply_pack_def by (rule np_wf_netpack_of) (simp add: tracker_pb_def sample_pb_def)
  moreover have "np_message tracker_pb (reply_pack tracker_pb msg) = Some msg"
    using assms by (auto simp: reply_pack_def np_message_def tracker_pb_def sample_pb_def code_msg_def)
  ultimately show ?thesis
    using assms
    by (auto simp: carries_def Let_def reply_pack_def header_codec_def header_fits_def tracker_pb_def netpack_of_def
        payload_defs code_msg_def) (simp_all add: sample_defs)
qed

lemma linked_bytes_simps [simp]:
  "get_tracker_sock ''T:1'' (linked_bytes bs) = Some 0" "length (lm_socks (linked_bytes bs)) = 1"
  "\<not> cn_lost (lm_socks (linked_bytes bs) ! 0)" "tx_ev (cn_sock (lm_socks (linked_bytes bs) ! 0)) = []"
  "rx_ev (cn_sock (lm_socks (linked_bytes bs) ! 0)) = []" "rx (cn_sock (lm_socks (linked_bytes bs) ! 0)) = bs"
  by (simp_all add: linked_bytes_def get_tracker_sock_def idle_sock_def)

lemma asked_tracker_fields [simp]:
  "tx (th_sock (asked_tracker t msg)) = []" "tx_ev (th_sock (asked_tracker t msg)) = []"
  "th_clientid (asked_tracker t msg) = []" "th_db (asked_tracker t msg) = one_owner"
  by (simp_all add: asked_tracker_def new_tracker_handler_def idle_sock_def)

lemma tracker_client_fields [simp]: "ap_pb tracker_client = tracker_pb" "ap_clientid tracker_client = ''a1''"
  by (simp_all add: tracker_client_def)

theorem second_publication_refused_witness:
  "fst (PublishResourceToTracker tracker_client ''T:1'' ''f0'' (linked_bytes (tx (th_sock (snd (tracker_onReadable
     tracker_pb 0 table_session (Ret ''1.2.3.4'') ''now''
     (asked_tracker PAYLOAD_PUBLISH_RESOURCE (PublishResourceMsg demo_publish)))))))) = Ret ERROR_OK"
proof (rule second_publication_refused [OF mysql_laws_table_session, where ap = tracker_client and fileid = "''f0''"
      and th = "asked_tracker PAYLOAD_PUBLISH_RESOURCE (PublishResourceMsg demo_publish)" and behind = "[]",
      THEN conjunct2, THEN conjunct2])
  show "request_waiting (ap_pb tracker_client) PAYLOAD_PUBLISH_RESOURCE (PublishResourceMsg demo_publish)
      (th_sock (asked_tracker PAYLOAD_PUBLISH_RESOURCE (PublishResourceMsg demo_publish)))"
    using asked_tracker_waiting [of "PublishResourceMsg demo_publish" PAYLOAD_PUBLISH_RESOURCE] by simp
  show "carries (ap_pb tracker_client) (code_msg ERROR_UNKNOWN)" using demo_carries by simp
  show "PublishResourceMsg demo_publish = PublishResourceMsg \<lparr>pr_clientid = ap_clientid tracker_client, pr_fileid = ''f0''\<rparr>"
    by (simp add: demo_publish_def)
  show "rg_owners (view_tables (th_db (asked_tracker PAYLOAD_PUBLISH_RESOURCE (PublishResourceMsg demo_publish))))
      (''f0'', ap_clientid tracker_client) \<noteq> None"
    by (simp add: view_tables_def one_owner_def)
qed (rule refl | simp add: plain_id_def)+

lemma one_owner_reply:
  "HandleRequestPeer table_session (Ret ''1.2.3.4'') (Some (QueryPeerMsg demo_query))
     (empty_query_peer_reply\<lparr>qr_returncode := Some (retcode_value ERROR_UNKNOWN)\<rparr>) ([], one_owner) =
     (Ret ERROR_OK, demo_peers)"
proof -
  have "ss_select table_session (select_sql ''>'' ''f0'' 0 [[]]) (Some 5) one_owner = Ret [owner_row ''a1'' 100]"
    by (simp add: table_session_def run_query_select qt_def)
      (simp add: table_rows_def one_owner_def view_tables_def offers_def row_of_def owner_row_def)
  then have "tracker_RequestClients table_session ''f0'' 0 5 [[]] one_owner =
      Ret (ERROR_OK, [found_of ''f0'' (owner_row ''a1'' 100)])"
    by (simp add: tracker_RequestClients_def search_greater_percentage_def search_percentage_raw_def GREATER_def
        rows_found_def read_rows_told [OF cursor_stays_table_session])
  then show ?thesis
    by (simp add: HandleRequestPeer_def Let_def demo_query_def needcount_def empty_query_peer_reply_def demo_peers_def
        peer_of_row_def owner_row_def)
qed

theorem client_learns_owners_witness:
  "\<exists>info. fst (RequestClients tracker_client ''T:1'' ''f0'' 0 5 [] (linked_bytes (tx (th_sock (snd (tracker_onReadable
     tracker_pb 0 table_session (Ret ''1.2.3.4'') ''now''
     (asked_tracker PAYLOAD_REQUEST_PEER (QueryPeerMsg demo_query)))))))) = Ret (ERROR_OK, map owner_of_peer info) \<and>
   tells (view_tables one_owner) [] demo_query info"
proof -
  have q: "demo_query = \<lparr>qp_fileid = ''f0'', qp_percentage = 0, qp_needcount = Some 5, qp_ownedclients = []\<rparr>"
    by (simp add: demo_query_def)
  let ?th = "asked_tracker PAYLOAD_REQUEST_PEER (QueryPeerMsg demo_query)"
  let ?th' = "snd (tracker_onReadable tracker_pb 0 table_session (Ret ''1.2.3.4'') ''now'' ?th)"
  have "\<exists>info. fst (RequestClients tracker_client ''T:1'' ''f0'' 0 5 [] (linked_bytes (tx (th_sock ?th')))) =
      Ret (ERROR_OK, map owner_of_peer info) \<and>
      tells (view_tables (th_db ?th)) (th_clientid ?th) demo_query info \<and> th_db ?th' = th_db ?th"
  proof (rule client_learns_owners [OF mysql_laws_table_session cursor_stays_table_session _ q, where behind = "[]"])
    show "plain_message (Ret ''1.2.3.4'') ''now'' (QueryPeerMsg demo_query)"
      by (simp add: demo_query_def plain_id_def needcount_def i32_def)
    show "request_waiting (ap_pb tracker_client) PAYLOAD_REQUEST_PEER (QueryPeerMsg demo_query) (th_sock ?th)"
      using asked_tracker_waiting [of "QueryPeerMsg demo_query" PAYLOAD_REQUEST_PEER] by simp
    show "carries (ap_pb tracker_client) (QueryPeerReplyMsg (snd (HandleRequestPeer table_session (Ret ''1.2.3.4'')
        (Some (QueryPeerMsg demo_query)) (empty_query_peer_reply\<lparr>qr_returncode := Some (retcode_value ERROR_UNKNOWN)\<rparr>)
        (th_clientid ?th, th_db ?th))))"
      using demo_carries by (simp add: one_owner_reply [simplified])
    show "?th' = snd (tracker_onReadable (ap_pb tracker_client) 0 table_session (Ret ''1.2.3.4'') ''now'' ?th)" by simp
    show "0 < length (lm_socks (linked_bytes (tx (th_sock ?th'))))" by simp
  qed (simp_all add: plain_id_def)
  then show ?thesis by auto
qed

end
