(* ===== verification/TrackerMain.thy ===== *)
theory TrackerMain
  imports TrackerSpec
begin

text \<open>
  \<open>initialize\<close> and \<open>main\<close> of \<open>tracker/src/tracker.cc\<close> with the constructor of
  \<open>tracker/src/tracker_db_manager.cc\<close>: what a run of the tracker does from its start until it is told
  to end.  The session that the factory gives, the configured port, the server socket and the requests
  that the reactor brings are fields of \<open>tracker_env\<close>.
\<close>

record 'db tracker_env =
  te_session :: "'db session outcome"
  te_port :: "int outcome"
  te_server_socket :: "int \<Rightarrow> unit outcome"
  te_events :: "event list"

text \<open>The constructor opens the session and logs what \<open>init_tables\<close> returns.\<close>

definition new_db_manager :: "'db tracker_env \<Rightarrow> 'db \<Rightarrow> ('db session, 'db) result" where
  "new_db_manager E db =
     (case te_session E of
        Throw e \<Rightarrow> (Throw e, db)
      | Ret S \<Rightarrow> and_then (init_tables S db) (\<lambda>ret db. (Ret S, db)))"

definition tracker_initialize :: "'db tracker_env \<Rightarrow> 'db \<Rightarrow> ('db session, 'db) result" where
  "tracker_initialize E db = new_db_manager E db"

text \<open>
  \<open>main\<close> returns an exit code; what it gives beside that are the answers of the connections and the
  client ids they have logged in with.
\<close>

definition tracker_main ::
    "protobuf \<Rightarrow> 'db tracker_env \<Rightarrow> 'db session \<Rightarrow> 'db
      \<Rightarrow> int outcome \<times> netpack option outcome list \<times> 'db tracker_state" where
  "tracker_main pb E S db =
     (let none = (\<lambda>_. []);
          failed = (\<lambda>e. (if poco_exception e then Ret EXIT_TEMPFAIL else Throw e, [], (none, db)))
      in case te_port E of
           Throw e \<Rightarrow> failed e
         | Ret port \<Rightarrow>
             (case te_server_socket E (port mod 2 ^ 16) of
                Throw e \<Rightarrow> failed e
              | Ret _ \<Rightarrow> let (outs, st) = serve pb S (te_events E) (none, db) in (Ret EXIT_OK, outs, st)))"

definition tracker_run ::
    "protobuf \<Rightarrow> 'db tracker_env \<Rightarrow> 'db \<Rightarrow> int outcome \<times> netpack option outcome list \<times> 'db tracker_state" where
  "tracker_run pb E db =
     (case tracker_initialize E db of
        (Throw e, db) \<Rightarrow> (Throw e, [], (\<lambda>_. []), db)
      | (Ret S, db) \<Rightarrow> tracker_main pb E S db)"

text \<open>\<open>tracker/src/main.cc\<close>: what the process ends with.\<close>

definition tracker_process ::
    "protobuf \<Rightarrow> 'db tracker_env \<Rightarrow> 'db \<Rightarrow> int outcome \<times> netpack option outcome list \<times> 'db tracker_state" where
  "tracker_process pb E db = (let (code, outs, st) = tracker_run pb E db in (main_function code, outs, st))"

section \<open>Lemmas: the tables\<close>

text \<open>
  What is documented of \<open>CREATE TABLE IF NOT EXISTS\<close>: it leaves the rows of a table that exists as they
  are, and it may fail, for want of the right to create tables say, with an exception of the library.
\<close>

definition create_laws :: "'db session \<Rightarrow> ('db \<Rightarrow> registry) \<Rightarrow> bool" where
  "create_laws S view \<longleftrightarrow>
     (\<forall>sql \<in> {create_client_sql, create_owner_sql}. \<forall>db r db'. ss_execute S sql [] db = (r, db') \<longrightarrow>
        view db' = view db \<and> (\<forall>e. r = Throw e \<longrightarrow> poco_exception e))"

lemma init_tables_keeps:
  assumes "create_laws S view"
  obtains ret db' where "init_tables S db = (Ret ret, db')" and "view db' = view db"
proof -
  have one: "\<exists>ret db'. init_client_info_table S db = (Ret ret, db') \<and> view db' = view db" for db
    using assms by (cases "ss_execute S create_client_sql [] db"; cases "fst (ss_execute S create_client_sql [] db)")
      (auto simp: init_client_info_table_def create_laws_def)
  have two: "\<exists>ret db'. init_file_owner_info_table S db = (Ret ret, db') \<and> view db' = view db" for db
    using assms by (cases "ss_execute S create_owner_sql [] db"; cases "fst (ss_execute S create_owner_sql [] db)")
      (auto simp: init_file_owner_info_table_def create_laws_def)
  obtain ret1 db1 where 1: "init_client_info_table S db = (Ret ret1, db1)" "view db1 = view db" using one by blast
  obtain ret2 db2 where 2: "init_file_owner_info_table S db1 = (Ret ret2, db2)" "view db2 = view db1" using two by blast
  show ?thesis
    by (rule that [of "if ret1 \<noteq> ERROR_OK then ret1 else ret2" "if ret1 \<noteq> ERROR_OK then db1 else db2"])
      (auto simp: init_tables_def 1 2)
qed

section \<open>Properties\<close>

text \<open>
  C9: a whole run of the tracker, on a database that can be reached: it starts on what the tables hold,
  whether or not it may create them, serves every request of every connection whose peer can be named
  as the registry does,
  leaves the tables as the registry is in the end, and returns \<open>EXIT_OK\<close>.
\<close>

theorem tracker_run_serves_registry:
  assumes "mysql_laws S view" and "cursor_stays S" and "create_laws S view"
    and "te_session E = Ret S" and "te_port E = Ret port" and "te_server_socket E (port mod 2 ^ 16) = Ret u"
    and "\<forall>e \<in> set (te_events E). plain_event pb e"
  shows "\<exists>replies cids db'. reg_run pb (te_events E) ((\<lambda>_. []), view db) replies (cids, view db') \<and>
    tracker_run pb E db = (Ret EXIT_OK, map (\<lambda>r. Ret (map_option (reply_pack pb) r)) replies, (cids, db'))"
proof -
  obtain ret db1 where init: "init_tables S db = (Ret ret, db1)" "view db1 = view db"
    by (rule init_tables_keeps [OF assms(3)])
  obtain outs cids db' where run: "serve pb S (te_events E) ((\<lambda>_. []), db1) = (outs, (cids, db'))"
    by (metis prod.exhaust)
  have "\<forall>i :: nat. plain_id []" by (simp add: plain_id_def)
  from serve_refines [OF assms(1,2,7) this run] init(2) obtain replies where
    "reg_run pb (te_events E) ((\<lambda>_. []), view db) replies (cids, view db')"
    "outs = map (\<lambda>r. Ret (map_option (reply_pack pb) r)) replies" by auto
  moreover from this have "tracker_run pb E db =
      (Ret EXIT_OK, map (\<lambda>r. Ret (map_option (reply_pack pb) r)) replies, (cids, db'))"
    using assms(4-6) init run
    by (simp add: tracker_run_def tracker_initialize_def new_db_manager_def tracker_main_def)
  ultimately show ?thesis by blast
qed

text \<open>
  A tracker that could not make its tables starts all the same: \<open>init_tables\<close> reports the failure, the
  constructor logs it, and \<open>main\<close> opens the port as if nothing had happened.
\<close>

theorem init_failure_ignored:
  assumes "te_session E = Ret S" and "ss_execute S create_client_sql [] db = (Throw e, db1)" and "poco_exception e"
    and "te_port E = Ret port" and "te_server_socket E (port mod 2 ^ 16) = Ret u"
  shows "fst (init_tables S db) = Ret ERROR_DB_INIT_TABLE_ERROR \<and>
    tracker_run pb E db = (let (outs, st) = serve pb S (te_events E) ((\<lambda>_. []), db1) in (Ret EXIT_OK, outs, st))"
  using assms
  by (simp add: init_tables_def init_client_info_table_def tracker_run_def tracker_initialize_def
      new_db_manager_def tracker_main_def)

text \<open>
  A tracker that cannot reach its database ends with the exit code of success: the exception leaves
  \<open>initialize\<close>, which is not in a \<open>try\<close>, and is caught by the \<open>main\<close> function.  Only a port that is
  taken gives an exit code of failure.
\<close>

theorem unreachable_database_exits_zero:
  assumes "te_session E = Throw e" and "poco_exception e"
  shows "tracker_process pb E db = (Ret EXIT_OK, [], (\<lambda>_. []), db)"
  using assms by (simp add: tracker_process_def tracker_run_def tracker_initialize_def new_db_manager_def
      main_function_def EXIT_OK_def)

theorem taken_port_exits_nonzero:
  assumes "te_session E = Ret S" and "init_tables S db = (Ret ret, db1)" and "te_port E = Ret port"
    and "te_server_socket E (port mod 2 ^ 16) = Throw e" and "poco_exception e"
  shows "tracker_process pb E db = (Ret EXIT_TEMPFAIL, [], (\<lambda>_. []), db1)"
  using assms by (simp add: tracker_process_def tracker_run_def tracker_initialize_def new_db_manager_def
      tracker_main_def main_function_def)

section \<open>Witnesses\<close>

definition tracker_start :: "tables tracker_env" where
  "tracker_start = \<lparr>te_session = Ret table_session, te_port = Ret 9977, te_server_socket = (\<lambda>_. Ret ()),
     te_events = demo_events\<rparr>"

lemma table_create_laws: "create_laws table_session view_tables"
  by (auto simp: create_laws_def table_session_def run_statement_def)

theorem tracker_run_serves_registry_witness:
  "\<exists>replies st. tracker_run tracker_pb tracker_start no_tables = (Ret EXIT_OK, replies, st) \<and> length replies = 3"
proof -
  have "\<exists>replies cids db'. reg_run tracker_pb (te_events tracker_start) ((\<lambda>_. []), view_tables no_tables) replies (cids, view_tables db') \<and>
    tracker_run tracker_pb tracker_start no_tables =
      (Ret EXIT_OK, map (\<lambda>r. Ret (map_option (reply_pack tracker_pb) r)) replies, (cids, db'))"
    by (rule tracker_run_serves_registry [OF mysql_laws_table_session cursor_stays_table_session table_create_laws])
      (simp_all add: tracker_start_def demo_plain)
  then obtain replies cids db' where run: "reg_run tracker_pb demo_events ((\<lambda>_. []), view_tables no_tables) replies (cids, view_tables db')"
    "tracker_run tracker_pb tracker_start no_tables =
      (Ret EXIT_OK, map (\<lambda>r. Ret (map_option (reply_pack tracker_pb) r)) replies, (cids, db'))"
    by (auto simp: tracker_start_def)
  have "length replies = 3"
    using run(1) by (auto simp: demo_events_def elim!: reg_run_RequestE reg_run_NilE)
  with run(2) show ?thesis by simp
qed

end
