(* ===== verification/NetManager.thy ===== *)
theory NetManager
  imports TrackerDB NetPack "HOL-Library.AList"
begin

text \<open>
  \<open>tracker/src/net_manager.cc\<close>: a table of connections by peer, which nothing in the tracker uses.
  \<open>Recv\<close> and \<open>Connect\<close> are commented out in the source but for their return, and \<open>GetSockHandler\<close>
  gives every peer the same key.
\<close>

type_synonym net_manager = "(string \<times> sock) list"

definition new_net_manager :: net_manager where
  "new_net_manager = []"

definition GetSockHandler :: "client_info \<Rightarrow> string" where
  "GetSockHandler info = []"

definition on_peer :: "string \<Rightarrow> (sock \<Rightarrow> ('a, sock) result) \<Rightarrow> net_manager \<Rightarrow> sock \<Rightarrow> ('a, net_manager) result" where
  "on_peer key f socks sk = (let (r, sk) = f sk in (r, AList.update key sk socks))"

definition Send :: "protobuf \<Rightarrow> client_info \<Rightarrow> netpack \<Rightarrow> net_manager \<Rightarrow> (retcode, net_manager) result" where
  "Send pb peerInfo content socks =
     (let key = GetSockHandler peerInfo
      in case map_of socks key of
           None \<Rightarrow> (Ret ERROR_NET_NOT_CONNECTED, socks)
         | Some sk \<Rightarrow> on_peer key (sendBy pb content) socks sk)"

definition SendData :: "client_info \<Rightarrow> byte list \<Rightarrow> net_manager \<Rightarrow> (retcode, net_manager) result" where
  "SendData peerInfo content socks =
     (let key = GetSockHandler peerInfo
      in case map_of socks key of
           None \<Rightarrow> (Ret ERROR_NET_NOT_CONNECTED, socks)
         | Some sk \<Rightarrow>
             and_then (on_peer key (sendBytes content) socks sk) (\<lambda>n socks.
               if int (length content) \<noteq> n then (Ret ERROR_NET_SEND_DATA, socks)
               else (Ret ERROR_OK, socks)))"

definition Recv :: "client_info \<Rightarrow> netpack \<Rightarrow> net_manager \<Rightarrow> retcode \<times> netpack \<times> net_manager" where
  "Recv peerInfo content socks = (ERROR_OK, content, socks)"

definition Connect :: "client_info \<Rightarrow> net_manager \<Rightarrow> retcode \<times> net_manager" where
  "Connect peerInfo socks = (ERROR_OK, socks)"

text \<open>
  \<open>Connect\<close> reports success without connecting, so a manager never gets a connection and every
  \<open>Send\<close> on it fails.
\<close>

lemma connected_cannot_send:
  "fst (Connect info new_net_manager) = ERROR_OK"
  "fst (Send pb info content (snd (Connect info new_net_manager))) = Ret ERROR_NET_NOT_CONNECTED"
  "fst (SendData info bytes (snd (Connect info new_net_manager))) = Ret ERROR_NET_NOT_CONNECTED"
  by (simp_all add: Connect_def Send_def SendData_def new_net_manager_def)

end
