(* ===== verification/Spec2Isabelle.thy ===== *)
theory Spec2Isabelle
  imports History ClientMain CompleteRun NetTaskManager TrackerMain NetManager
begin

text \<open>
  CoolDown: a file distribution system in C++.  A tracker (\<open>src/tracker\<close>) keeps in a MySQL database
  who is online and which client has how much of which file.  A client (\<open>src/client\<close>) makes torrents,
  announces its files to the tracker, asks it for owners, shakes hands with them to learn their
  bitmaps, and loads the chunks of a file from several of them at once while it serves its own chunks.
  Both speak in packets (\<open>src/public/netpack\<close>) that carry protobuf messages (\<open>src/proto\<close>).


  \<^bold>\<open>How the theories follow the sources.\<close>

  Shared parts.
  \<^item> \<open>Prelude\<close>: outcomes of calls (\<open>Ret\<close> a value, \<open>Throw\<close> an exception), the sequencing \<open>and_then\<close> of
    calls that keep the state they have reached, \<open>int\<close> conversions, and \<open>std::map\<close> as a sorted
    association list behind the locale \<open>std_map\<close>.
  \<^item> \<open>ErrorCode\<close>: \<open>public/error_code\<close> and \<open>public/include/payload_type.h\<close>.
  \<^item> \<open>Bitset\<close>: \<open>boost::dynamic_bitset\<close> with its 64-bit blocks, \<open>file_bitmap_t\<close> of the client.
  \<^item> \<open>Messages\<close>: the messages of \<open>proto/*.proto\<close> as records; \<open>SocketIO\<close>: a connected socket whose calls
    may be served in part, fail, or be cut off; \<open>NetPack\<close>: \<open>public/netpack\<close>.
  \<^item> \<open>Doubles\<close>: the \<open>double\<close> computations of the client, rounded as IEEE 754 says.

  The client, from the data of a job up to \<open>main\<close>.
  \<^item> \<open>JobInfo\<close> (\<open>job_info.cc\<close>), \<open>Verification\<close> (\<open>verification.cc\<close>), \<open>ChunkSelector\<close>
    (\<open>chunk_selector.cc\<close>, over the locale \<open>priority_queue\<close>).
  \<^item> \<open>SockManager\<close> (\<open>local_sock_manager.cc\<close>, with the locale \<open>lending\<close> for what a pool promises to
    those who borrow from it) and \<open>ClientLink\<close>: the exchanges of \<open>client.cc\<close> over its sockets.
  \<^item> \<open>ChunkTransfer\<close> (\<open>download_task.cc\<close>, \<open>upload_task.cc\<close>): the two ends of a chunk's way.
  \<^item> \<open>Job\<close> (\<open>job.cc\<close>): the loop that hands chunks to tasks, its waits, and the ends of tasks.
  \<^item> \<open>Client\<close>: the table of jobs of \<open>client.cc\<close> with its history file; \<open>Collector\<close>: the call of every
    second and the reports; \<open>ClientTable\<close>: all of them as one step relation; \<open>History\<close>: what is saved
    and reloaded; \<open>MakeTorrent\<close>: making torrents; \<open>ClientHandler\<close> (\<open>client_connection_handler.cc\<close>).
  \<^item> \<open>ChunkExchange\<close>: one chunk on its way from the handler and upload task of one client to the
    download task of another, and a whole file from its chunks; \<open>BitmapTruth\<close>: the loop of a job and its
    tasks over the disk; \<open>CompleteRun\<close>: \<open>Job::run\<close> as a whole, from the job that has just been made to the
    copies at the end.
  \<^item> \<open>ClientMain\<close>: \<open>initialize\<close>, \<open>main\<close> and \<open>uninitialize\<close> of \<open>client.cc\<close>, and \<open>job_info_collector.cc\<close>.
  \<^item> \<open>NetTaskManager\<close> (\<open>net_task_manager.cc\<close>): what is logged of uploads that end.

  The tracker.
  \<^item> \<open>TrackerDB\<close> (\<open>tracker_db_manager.cc\<close>): its SQL statements, character by character, on a session.
  \<^item> \<open>Registry\<close>: what the database stands for, and the laws MySQL documents for these statements;
    \<open>TableSession\<close>: a session on two tables that reads the statements and satisfies the laws.
  \<^item> \<open>Tracker\<close> (\<open>tracker.cc\<close>, \<open>tracker_connection_handler.cc\<close>) and \<open>TrackerSpec\<close>, the abstract tracker
    and the refinement.
  \<^item> \<open>TrackerMain\<close>: \<open>initialize\<close> and \<open>main\<close> of \<open>tracker.cc\<close> around all of this, and \<open>main.cc\<close>.
  \<^item> \<open>NetManager\<close> (\<open>net_manager.cc\<close>), which nothing uses.

  A C++ class is a record of its fields (loggers and mutexes left out), a message or an enum a record
  or a datatype with the names of the source, a method a definition with the method's name on the
  object and what it changes.  Names that both programs have, and those of Isabelle's own library,
  carry a prefix or suffix.  Loops over data are recursive functions.  A log line is left out unless
  making it can fail, as naming the peer of a broken connection can, and it is of a level that is
  logged by default (\<open>information\<close> and above).


  \<^bold>\<open>What the lemmas show.\<close>

  \<^item> Packets and messages: what is sent is received, with what lies behind it untouched, and what
    happens when a call is served in part (\<open>NetPack\<close>); a bitmap survives its transport (\<open>Job\<close>).
  \<^item> A chunk: a download task writes only what has the torrent's checksum, and exactly in the chunk's
    range; it takes what the upload task sends; its loop ends; it keeps the limit of speed.  Together
    with the peer's handler it gets the chunk, and a file whose chunks have all been loaded, in whatever
    order, is the original (\<open>ChunkExchange\<close>).
  \<^item> A job: the queue of missing chunks is complete and each is fetched once; every missing chunk is
    queued, in a task, or accounted for by one of the failures named; sockets are lent to one task; a
    bit of a bitmap that is set stands for a verified chunk on the disk (\<open>BitmapTruth\<close>); when \<open>run\<close>
    returns, every chunk is verified in every place of its file or known to be missing (\<open>CompleteRun\<close>).
  \<^item> The client: the table's invariant under every sequence of operations, the abstract life of a job
    (\<open>Unknown\<close>, \<open>Live\<close>, \<open>Gone\<close>) that each operation and a whole run refine, the history's round trip,
    the schedule and the bounds of reports.
  \<^item> The tracker: a refinement of a registry, for any number of connections that interleave; what
    clients publish is found, and what they learn is true.
  \<^item> Errors: theorems of the kind \<open>error\<close> show where the code does not do what it means to, each on the
    code as it is: the history that is lost, the publication that is refused, the job that runs twice.


  \<^bold>\<open>Interference, fuel and bounds.\<close>

  Other threads appear as lists of what they do.  A transfer loop takes one change of the job's data
  per round (\<open>ChunkTransfer\<close>), a wait of a job one change of its state and the way it wakes (\<open>Job\<close>),
  a join one change of the client per second, and every call of \<open>main\<close> comes after a change given by
  \<open>me_others\<close> (\<open>ClientMain\<close>).  The lists are the fuel: a loop that has not ended when its list is used
  up gives \<open>None\<close>, so a theorem with \<open>Some\<close> as its hypothesis speaks of every list that is long
  enough, and that such lists exist is proved (\<open>download_loop_ends\<close>) or shown by the witnesses.  The
  job's loop has a counter beside it, because a chunk without owners may be asked for for ever.  What
  is assumed of the others (they keep the books, they are steps of the client) is a hypothesis where
  it is needed; the lemmas about the operations that play these parts are what discharges it.

  Integers are words where they wrap in the source and the result matters (\<open>u64\<close> counters, blocks of
  bitmaps, the four-byte lengths), otherwise unbounded with the conversions to \<open>int\<close> written out.


  \<^bold>\<open>Parameters.\<close>

  Protobuf's coding of messages (a record of two functions, with the round trip as a hypothesis), SHA-1
  (a function on bytes), the resolver of host names, the MySQL session, the directory tree, the clock,
  the configuration, the node's id and uninitialised values.  The sockets and the disk are explicit
  states, so that partial reads, failures and files that cannot be opened are cases of every theorem.


  \<^bold>\<open>Not modelled.\<close>

  The reactor and the thread pools of Poco (their calls into the code are the steps modelled here),
  the text of log messages, the parsing of configuration files, the generated protobuf classes, the
  closing of a socket by its last reference, memory management, and the build files.  Methods that only
  return a field are the fields of the records; commented-out code has no counterpart.
\<close>

end
